(* ===== verification/Prelude.thy ===== *)
theory Prelude
  imports Main "HOL-Library.Word" "HOL-Library.Monad_Syntax"
begin

text \<open>
  Shared vocabulary of the development: the fact collections, the names of the kernel's
  basic types, and the loops that every fixed-size kernel table is scanned with.

  Two conventions hold throughout. A kernel panic (an \<open>expect\<close>, \<open>assert!\<close> or
  \<open>panic!\<close> that fires, after which the machine is halted) is the value \<^const>\<open>None\<close>
  of type \<open>'a panics\<close>; a Rust \<open>Result\<close> is a sum with the error on the left. A fixed-size
  array is a list whose length is part of the invariant when it is short, and a total
  function on indices, read only below the array's length, when it is long.
\<close>

section \<open>Fact collections and type names\<close>

named_theorems inv_rules "preservation of a component's invariant by one of its operations"
named_theorems frame_rules "what an operation leaves unchanged"

type_synonym 'a panics = "'a option"

text \<open>Identifiers: \<open>ResourceId(u64)\<close>, \<open>EndpointId(u64)\<close> and table slots.\<close>

type_synonym ResourceId = nat
type_synonym EndpointId = nat
type_synonym slot = nat
type_synonym u8 = "8 word"
type_synonym u32 = "32 word"
type_synonym u64 = "64 word"

section \<open>Scanning loops\<close>

text \<open>
  \<open>iter().position(p)\<close> over an array kept as a list: the least index whose element
  satisfies the predicate.
\<close>

primrec find_idx :: "('a \<Rightarrow> bool) \<Rightarrow> 'a list \<Rightarrow> nat option" where
  "find_idx P [] = None"
| "find_idx P (x # xs) = (if P x then Some 0 else map_option Suc (find_idx P xs))"

text \<open>
  \<open>for i in a..a+n\<close> with an early return, over an array kept as a function: the least
  index of the interval that satisfies the predicate.
\<close>

primrec scan :: "(nat \<Rightarrow> bool) \<Rightarrow> nat \<Rightarrow> nat \<Rightarrow> nat option" where
  "scan P a 0 = None"
| "scan P a (Suc n) = (if P a then Some a else scan P (Suc a) n)"

lemma find_idx_None: "find_idx P xs = None \<longleftrightarrow> (\<forall>x\<in>set xs. \<not> P x)"
  by (induction xs) auto

lemma find_idx_Some:
  "find_idx P xs = Some i \<longleftrightarrow> i < length xs \<and> P (xs ! i) \<and> (\<forall>j<i. \<not> P (xs ! j))"
proof (induction xs arbitrary: i)
  case (Cons x xs)
  show ?case
    by (cases i) (auto simp: Cons.IH less_Suc_eq_0_disj nth_Cons split: nat.splits)
qed simp

lemma find_idx_SomeD:
  "find_idx P xs = Some i \<Longrightarrow> i < length xs"
  "find_idx P xs = Some i \<Longrightarrow> P (xs ! i)"
  by (simp_all add: find_idx_Some)

lemma find_idx_exists:
  assumes "i < length xs" "P (xs ! i)"
  obtains k where "find_idx P xs = Some k"
  using assms find_idx_None [of P xs] by (cases "find_idx P xs") auto

lemma find_idx_replicate:
  "find_idx P (replicate n x) = (if P x \<and> 0 < n then Some 0 else None)"
  by (cases n) (auto simp: find_idx_None)

lemma find_idx_cong: "(\<And>x. x \<in> set xs \<Longrightarrow> P x = Q x) \<Longrightarrow> find_idx P xs = find_idx Q xs"
  by (induction xs) auto

lemma scan_None: "scan P a n = None \<longleftrightarrow> (\<forall>i. a \<le> i \<and> i < a + n \<longrightarrow> \<not> P i)"
proof (induction n arbitrary: a)
  case (Suc n)
  show ?case
  proof (cases "P a")
    case False
    have "(\<forall>i. Suc a \<le> i \<and> i < Suc a + n \<longrightarrow> \<not> P i) \<longleftrightarrow> (\<forall>i. a \<le> i \<and> i < a + Suc n \<longrightarrow> \<not> P i)"
      using False by (metis Suc_leD Suc_le_eq add_Suc add_Suc_right le_neq_implies_less)
    then show ?thesis using False by (simp add: Suc.IH)
  qed auto
qed auto

lemma scan_hit: "P a \<Longrightarrow> 0 < n \<Longrightarrow> scan P a n = Some a"
  by (cases n) auto

lemma scan_SomeD:
  assumes "scan P a n = Some i"
  shows "a \<le> i \<and> i < a + n \<and> P i \<and> (\<forall>j. a \<le> j \<and> j < i \<longrightarrow> \<not> P j)"
  using assms
proof (induction n arbitrary: a)
  case (Suc n)
  show ?case
  proof (cases "P a")
    case False
    then have "scan P (Suc a) n = Some i" using Suc.prems by simp
    note Suc.IH [OF this]
    then show ?thesis
      using False by (metis Suc_leD Suc_le_eq add_Suc add_Suc_right le_neq_implies_less)
  qed (use Suc.prems in auto)
qed simp

lemma case_option_Some_None [simp]:
  "(case x of None \<Rightarrow> None | Some y \<Rightarrow> Some (f y)) = None \<longleftrightarrow> x = None"
  by (cases x) auto

lemma option_ext: "(\<And>x. a = Some x \<longleftrightarrow> b = Some x) \<Longrightarrow> a = b"
  by (cases a) (metis not_None_eq, metis)

section \<open>Lists kept as arrays\<close>

lemma find_append:
  "find P (xs @ ys) = (case find P xs of None \<Rightarrow> find P ys | Some x \<Rightarrow> Some x)"
  by (induction xs) auto

lemma nth_update_cases:
  "(xs[i := x]) ! j = (if i = j \<and> j < length xs then x else xs ! j)"
  by (cases "i = j"; cases "j < length xs") (simp_all add: list_update_beyond)

lemma length_filter_update: "length (filter P xs) \<le> Suc (length (filter P (xs[i := x])))"
proof (induction xs arbitrary: i)
  case (Cons a xs)
  then show ?case by (cases i) (auto simp: le_SucI)
qed simp

lemma set_update_memD: "y \<in> set (xs[i := x]) \<Longrightarrow> y = x \<or> y \<in> set xs"
  using set_update_subset_insert by fastforce

text \<open>A wrapping scan that starts anywhere visits every index.\<close>

lemma mod_cover:
  assumes "n < k" "i < (k :: nat)"
  obtains off where "off < k" "(n + off) mod k = i"
proof (cases "n \<le> i")
  case True
  then show ?thesis using that [of "i - n"] assms by simp
next
  case False
  then show ?thesis using that [of "i + k - n"] assms by simp
qed

lemma mod_shift_inj:
  assumes "i < n" "j < n" "(h + i) mod n = (h + j) mod (n :: nat)"
  shows "i = j"
proof -
  have *: "a = b" if "a \<le> b" "b < n" "(h + a) mod n = (h + b) mod n" for a b
  proof -
    have "n dvd (h + b) - (h + a)"
      using that mod_eq_dvd_iff_nat [of "h + a" "h + b" n] by simp
    then show ?thesis using that by (metis add_diff_cancel_left diff_is_0_eq dvd_imp_le le_antisym
          less_imp_diff_less not_le neq0_conv)
  qed
  show ?thesis using * [of i j] * [of j i] assms by (cases "i \<le> j") auto
qed

text \<open>The number of indices below \<open>n\<close> with a property, as a counter tracks it.\<close>

definition count_below :: "(nat \<Rightarrow> bool) \<Rightarrow> nat \<Rightarrow> nat" where
  "count_below P n = card {i. i < n \<and> P i}"

lemma count_below_le: "count_below P n \<le> n"
proof -
  have "{i. i < n \<and> P i} \<subseteq> {..<n}" by auto
  then show ?thesis unfolding count_below_def by (metis card_lessThan card_mono finite_lessThan)
qed

lemma count_below_cong: "(\<And>i. i < n \<Longrightarrow> P i = Q i) \<Longrightarrow> count_below P n = count_below Q n"
  unfolding count_below_def by (rule arg_cong [where f = card]) auto

lemma count_below_set:
  assumes "i < n" "\<not> P i"
  shows "count_below (P(i := True)) n = Suc (count_below P n)"
proof -
  have "{j. j < n \<and> (P(i := True)) j} = insert i {j. j < n \<and> P j}"
    using assms by (auto simp: fun_upd_apply)
  then show ?thesis using assms by (simp add: count_below_def)
qed

lemma count_below_clear:
  assumes "i < n" "P i"
  shows "Suc (count_below (P(i := False)) n) = count_below P n"
proof -
  have "{j. j < n \<and> P j} = insert i {j. j < n \<and> (P(i := False)) j}"
    using assms by (auto simp: fun_upd_apply)
  then show ?thesis by (simp add: count_below_def)
qed

lemma count_below_pos: "count_below P n = 0 \<longleftrightarrow> (\<forall>i<n. \<not> P i)"
  by (auto simp: count_below_def)

section \<open>Checked and saturating machine arithmetic\<close>

text \<open>\<open>checked_add\<close> and \<open>saturating_add\<close> of the Rust integer types.\<close>

definition checked_add :: "'a::len word \<Rightarrow> 'a word \<Rightarrow> 'a word option" where
  "checked_add x y = (if unat x + unat y < 2 ^ LENGTH('a) then Some (x + y) else None)"

definition saturating_add :: "'a::len word \<Rightarrow> 'a word \<Rightarrow> 'a word" where
  "saturating_add x y = (if unat x + unat y < 2 ^ LENGTH('a) then x + y else - 1)"

lemma unat_less: "unat w < 2 ^ LENGTH('a)" for w :: "'a::len word"
  by (rule unsigned_less)

lemma less_plus_one: "w + 1 \<noteq> 0 \<Longrightarrow> w < w + 1" for w :: "'a::len word"
  by unat_arith

lemma checked_add_Some: "checked_add x y = Some z \<Longrightarrow> unat z = unat x + unat y"
  by (auto simp: checked_add_def unat_word_ariths split: if_splits)

lemma unat_minus_one_eq: "unat (- 1 :: 'a::len word) = 2 ^ LENGTH('a) - 1"
  by (simp add: unsigned_minus_1_eq_mask mask_eq_exp_minus_1)

lemma unat_saturating_add:
  "unat (saturating_add x y) = min (unat x + unat y) (2 ^ LENGTH('a) - 1)"
  for x y :: "'a::len word"
  by (auto simp: saturating_add_def unat_word_ariths unat_minus_one_eq)

section \<open>Rounding to pages\<close>

unbundle bit_operations_syntax

text \<open>Clearing the low twelve bits of an address rounds it down to a multiple of the page size.\<close>

lemma page_mask: "(4095 :: u64) = mask 12"
  by (simp add: mask_eq_exp_minus_1)

lemma unat_page_down: "unat (w AND NOT 4095) = unat w div 4096 * 4096" for w :: u64
proof -
  have "w AND NOT (mask 12) = push_bit 12 (drop_bit 12 w)"
    by (rule bit_word_eqI) (auto simp: bit_simps)
  moreover have "unat (push_bit 12 (drop_bit 12 w)) = unat w div 4096 * 4096 mod 2 ^ 64"
    by (simp add: push_bit_eq_mult drop_bit_eq_div unat_word_ariths unat_div mod_mult_left_eq)
  moreover have "unat w div 4096 * 4096 < 2 ^ 64"
    using unsigned_less [where w = w and 'a = nat] by simp
  ultimately show ?thesis by (simp add: page_mask)
qed

end
