(* ===== verification/Interfaces.thy ===== *)
theory Interfaces
  imports Prelude
begin

text \<open>
  The contracts between components. Each locale fixes the operations a client calls and
  assumes the laws their provider promises; the client's lemmas are proved here once. Every
  locale is interpreted on the kernel's own tables, in the theory of the component that
  provides the operations.
\<close>

section \<open>Bounded FIFO queues\<close>

text \<open>
  \<open>enq\<close> hands the message back when the queue is full; \<open>deq\<close> returns the oldest message.
  The abstraction is the list of waiting messages, oldest first.
\<close>

locale bounded_fifo =
  fixes inv :: "'q \<Rightarrow> bool"
    and abs :: "'q \<Rightarrow> 'm list"
    and depth :: nat
    and enq :: "'m \<Rightarrow> 'q \<Rightarrow> 'm + 'q"
    and deq :: "'q \<Rightarrow> 'm option \<times> 'q"
  assumes abs_bounded: "inv q \<Longrightarrow> length (abs q) \<le> depth"
    and enq_full: "inv q \<Longrightarrow> length (abs q) = depth \<Longrightarrow> enq m q = Inl m"
    and enq_room: "inv q \<Longrightarrow> length (abs q) < depth \<Longrightarrow>
          \<exists>q'. enq m q = Inr q' \<and> inv q' \<and> abs q' = abs q @ [m]"
    and deq_empty: "inv q \<Longrightarrow> abs q = [] \<Longrightarrow> deq q = (None, q)"
    and deq_cons: "inv q \<Longrightarrow> abs q = m # ms \<Longrightarrow>
          \<exists>q'. deq q = (Some m, q') \<and> inv q' \<and> abs q' = ms"
begin

text \<open>Enqueueing a list of messages; the ones that find the queue full are dropped.\<close>

primrec enq_all :: "'m list \<Rightarrow> 'q \<Rightarrow> 'q" where
  "enq_all [] q = q"
| "enq_all (m # ms) q = enq_all ms (case enq m q of Inl _ \<Rightarrow> q | Inr q' \<Rightarrow> q')"

text \<open>Dequeueing \<open>n\<close> times, collecting what comes out.\<close>

primrec deq_many :: "nat \<Rightarrow> 'q \<Rightarrow> 'm list \<times> 'q" where
  "deq_many 0 q = ([], q)"
| "deq_many (Suc n) q =
    (case deq q of (None, q') \<Rightarrow> ([], q')
     | (Some m, q') \<Rightarrow> (let (ms, q'') = deq_many n q' in (m # ms, q'')))"

lemma deq_inv:
  assumes "inv q"
  shows "inv (snd (deq q))"
proof (cases "abs q")
  case Nil
  then show ?thesis using deq_empty [OF assms] assms by simp
next
  case (Cons m ms)
  then show ?thesis using deq_cons [OF assms Cons] by auto
qed

lemma enq_Inr:
  assumes "inv q" "enq m q = Inr q'"
  shows "length (abs q) < depth \<and> inv q' \<and> abs q' = abs q @ [m]"
proof (cases "length (abs q) = depth")
  case True
  then show ?thesis using enq_full [OF assms(1)] assms(2) by simp
next
  case False
  then have "length (abs q) < depth" using abs_bounded [OF assms(1)] by simp
  then show ?thesis using enq_room [OF assms(1), of m] assms(2) by auto
qed

lemma enq_all_abs:
  assumes "inv q"
  shows "inv (enq_all ms q) \<and> abs (enq_all ms q) = take depth (abs q @ ms)"
  using assms
proof (induction ms arbitrary: q)
  case Nil
  then show ?case using abs_bounded by simp
next
  case (Cons m ms)
  show ?case
  proof (cases "length (abs q) < depth")
    case True
    then obtain q' where "enq m q = Inr q'" "inv q'" "abs q' = abs q @ [m]"
      using enq_room Cons.prems by blast
    then show ?thesis using Cons.IH [of q'] by simp
  next
    case False
    then have "length (abs q) = depth" using abs_bounded [OF Cons.prems] by simp
    then show ?thesis using Cons.IH [OF Cons.prems] enq_full [OF Cons.prems] by simp
  qed
qed

lemma deq_many_abs:
  assumes "inv q"
  shows "fst (deq_many n q) = take n (abs q) \<and> inv (snd (deq_many n q))
    \<and> abs (snd (deq_many n q)) = drop n (abs q)"
  using assms
proof (induction n arbitrary: q)
  case (Suc n)
  show ?case
  proof (cases "abs q")
    case Nil
    then show ?thesis using deq_empty [OF Suc.prems] Suc.prems by simp
  next
    case (Cons m ms)
    then obtain q' where "deq q = (Some m, q')" "inv q'" "abs q' = ms"
      using deq_cons [OF Suc.prems] by blast
    then show ?thesis using Suc.IH [of q'] Cons by (simp add: case_prod_beta)
  qed
qed simp

text \<open>Messages come out in the order they went in, none lost below the depth.\<close>

lemma fifo_roundtrip:
  assumes "inv q" "abs q = []" "length ms \<le> depth"
  shows "fst (deq_many (length ms) (enq_all ms q)) = ms"
  using enq_all_abs [OF assms(1), of ms] deq_many_abs assms by simp

end

section \<open>Pools of identifiers\<close>

text \<open>
  An allocator of table slots, identifiers or frames: \<open>alloc\<close> takes a free one or reports
  that there is none, \<open>release\<close> gives it back. \<open>live\<close> is the set of identifiers handed out.
\<close>

locale id_pool =
  fixes inv :: "'s \<Rightarrow> bool"
    and live :: "'s \<Rightarrow> 'i set"
    and alloc :: "'s \<Rightarrow> ('i \<times> 's) option"
    and release :: "'i \<Rightarrow> 's \<Rightarrow> 's"
  assumes alloc_fresh: "inv s \<Longrightarrow> alloc s = Some (i, s') \<Longrightarrow> i \<notin> live s"
    and alloc_live: "inv s \<Longrightarrow> alloc s = Some (i, s') \<Longrightarrow> live s' = insert i (live s)"
    and alloc_inv: "inv s \<Longrightarrow> alloc s = Some (i, s') \<Longrightarrow> inv s'"
    and release_live: "inv s \<Longrightarrow> i \<in> live s \<Longrightarrow> live (release i s) = live s - {i}"
    and release_inv: "inv s \<Longrightarrow> i \<in> live s \<Longrightarrow> inv (release i s)"
begin

primrec alloc_many :: "nat \<Rightarrow> 's \<Rightarrow> ('i list \<times> 's) option" where
  "alloc_many 0 s = Some ([], s)"
| "alloc_many (Suc n) s =
    (case alloc s of None \<Rightarrow> None
     | Some (i, s') \<Rightarrow> map_option (\<lambda>(is, s''). (i # is, s'')) (alloc_many n s'))"

text \<open>Identifiers allocated one after the other are distinct and none was live before.\<close>

lemma alloc_many_distinct:
  assumes "inv s" "alloc_many n s = Some (is, s')"
  shows "distinct is \<and> set is \<inter> live s = {} \<and> live s' = live s \<union> set is \<and> inv s'
    \<and> length is = n"
  using assms
proof (induction n arbitrary: s "is")
  case (Suc n)
  from Suc.prems(2) obtain i s1 js where a: "alloc s = Some (i, s1)"
    and m: "alloc_many n s1 = Some (js, s')" and eq: "is = i # js"
    by (auto split: option.splits)
  have inv1: "inv s1" and live1: "live s1 = insert i (live s)" and fresh: "i \<notin> live s"
    using alloc_inv alloc_live alloc_fresh Suc.prems(1) a by blast+
  show ?case using Suc.IH [OF inv1 m] live1 fresh eq by auto
qed simp

text \<open>An identifier that is live is not handed out a second time until it is released.\<close>

lemma no_double_alloc:
  "inv s \<Longrightarrow> alloc s = Some (i, s1) \<Longrightarrow> alloc s1 = Some (j, s2) \<Longrightarrow> i \<noteq> j"
  using alloc_fresh alloc_inv alloc_live by blast

lemma release_alloc_live:
  "inv s \<Longrightarrow> alloc s = Some (i, s') \<Longrightarrow> live (release i s') = live s"
  using release_live [of s' i] alloc_inv [of s i s'] alloc_live [of s i s'] alloc_fresh [of s i s']
  by auto

end

section \<open>Directories\<close>

text \<open>A table from keys to values with an insertion that may find no room.\<close>

locale directory =
  fixes inv :: "'s \<Rightarrow> bool"
    and find_val :: "'s \<Rightarrow> 'k \<Rightarrow> 'v option"
    and put :: "'k \<Rightarrow> 'v \<Rightarrow> 's \<Rightarrow> 's"
    and remove_key :: "'k \<Rightarrow> 's \<Rightarrow> 's"
    and room :: "'s \<Rightarrow> 'k \<Rightarrow> bool"
  assumes put_inv: "inv s \<Longrightarrow> inv (put k v s)"
    and remove_inv: "inv s \<Longrightarrow> inv (remove_key k s)"
    and put_same: "inv s \<Longrightarrow> room s k \<Longrightarrow> find_val (put k v s) k = Some v"
    and remove_same: "inv s \<Longrightarrow> find_val (remove_key k s) k = None"
    and remove_other: "inv s \<Longrightarrow> k' \<noteq> k \<Longrightarrow> find_val (remove_key k s) k' = find_val s k'"
begin

lemma put_remove: "inv s \<Longrightarrow> find_val (remove_key k (put k v s)) k = None"
  by (simp add: put_inv remove_same)

lemma put_put: "inv s \<Longrightarrow> room (put k v s) k \<Longrightarrow> find_val (put k w (put k v s)) k = Some w"
  by (simp add: put_inv put_same)

lemma removed_stays_out:
  "inv s \<Longrightarrow> find_val s k = None \<Longrightarrow> find_val (remove_key k' s) k = None"
  using remove_other remove_same by (cases "k' = k") auto

end

section \<open>Transition systems with an invariant\<close>

text \<open>Invariants of one step hold along every run.\<close>

locale inv_system =
  fixes step :: "'s \<Rightarrow> 's \<Rightarrow> bool"
    and inv :: "'s \<Rightarrow> bool"
  assumes step_inv: "step s t \<Longrightarrow> inv s \<Longrightarrow> inv t"
begin

lemma run_inv: "step\<^sup>*\<^sup>* s t \<Longrightarrow> inv s \<Longrightarrow> inv t"
  by (induction rule: rtranclp_induct) (auto intro: step_inv)

text \<open>A value that no step lowers is not lowered by a run.\<close>

lemma run_mono:
  assumes "step\<^sup>*\<^sup>* s t" "inv s"
    and "\<And>x y. step x y \<Longrightarrow> inv x \<Longrightarrow> (f x :: 'o::preorder) \<le> f y"
  shows "f s \<le> f t"
  using assms(1,2)
proof (induction rule: rtranclp_induct)
  case (step y z)
  then show ?case using assms(3) run_inv order_trans by blast
qed simp

end

end
