(* ===== verification/Frame_Alloc.thy ===== *)
theory Frame_Alloc
  imports Interfaces
begin

text \<open>
  The physical frame allocator (\<open>kernel/src/memory/allocator.rs\<close>, \<open>memory/frame.rs\<close>): two bitmaps
  carved from RAM at boot, a byte scan hint, counters, and a table of reserved ranges. The bitmaps
  are functions from byte index to byte, read below \<open>bitmap_len\<close>. Physical addresses of the memory map
  are 64-bit words; a frame handed out is its address as a natural number. Operations run under
  \<open>ALLOC_LOCKED\<close> and are functions of the state. Indices and counters are natural numbers: the
  invariant keeps every subtraction from going below zero.
\<close>

unbundle bit_operations_syntax

definition FRAME_SIZE :: nat where "FRAME_SIZE = 4096"
definition MAX_DMA_RESERVES :: nat where "MAX_DMA_RESERVES = 6"

record BitmapAllocator =
  bitmap :: "nat \<Rightarrow> u8"
  kpt :: "nat \<Rightarrow> u8"
  bitmap_len :: nat
  guard_start :: nat
  guard_end :: nat
  free_frames :: nat
  total_frames :: nat
  next_byte :: nat
  max_valid_frame :: nat
  max_ram_frame :: nat
  min_ram_frame :: nat
  double_frees :: nat
  dma_reserves :: "(nat \<times> nat) list"

definition USIZE_MAX :: nat where "USIZE_MAX = 2 ^ 64 - 1"

definition BitmapAllocator_new :: BitmapAllocator where
  "BitmapAllocator_new =
    \<lparr>bitmap = (\<lambda>_. 0), kpt = (\<lambda>_. 0), bitmap_len = 0, guard_start = 0, guard_end = 0,
     free_frames = 0, total_frames = 0, next_byte = 0, max_valid_frame = 0, max_ram_frame = 0,
     min_ram_frame = USIZE_MAX, double_frees = 0, dma_reserves = replicate MAX_DMA_RESERVES (0, 0)\<rparr>"

section \<open>Bits\<close>

definition bit_mask :: "nat \<Rightarrow> u8" where "bit_mask idx = push_bit (idx mod 8) 1"

text \<open>\<open>bitmap[idx / 8] &= !(1 << (idx % 8))\<close>\<close>

definition clear_bit :: "nat \<Rightarrow> BitmapAllocator \<Rightarrow> BitmapAllocator" where
  "clear_bit idx a =
    a\<lparr>bitmap := (bitmap a)(idx div 8 := bitmap a (idx div 8) AND NOT (bit_mask idx))\<rparr>"

definition bitmap_set_free :: "nat \<Rightarrow> BitmapAllocator \<Rightarrow> bool \<times> BitmapAllocator" where
  "bitmap_set_free idx a =
    (let was_free = (bitmap a (idx div 8) AND bit_mask idx) \<noteq> 0 in
     (was_free, a\<lparr>bitmap := (bitmap a)(idx div 8 := bitmap a (idx div 8) OR bit_mask idx)\<rparr>))"

definition trailing_zeros :: "u8 \<Rightarrow> nat" where
  "trailing_zeros w = (case scan (bit w) 0 8 of Some i \<Rightarrow> i | None \<Rightarrow> 8)"

definition scan_free :: "(nat \<Rightarrow> u8) \<Rightarrow> nat \<Rightarrow> nat \<Rightarrow> nat option" where
  "scan_free bm start stop =
    (case scan (\<lambda>b. bm b \<noteq> 0) start (stop - start) of
       Some b \<Rightarrow> Some (b * 8 + trailing_zeros (bm b))
     | None \<Rightarrow> None)"

definition frame_align_up :: "u64 \<Rightarrow> u64" where
  "frame_align_up addr = (addr + of_nat FRAME_SIZE - 1) AND NOT (of_nat FRAME_SIZE - 1)"

definition frame_align_down :: "u64 \<Rightarrow> u64" where
  "frame_align_down addr = addr AND NOT (of_nat FRAME_SIZE - 1)"

section \<open>Single frames\<close>

text \<open>\<open>alloc\<close>: the physical address of a frame, none when memory is exhausted, a panic when the frame
  lies in the kernel image.\<close>

definition BitmapAllocator_alloc :: "BitmapAllocator \<Rightarrow> (nat option \<times> BitmapAllocator) panics" where
  "BitmapAllocator_alloc a =
    (let len = bitmap_len a;
         found = (case scan_free (bitmap a) (next_byte a) len of
                    Some i \<Rightarrow> Some i
                  | None \<Rightarrow> scan_free (bitmap a) 0 (next_byte a)) in
     case found of
       None \<Rightarrow> Some (None, a)
     | Some idx \<Rightarrow>
        (let a1 = (clear_bit idx a)\<lparr>free_frames := free_frames a - 1,
                                    next_byte := min (idx div 8 + 1) (len - 1)\<rparr>;
             phys_addr = idx * FRAME_SIZE in
         if guard_end a > guard_start a \<and> phys_addr \<ge> guard_start a \<and> phys_addr < guard_end a
         then None
         else Some (Some phys_addr, a1)))"

text \<open>Frame \<open>idx\<close> lies in a reserved range.\<close>

definition dma_reserved :: "(nat \<times> nat) list \<Rightarrow> nat \<Rightarrow> bool" where
  "dma_reserved rs idx \<longleftrightarrow> list_ex (\<lambda>(base, n). n \<noteq> 0 \<and> idx \<ge> base \<and> idx < base + n) rs"

definition BitmapAllocator_free :: "nat \<Rightarrow> BitmapAllocator \<Rightarrow> BitmapAllocator" where
  "BitmapAllocator_free phys a =
    (let idx = phys div FRAME_SIZE in
     if idx \<ge> max_valid_frame a \<or> idx \<ge> max_ram_frame a then a
     else if (kpt a (idx div 8) AND bit_mask idx) \<noteq> 0 then a
     else if dma_reserved (dma_reserves a) idx then a
     else
       (case bitmap_set_free idx a of
          (True, a1) \<Rightarrow> a1\<lparr>double_frees := double_frees a1 + 1\<rparr>
        | (False, a1) \<Rightarrow>
           (let a2 = a1\<lparr>free_frames := free_frames a1 + 1\<rparr> in
            if idx div 8 < next_byte a2 then a2\<lparr>next_byte := idx div 8\<rparr> else a2)))"

section \<open>Contiguous runs and reservations\<close>

text \<open>The scan of \<open>alloc_contiguous\<close> for \<open>n\<close> free frames in a row.\<close>

function find_run :: "(nat \<Rightarrow> bool) \<Rightarrow> nat \<Rightarrow> nat \<Rightarrow> nat \<Rightarrow> nat \<Rightarrow> nat \<Rightarrow> nat option" where
  "find_run free n stop idx run start =
    (if idx < stop then
       (if free idx then
          (let start' = (if run = 0 then idx else start) in
           if run + 1 = n then Some start' else find_run free n stop (idx + 1) (run + 1) start')
        else find_run free n stop (idx + 1) 0 start)
     else None)"
  by pat_completeness auto
termination
  by (relation "measure (\<lambda>(free, n, stop, idx, run, start). stop - idx)") auto

declare find_run.simps [simp del]

definition alloc_contiguous :: "nat \<Rightarrow> BitmapAllocator \<Rightarrow> nat option \<times> BitmapAllocator" where
  "alloc_contiguous n a =
    (if n = 0 then (None, a)
     else
       (let stop = min (max_valid_frame a + 1) (max_ram_frame a) in
        case find_run (\<lambda>i. bit (bitmap a (i div 8)) (i mod 8)) n stop 0 0 0 of
          None \<Rightarrow> (None, a)
        | Some start \<Rightarrow>
           (Some (start * FRAME_SIZE),
            (fold clear_bit [start..<start + n] a)\<lparr>free_frames := free_frames a - n\<rparr>)))"

definition alloc_dma_arena :: "nat \<Rightarrow> BitmapAllocator \<Rightarrow> nat option \<times> BitmapAllocator" where
  "alloc_dma_arena n a =
    (case alloc_contiguous n a of
       (None, a1) \<Rightarrow> (None, a1)
     | (Some phys, a1) \<Rightarrow>
        (let base = phys div FRAME_SIZE in
         case find_idx (\<lambda>s. snd s = 0) (dma_reserves a1) of
           Some i \<Rightarrow> (Some phys, a1\<lparr>dma_reserves := (dma_reserves a1)[i := (base, n)]\<rparr>)
         | None \<Rightarrow>
            (None, (fold (\<lambda>i s. snd (bitmap_set_free i s)) [base..<base + n] a1)
                     \<lparr>free_frames := free_frames a1 + n\<rparr>)))"

definition reserve_no_free :: "nat \<Rightarrow> nat \<Rightarrow> BitmapAllocator \<Rightarrow> bool \<times> BitmapAllocator" where
  "reserve_no_free phys n a =
    (if n = 0 then (True, a)
     else
       (let base = phys div FRAME_SIZE in
        if list_ex (\<lambda>(b, len). len \<noteq> 0 \<and> base \<ge> b \<and> base + n \<le> b + len) (dma_reserves a)
        then (True, a)
        else (case find_idx (\<lambda>s. snd s = 0) (dma_reserves a) of
                Some i \<Rightarrow> (True, a\<lparr>dma_reserves := (dma_reserves a)[i := (base, n)]\<rparr>)
              | None \<Rightarrow> (False, a))))"

section \<open>Queries\<close>

definition phys_in_ram :: "BitmapAllocator \<Rightarrow> nat \<Rightarrow> bool" where
  "phys_in_ram a phys \<longleftrightarrow>
    (let idx = phys div FRAME_SIZE in idx \<ge> min_ram_frame a \<and> idx < max_ram_frame a)"

definition ram_limit_phys :: "BitmapAllocator \<Rightarrow> nat" where
  "ram_limit_phys a = max_ram_frame a * FRAME_SIZE"

definition frame_is_free :: "BitmapAllocator \<Rightarrow> nat \<Rightarrow> bool option" where
  "frame_is_free a phys =
    (if \<not> phys_in_ram a phys then None
     else let idx = phys div FRAME_SIZE in
       Some ((bitmap a (idx div 8) AND bit_mask idx) \<noteq> 0))"

primrec dma_nearest :: "nat \<Rightarrow> (nat \<times> nat) list \<Rightarrow> nat \<Rightarrow> (bool \<times> nat)" where
  "dma_nearest idx [] nearest = (False, nearest)"
| "dma_nearest idx (r # rs) nearest =
    (let (base, n) = r in
     if n = 0 then dma_nearest idx rs nearest
     else if idx \<ge> base \<and> idx < base + n then (True, 0)
     else
       let d = (if idx < base then base - idx else idx - (base + n) + 1) in
       dma_nearest idx rs (if d < nearest then d else nearest))"

definition phys_dma_proximity :: "BitmapAllocator \<Rightarrow> nat \<Rightarrow> nat \<Rightarrow> bool \<times> nat" where
  "phys_dma_proximity a phys slack =
    (case dma_nearest (phys div FRAME_SIZE) (dma_reserves a) USIZE_MAX of
       (True, d) \<Rightarrow> (True, d)
     | (False, nearest) \<Rightarrow> (False, if nearest \<le> slack then nearest else USIZE_MAX))"

section \<open>Building the bitmaps from the memory map\<close>

datatype MemoryKind = Usable | Reserved | AcpiReclaimable | KernelImage | BootloaderReclaimable

record MemoryRegion =
  region_base :: u64
  region_len :: u64
  region_kind :: MemoryKind

record BootInfo =
  kernel_phys_start :: u64
  kernel_phys_end :: u64
  hhdm_offset :: u64
  memory_map :: "MemoryRegion list"

definition frame_size64 :: u64 where "frame_size64 = of_nat FRAME_SIZE"

text \<open>Pass 1 over one region: the extent of RAM and of the usable frames, and the largest usable
  region so far as (start, length).\<close>

definition measure_region ::
  "MemoryRegion \<Rightarrow> BitmapAllocator \<times> u64 \<times> u64 \<Rightarrow> BitmapAllocator \<times> u64 \<times> u64" where
  "measure_region region st =
    (case st of (a, largest_start, largest_len) \<Rightarrow>
      (let ram_last = unat ((region_base region + region_len region + frame_size64 - 1) div frame_size64);
           ram_first = unat (region_base region div frame_size64);
           a1 = (if region_kind region \<in> {Usable, AcpiReclaimable, KernelImage, BootloaderReclaimable}
                 then a\<lparr>max_ram_frame := max (max_ram_frame a) ram_last,
                         min_ram_frame := min (min_ram_frame a) ram_first\<rparr>
                 else a);
           start = frame_align_up (region_base region);
           stop = frame_align_down (region_base region + region_len region) in
       if region_kind region \<noteq> Usable \<or> stop \<le> start then (a1, largest_start, largest_len)
       else
         (let a2 = a1\<lparr>max_valid_frame := max (max_valid_frame a1) (unat (stop div frame_size64))\<rparr> in
          if stop - start > largest_len then (a2, start, stop - start)
          else (a2, largest_start, largest_len))))"

text \<open>Pass 2: the frames a region contributes, and the opening of one of them.\<close>

definition usable_frames :: "MemoryRegion \<Rightarrow> nat list" where
  "usable_frames region =
    (let start = frame_align_up (region_base region);
         stop = frame_align_down (region_base region + region_len region) in
     if region_kind region \<noteq> Usable \<or> start \<ge> stop then []
     else [unat (start div frame_size64) ..< unat (stop div frame_size64)])"

definition open_frame :: "u64 \<Rightarrow> u64 \<Rightarrow> nat \<Rightarrow> nat \<Rightarrow> nat \<Rightarrow> BitmapAllocator \<Rightarrow> BitmapAllocator" where
  "open_frame kstart kend carve_first carve_last idx a =
    (let frame_phys = idx * FRAME_SIZE in
     if idx \<ge> max_ram_frame a then a
     else if kend > kstart \<and> frame_phys \<ge> unat kstart \<and> frame_phys < unat kend then a
     else if idx \<ge> carve_first \<and> idx < carve_last then a
     else (snd (bitmap_set_free idx a))\<lparr>free_frames := free_frames a + 1\<rparr>)"

definition carve_range :: "nat \<Rightarrow> u64 \<Rightarrow> u64 \<Rightarrow> nat \<times> nat" where
  "carve_range need_frames largest_start largest_len =
    (let carve_last = unat ((largest_start + largest_len) div frame_size64) in
     (carve_last - need_frames, carve_last))"

text \<open>\<open>init_from_map\<close> after \<open>init\<close> stored the guard range; \<open>identity\<close> is the architecture's
  \<open>PHYS_IS_IDENTITY\<close>. A panic is \<open>None\<close>. The first index at or past the frame cap ends the inner loop
  of pass 2; skipping it and its successors is the same.\<close>

definition init_from_map :: "bool \<Rightarrow> BootInfo \<Rightarrow> BitmapAllocator \<Rightarrow> BitmapAllocator panics" where
  "init_from_map identity info a =
    (if hhdm_offset info = 0 \<and> \<not> identity then None
     else
       (case fold measure_region (memory_map info) (a, 0, 0) of (a1, largest_start, largest_len) \<Rightarrow>
         (let frame_cap = max_ram_frame a1;
              len = (frame_cap + 7) div 8;
              need = 2 * len;
              need_frames = (need + FRAME_SIZE - 1) div FRAME_SIZE in
          if unat (largest_len div frame_size64) < need_frames then None
          else
            (let (carve_first, carve_last) = carve_range need_frames largest_start largest_len;
                 a2 = a1\<lparr>bitmap := (\<lambda>_. 0), kpt := (\<lambda>_. 0), bitmap_len := len\<rparr>;
                 a3 = fold (\<lambda>region. fold (open_frame (kernel_phys_start info) (kernel_phys_end info)
                                              carve_first carve_last) (usable_frames region))
                        (memory_map info) a2 in
             Some (a3\<lparr>total_frames := free_frames a3\<rparr>)))))"

definition allocator_init :: "bool \<Rightarrow> BootInfo \<Rightarrow> BitmapAllocator panics" where
  "allocator_init identity info =
    init_from_map identity info
      (BitmapAllocator_new\<lparr>guard_start := unat (kernel_phys_start info),
                           guard_end := unat (kernel_phys_end info)\<rparr>)"

section \<open>Protecting the bootloader's page tables\<close>

definition mark_pt_frame_used :: "u64 \<Rightarrow> BitmapAllocator \<Rightarrow> BitmapAllocator" where
  "mark_pt_frame_used phys a =
    (let idx = unat (phys div frame_size64) in
     if idx \<ge> max_ram_frame a then a
     else
       (let a1 = (if (bitmap a (idx div 8) AND bit_mask idx) \<noteq> 0
                  then (clear_bit idx a)\<lparr>free_frames := free_frames a - 1\<rparr> else a) in
        a1\<lparr>kpt := (kpt a1)(idx div 8 := kpt a1 (idx div 8) OR bit_mask idx)\<rparr>))"

definition pt_addr :: "u64 \<Rightarrow> u64" where "pt_addr e = e AND 0x000FFFFFFFFFF000"
definition pt_present :: "u64 \<Rightarrow> bool" where "pt_present e \<longleftrightarrow> e AND 1 \<noteq> 0"
definition pt_huge :: "u64 \<Rightarrow> bool" where "pt_huge e \<longleftrightarrow> e AND push_bit 7 1 \<noteq> 0"

text \<open>The walk; \<open>pt_read table i\<close> is entry \<open>i\<close> of the table at a physical address. It only reads the
  tables, which are outside the bitmaps.\<close>

definition protect_kernel_page_table_frames ::
  "bool \<Rightarrow> u64 \<Rightarrow> u64 \<Rightarrow> (u64 \<Rightarrow> nat \<Rightarrow> u64) \<Rightarrow> BitmapAllocator \<Rightarrow> BitmapAllocator" where
  "protect_kernel_page_table_frames bootloader_placed_tables hhdm page_table_base pt_read a =
    (if \<not> bootloader_placed_tables \<or> hhdm = 0 then a
     else
       (let pml4_phys = page_table_base AND NOT 0xFFF in
        fold (\<lambda>pml4_i s.
          let pml4e = pt_read pml4_phys pml4_i in
          if \<not> pt_present pml4e then s
          else let pdpt_phys = pt_addr pml4e in
            fold (\<lambda>pdpt_i s.
              let pdpte = pt_read pdpt_phys pdpt_i in
              if \<not> pt_present pdpte \<or> pt_huge pdpte then s
              else let pd_phys = pt_addr pdpte in
                fold (\<lambda>pd_i s.
                  let pde = pt_read pd_phys pd_i in
                  if \<not> pt_present pde \<or> pt_huge pde then s
                  else mark_pt_frame_used (pt_addr pde) s)
                  [0..<512] (mark_pt_frame_used pd_phys s))
              [0..<512] (mark_pt_frame_used pdpt_phys s))
          [256..<512] (mark_pt_frame_used pml4_phys a)))"

end
