(* ===== verification/Frame_Alloc_Props.thy ===== *)
theory Frame_Alloc_Props
  imports Frame_Alloc
begin

text \<open>
  The frame allocator's invariant and what its operations do to the set of free frames: the counter
  equals the number of set bits, every set bit is a frame the allocator may hand out, and page-table
  frames, reserved ranges and the kernel image are never among them.
\<close>

unbundle bit_operations_syntax

definition is_free :: "BitmapAllocator \<Rightarrow> nat \<Rightarrow> bool" where
  "is_free a i = bit (bitmap a (i div 8)) (i mod 8)"

definition is_kpt :: "BitmapAllocator \<Rightarrow> nat \<Rightarrow> bool" where
  "is_kpt a i = bit (kpt a (i div 8)) (i mod 8)"

definition in_guard :: "BitmapAllocator \<Rightarrow> nat \<Rightarrow> bool" where
  "in_guard a i \<longleftrightarrow> guard_end a > guard_start a \<and> i * FRAME_SIZE \<ge> guard_start a
    \<and> i * FRAME_SIZE < guard_end a"

definition allocatable :: "BitmapAllocator \<Rightarrow> nat \<Rightarrow> bool" where
  "allocatable a i \<longleftrightarrow> i < max_valid_frame a \<and> i < max_ram_frame a \<and> \<not> is_kpt a i
    \<and> \<not> dma_reserved (dma_reserves a) i \<and> \<not> in_guard a i"

definition frames_inv :: "BitmapAllocator \<Rightarrow> bool" where
  "frames_inv a \<longleftrightarrow>
    free_frames a = count_below (is_free a) (8 * bitmap_len a) \<and>
    max_ram_frame a \<le> 8 * bitmap_len a \<and>
    next_byte a \<le> bitmap_len a \<and>
    length (dma_reserves a) = MAX_DMA_RESERVES \<and>
    (\<forall>i. is_free a i \<longrightarrow> allocatable a i)"

section \<open>Bits\<close>

lemma bit_bit_mask: "bit (bit_mask i) k \<longleftrightarrow> k = i mod 8"
  using mod_less_divisor [of 8 i] unfolding bit_mask_def by (auto simp: bit_exp_iff)

lemma and_bit_mask: "w AND bit_mask i \<noteq> 0 \<longleftrightarrow> bit w (i mod 8)"
proof
  assume "w AND bit_mask i \<noteq> 0"
  then obtain k where "bit (w AND bit_mask i) k" by (metis bit_eqI bit_0_eq bot_apply bot_bool_def)
  then show "bit w (i mod 8)" by (auto simp: bit_and_iff bit_bit_mask)
next
  assume "bit w (i mod 8)"
  then have "bit (w AND bit_mask i) (i mod 8)" by (simp add: bit_and_iff bit_bit_mask)
  then show "w AND bit_mask i \<noteq> 0" by (metis bit_0_eq bot_apply bot_bool_def)
qed

lemma div_mod_eq_iff: "i div 8 = j div 8 \<and> i mod 8 = j mod 8 \<longleftrightarrow> i = (j :: nat)"
  by (metis div_mult_mod_eq)

lemma is_free_clear [simp]: "is_free (clear_bit idx a) i \<longleftrightarrow> is_free a i \<and> i \<noteq> idx"
proof (cases "i div 8 = idx div 8")
  case True
  have "i mod 8 < 8" by simp
  then show ?thesis using True div_mod_eq_iff [of i idx]
    by (auto simp: is_free_def clear_bit_def bit_and_iff bit_not_iff bit_bit_mask)
next
  case False
  then show ?thesis by (auto simp: is_free_def clear_bit_def)
qed

lemma is_free_set [simp]:
  "is_free (snd (bitmap_set_free idx a)) i \<longleftrightarrow> is_free a i \<or> i = idx"
proof (cases "i div 8 = idx div 8")
  case True
  then show ?thesis using div_mod_eq_iff [of i idx]
    by (auto simp: is_free_def bitmap_set_free_def Let_def bit_or_iff bit_bit_mask)
next
  case False
  then show ?thesis by (auto simp: is_free_def bitmap_set_free_def Let_def)
qed

lemma bitmap_set_free_fst: "fst (bitmap_set_free idx a) \<longleftrightarrow> is_free a idx"
  by (simp add: bitmap_set_free_def Let_def is_free_def and_bit_mask)

lemma clear_bit_fields [simp]:
  "kpt (clear_bit i a) = kpt a" "bitmap_len (clear_bit i a) = bitmap_len a"
  "guard_start (clear_bit i a) = guard_start a" "guard_end (clear_bit i a) = guard_end a"
  "free_frames (clear_bit i a) = free_frames a" "next_byte (clear_bit i a) = next_byte a"
  "max_valid_frame (clear_bit i a) = max_valid_frame a"
  "max_ram_frame (clear_bit i a) = max_ram_frame a" "dma_reserves (clear_bit i a) = dma_reserves a"
  "double_frees (clear_bit i a) = double_frees a" "total_frames (clear_bit i a) = total_frames a"
  by (simp_all add: clear_bit_def)

lemma bitmap_set_free_fields [simp]:
  "kpt (snd (bitmap_set_free i a)) = kpt a" "bitmap_len (snd (bitmap_set_free i a)) = bitmap_len a"
  "guard_start (snd (bitmap_set_free i a)) = guard_start a"
  "guard_end (snd (bitmap_set_free i a)) = guard_end a"
  "free_frames (snd (bitmap_set_free i a)) = free_frames a"
  "next_byte (snd (bitmap_set_free i a)) = next_byte a"
  "max_valid_frame (snd (bitmap_set_free i a)) = max_valid_frame a"
  "max_ram_frame (snd (bitmap_set_free i a)) = max_ram_frame a"
  "dma_reserves (snd (bitmap_set_free i a)) = dma_reserves a"
  "double_frees (snd (bitmap_set_free i a)) = double_frees a"
  "total_frames (snd (bitmap_set_free i a)) = total_frames a"
  by (simp_all add: bitmap_set_free_def Let_def)

lemma is_free_fields [simp]:
  "is_free (a\<lparr>free_frames := n\<rparr>) = is_free a" "is_free (a\<lparr>next_byte := n\<rparr>) = is_free a"
  "is_free (a\<lparr>double_frees := n\<rparr>) = is_free a" "is_free (a\<lparr>dma_reserves := rs\<rparr>) = is_free a"
  "is_free (a\<lparr>kpt := k\<rparr>) = is_free a" "is_free (a\<lparr>total_frames := n\<rparr>) = is_free a"
  by (simp_all add: is_free_def fun_eq_iff)

lemma allocatable_cong:
  assumes "kpt b = kpt a" "guard_start b = guard_start a" "guard_end b = guard_end a"
    "max_valid_frame b = max_valid_frame a" "max_ram_frame b = max_ram_frame a"
    "dma_reserves b = dma_reserves a"
  shows "allocatable b = allocatable a"
  using assms by (simp add: allocatable_def is_kpt_def in_guard_def fun_eq_iff)

section \<open>The byte scan\<close>

lemma trailing_zeros_bit:
  assumes "w \<noteq> 0" shows "trailing_zeros w < 8 \<and> bit w (trailing_zeros w)"
proof (cases "scan (bit w) 0 8")
  case None
  then have "\<forall>i<8. \<not> bit w i" by (simp add: scan_None)
  then have "w = 0" by (intro bit_word_eqI) simp
  then show ?thesis using assms by simp
next
  case (Some i)
  then show ?thesis using scan_SomeD [OF Some] by (simp add: trailing_zeros_def)
qed

lemma scan_free_Some:
  assumes "scan_free (bitmap a) x y = Some idx"
  shows "is_free a idx \<and> x \<le> idx div 8 \<and> idx div 8 < y"
proof -
  obtain b where b: "scan (\<lambda>b. bitmap a b \<noteq> 0) x (y - x) = Some b"
    and idx: "idx = b * 8 + trailing_zeros (bitmap a b)"
    using assms by (auto simp: scan_free_def split: option.splits)
  note sb = scan_SomeD [OF b]
  have t: "trailing_zeros (bitmap a b) < 8 \<and> bit (bitmap a b) (trailing_zeros (bitmap a b))"
    using trailing_zeros_bit sb by blast
  then have "idx div 8 = b" "idx mod 8 = trailing_zeros (bitmap a b)" using idx by auto
  then show ?thesis using t sb by (auto simp: is_free_def)
qed

lemma scan_free_None:
  assumes "scan_free (bitmap a) x y = None" "x \<le> i div 8" "i div 8 < y"
  shows "\<not> is_free a i"
proof -
  have "scan (\<lambda>b. bitmap a b \<noteq> 0) x (y - x) = None"
    using assms(1) by (auto simp: scan_free_def split: option.splits)
  then have "bitmap a (i div 8) = 0" using assms(2,3) by (auto simp: scan_None)
  then show ?thesis by (simp add: is_free_def)
qed

lemma count_below_upd:
  "i < n \<Longrightarrow> P i \<Longrightarrow> (\<And>j. Q j \<longleftrightarrow> P j \<and> j \<noteq> i) \<Longrightarrow> Suc (count_below Q n) = count_below P n"
  using count_below_clear [of i n P] count_below_cong [of n Q "P(i := False)"] by simp

lemma count_below_add:
  "i < n \<Longrightarrow> \<not> P i \<Longrightarrow> (\<And>j. Q j \<longleftrightarrow> P j \<or> j = i) \<Longrightarrow> count_below Q n = Suc (count_below P n)"
  using count_below_set [of i n P] count_below_cong [of n Q "P(i := True)"] by auto

lemma frames_inv_bound: "frames_inv a \<Longrightarrow> is_free a i \<Longrightarrow> i < 8 * bitmap_len a"
  unfolding frames_inv_def allocatable_def by (meson less_le_trans)

section \<open>Allocation and release of one frame\<close>

text \<open>The fields that decide which frames may be handed out.\<close>

definition same_limits :: "BitmapAllocator \<Rightarrow> BitmapAllocator \<Rightarrow> bool" where
  "same_limits b a \<longleftrightarrow> kpt b = kpt a \<and> guard_start b = guard_start a \<and> guard_end b = guard_end a
    \<and> max_valid_frame b = max_valid_frame a \<and> max_ram_frame b = max_ram_frame a
    \<and> dma_reserves b = dma_reserves a \<and> bitmap_len b = bitmap_len a"

lemma same_limits_allocatable: "same_limits b a \<Longrightarrow> allocatable b = allocatable a"
  unfolding same_limits_def by (rule allocatable_cong) auto

lemma frames_inv_clear:
  assumes "frames_inv a" "is_free a idx" "same_limits b a" "next_byte b \<le> bitmap_len a"
    "free_frames b = free_frames a - 1" "\<And>i. is_free b i \<longleftrightarrow> is_free a i \<and> i \<noteq> idx"
  shows "frames_inv b \<and> Suc (free_frames b) = free_frames a"
proof -
  have c: "Suc (count_below (is_free b) (8 * bitmap_len a)) = free_frames a"
    using count_below_upd [of idx "8 * bitmap_len a" "is_free a" "is_free b"]
      frames_inv_bound [OF assms(1,2)] assms(1,2,6) by (simp add: frames_inv_def)
  then show ?thesis using assms same_limits_allocatable [OF assms(3)]
    by (auto simp: frames_inv_def same_limits_def)
qed

lemma frames_inv_set:
  assumes "frames_inv a" "\<not> is_free a idx" "allocatable a idx" "same_limits b a"
    "next_byte b \<le> bitmap_len a" "free_frames b = free_frames a + 1"
    "\<And>i. is_free b i \<longleftrightarrow> is_free a i \<or> i = idx"
  shows "frames_inv b"
proof -
  have "idx < 8 * bitmap_len a" using assms(1,3) by (auto simp: frames_inv_def allocatable_def)
  then have "count_below (is_free b) (8 * bitmap_len a) = free_frames b"
    using count_below_add [of idx "8 * bitmap_len a" "is_free a" "is_free b"] assms(1,2,6,7)
    by (simp add: frames_inv_def)
  then show ?thesis using assms same_limits_allocatable [OF assms(4)]
    by (auto simp: frames_inv_def same_limits_def)
qed

lemma alloc_found:
  assumes "frames_inv a" "is_free a idx"
    "(case scan_free (bitmap a) (next_byte a) (bitmap_len a) of Some i \<Rightarrow> Some i
      | None \<Rightarrow> scan_free (bitmap a) 0 (next_byte a)) = Some idx"
  shows "\<exists>a'. BitmapAllocator_alloc a = Some (Some (idx * FRAME_SIZE), a') \<and> frames_inv a'
    \<and> Suc (free_frames a') = free_frames a \<and> same_limits a' a
    \<and> (\<forall>i. is_free a' i \<longleftrightarrow> is_free a i \<and> i \<noteq> idx)"
proof -
  define b where "b = (clear_bit idx a)\<lparr>free_frames := free_frames a - 1,
    next_byte := min (idx div 8 + 1) (bitmap_len a - 1)\<rparr>"
  have ng: "\<not> in_guard a idx" using assms(1,2) by (auto simp: frames_inv_def allocatable_def)
  have "BitmapAllocator_alloc a = Some (Some (idx * FRAME_SIZE), b)"
    using ng unfolding BitmapAllocator_alloc_def Let_def assms(3) b_def
    by (simp add: in_guard_def)
  moreover have "same_limits b a" by (simp add: b_def same_limits_def)
  moreover have "\<And>i. is_free b i \<longleftrightarrow> is_free a i \<and> i \<noteq> idx" by (simp add: b_def)
  moreover have "next_byte b \<le> bitmap_len a" by (simp add: b_def)
  moreover have "free_frames b = free_frames a - 1" by (simp add: b_def)
  ultimately show ?thesis using frames_inv_clear [OF assms(1,2), of b] by blast
qed

lemma alloc_cases:
  assumes "frames_inv a"
  shows "(free_frames a = 0 \<and> (\<forall>i. \<not> is_free a i) \<and> BitmapAllocator_alloc a = Some (None, a)) \<or>
    (\<exists>idx a'. is_free a idx \<and> BitmapAllocator_alloc a = Some (Some (idx * FRAME_SIZE), a')
      \<and> frames_inv a' \<and> Suc (free_frames a') = free_frames a \<and> same_limits a' a
      \<and> (\<forall>i. is_free a' i \<longleftrightarrow> is_free a i \<and> i \<noteq> idx))"
proof (cases "case scan_free (bitmap a) (next_byte a) (bitmap_len a) of Some i \<Rightarrow> Some i
      | None \<Rightarrow> scan_free (bitmap a) 0 (next_byte a)")
  case None
  then have n1: "scan_free (bitmap a) (next_byte a) (bitmap_len a) = None"
    and n2: "scan_free (bitmap a) 0 (next_byte a) = None" by (auto split: option.splits)
  have nf: "\<not> is_free a i" for i
  proof
    assume h: "is_free a i"
    then have "i div 8 < bitmap_len a" using frames_inv_bound [OF assms] by fastforce
    then show False using h scan_free_None [OF n1, of i] scan_free_None [OF n2, of i]
      by (cases "i div 8 < next_byte a") auto
  qed
  then have "free_frames a = 0" using assms by (simp add: frames_inv_def count_below_pos)
  then show ?thesis using nf None by (simp add: BitmapAllocator_alloc_def)
next
  case (Some idx)
  then have "is_free a idx" by (auto split: option.splits dest: scan_free_Some)
  then show ?thesis using alloc_found [OF assms _ Some] by blast
qed

lemma free_ignored:
  "\<not> allocatable a i \<Longrightarrow> \<not> in_guard a i \<Longrightarrow> BitmapAllocator_free (i * FRAME_SIZE) a = a"
  by (auto simp: BitmapAllocator_free_def allocatable_def is_kpt_def and_bit_mask FRAME_SIZE_def
        Let_def)

lemma free_accepted:
  assumes "allocatable a i"
  shows "BitmapAllocator_free (i * FRAME_SIZE) a =
    (if is_free a i then (snd (bitmap_set_free i a))\<lparr>double_frees := double_frees a + 1\<rparr>
     else let a2 = (snd (bitmap_set_free i a))\<lparr>free_frames := free_frames a + 1\<rparr> in
       if i div 8 < next_byte a2 then a2\<lparr>next_byte := i div 8\<rparr> else a2)"
proof -
  have f: "i * FRAME_SIZE div FRAME_SIZE = i" by (simp add: FRAME_SIZE_def)
  have k: "\<not> (kpt a (i div 8) AND bit_mask i \<noteq> 0)"
    using assms by (simp add: allocatable_def is_kpt_def and_bit_mask)
  have s: "bitmap_set_free i a = (is_free a i, snd (bitmap_set_free i a))"
    by (rule prod_eqI) (simp_all add: bitmap_set_free_fst)
  show ?thesis using assms k
    unfolding BitmapAllocator_free_def Let_def f
    by (subst s) (auto simp: allocatable_def split: bool.splits)
qed

lemma free_effect:
  assumes "frames_inv a" "allocatable a i"
  defines "b \<equiv> BitmapAllocator_free (i * FRAME_SIZE) a"
  shows "frames_inv b \<and> same_limits b a \<and> (\<forall>j. is_free b j \<longleftrightarrow> is_free a j \<or> j = i)
    \<and> free_frames b = (if is_free a i then free_frames a else free_frames a + 1)
    \<and> double_frees b = (if is_free a i then double_frees a + 1 else double_frees a)"
proof (cases "is_free a i")
  case True
  then have b: "b = (snd (bitmap_set_free i a))\<lparr>double_frees := double_frees a + 1\<rparr>"
    using free_accepted [OF assms(2)] by (simp add: b_def)
  have iff: "\<And>j. is_free b j \<longleftrightarrow> is_free a j" using b True by auto
  have sl: "same_limits b a" by (simp add: b same_limits_def)
  have "count_below (is_free b) (8 * bitmap_len a) = free_frames a"
    using iff assms(1) count_below_cong [of "8 * bitmap_len a" "is_free b" "is_free a"]
    by (simp add: frames_inv_def)
  then have "frames_inv b" using assms(1) iff same_limits_allocatable [OF sl]
    by (auto simp: frames_inv_def b)
  then show ?thesis using iff sl True by (auto simp: b)
next
  case False
  then have b: "b = (let a2 = (snd (bitmap_set_free i a))\<lparr>free_frames := free_frames a + 1\<rparr> in
      if i div 8 < next_byte a2 then a2\<lparr>next_byte := i div 8\<rparr> else a2)"
    using free_accepted [OF assms(2)] by (simp add: b_def)
  have iff: "\<And>j. is_free b j \<longleftrightarrow> is_free a j \<or> j = i" by (simp add: b Let_def)
  have sl: "same_limits b a" by (simp add: b same_limits_def Let_def)
  have nb: "next_byte b \<le> bitmap_len a" using assms(1) by (simp add: b Let_def frames_inv_def)
  have ff: "free_frames b = free_frames a + 1" by (simp add: b Let_def)
  have "double_frees b = double_frees a" by (simp add: b Let_def)
  then show ?thesis using frames_inv_set [OF assms(1) False assms(2) sl nb ff iff] iff sl ff False
    by simp
qed

lemma is_free_allocatable: "frames_inv a \<Longrightarrow> is_free a i \<Longrightarrow> allocatable a i"
  by (simp add: frames_inv_def)

text \<open>The pool of frames: the live ones are those that may be handed out and are not free.\<close>

definition frame_pool_alloc :: "BitmapAllocator \<Rightarrow> (nat \<times> BitmapAllocator) option" where
  "frame_pool_alloc a =
    (case BitmapAllocator_alloc a of Some (Some p, a') \<Rightarrow> Some (p div FRAME_SIZE, a') | _ \<Rightarrow> None)"

lemma frame_pool_allocD:
  assumes "frames_inv a" "frame_pool_alloc a = Some (i, a')"
  shows "is_free a i \<and> frames_inv a' \<and> same_limits a' a \<and> (\<forall>j. is_free a' j \<longleftrightarrow> is_free a j \<and> j \<noteq> i)"
  using alloc_cases [OF assms(1)]
proof (elim disjE exE conjE)
  assume "BitmapAllocator_alloc a = Some (None, a)"
  then show ?thesis using assms(2) by (simp add: frame_pool_alloc_def)
next
  fix idx b
  assume f: "is_free a idx" "BitmapAllocator_alloc a = Some (Some (idx * FRAME_SIZE), b)"
    "frames_inv b" "same_limits b a" "\<forall>i. is_free b i \<longleftrightarrow> is_free a i \<and> i \<noteq> idx"
  have "i = idx" "a' = b" using assms(2) f(2) by (simp_all add: frame_pool_alloc_def FRAME_SIZE_def)
  then show ?thesis using f by blast
qed

interpretation frames: id_pool frames_inv "\<lambda>a. {i. allocatable a i \<and> \<not> is_free a i}"
  frame_pool_alloc "\<lambda>i. BitmapAllocator_free (i * FRAME_SIZE)"
proof
  fix a a' :: BitmapAllocator and i
  assume inv: "frames_inv a" and al: "frame_pool_alloc a = Some (i, a')"
  note d = frame_pool_allocD [OF inv al]
  show "i \<notin> {i. allocatable a i \<and> \<not> is_free a i}" using d by simp
  show "{i. allocatable a' i \<and> \<not> is_free a' i} = insert i {i. allocatable a i \<and> \<not> is_free a i}"
    using d same_limits_allocatable [of a' a] is_free_allocatable [OF inv] by auto
  show "frames_inv a'" using d by simp
next
  fix a :: BitmapAllocator and i
  assume inv: "frames_inv a" and i: "i \<in> {i. allocatable a i \<and> \<not> is_free a i}"
  then have e: "same_limits (BitmapAllocator_free (i * FRAME_SIZE) a) a"
    "\<forall>j. is_free (BitmapAllocator_free (i * FRAME_SIZE) a) j \<longleftrightarrow> is_free a j \<or> j = i"
    "frames_inv (BitmapAllocator_free (i * FRAME_SIZE) a)"
    using free_effect [OF inv, of i] by auto
  show "{j. allocatable (BitmapAllocator_free (i * FRAME_SIZE) a) j
      \<and> \<not> is_free (BitmapAllocator_free (i * FRAME_SIZE) a) j}
      = {i. allocatable a i \<and> \<not> is_free a i} - {i}"
    using e same_limits_allocatable [OF e(1)] by auto
  show "frames_inv (BitmapAllocator_free (i * FRAME_SIZE) a)" by (rule e(3))
qed

section \<open>Contiguous runs\<close>

lemma find_run_Some:
  assumes "find_run free n stop idx run start = Some s" "run < n" "run \<le> idx"
    "\<And>j. idx - run \<le> j \<Longrightarrow> j < idx \<Longrightarrow> free j" "run > 0 \<Longrightarrow> start = idx - run"
  shows "s + n \<le> stop \<and> (\<forall>j. s \<le> j \<and> j < s + n \<longrightarrow> free j)"
  using assms
proof (induction free n stop idx run start rule: find_run.induct)
  case (1 free n stop idx run start)
  have lt: "idx < stop" using "1.prems"(1) by (subst (asm) find_run.simps) (auto split: if_splits)
  show ?case
  proof (cases "free idx")
    case False
    then have "find_run free n stop (idx + 1) 0 start = Some s"
      using "1.prems"(1) lt by (subst (asm) find_run.simps) simp
    then show ?thesis using "1.IH"(2) [OF lt False] "1.prems"(2) by simp
  next
    case True
    define st where "st = (if run = 0 then idx else start)"
    have st: "st = idx - run" using "1.prems"(5) by (auto simp: st_def)
    have fr: "free j" if "idx - run \<le> j" "j < idx + 1" for j
      using that True "1.prems"(4) by (cases "j = idx") auto
    show ?thesis
    proof (cases "run + 1 = n")
      case full: True
      then have "s = st" using "1.prems"(1) lt True
        by (subst (asm) find_run.simps) (simp add: st_def)
      then show ?thesis using st fr full lt "1.prems"(3) by auto
    next
      case False
      then have "find_run free n stop (idx + 1) (run + 1) st = Some s"
        using "1.prems"(1) lt True by (subst (asm) find_run.simps) (simp add: st_def)
      then show ?thesis using "1.IH"(1) [OF lt True st_def False] fr st False "1.prems"(2,3) by simp
    qed
  qed
qed

lemma find_run_None:
  assumes "find_run free n stop idx run start = None" "run < n" "run \<le> idx"
    "idx - run \<le> s" "s + n \<le> stop"
  shows "\<exists>j. s \<le> j \<and> j < s + n \<and> \<not> free j"
  using assms
proof (induction free n stop idx run start rule: find_run.induct)
  case (1 free n stop idx run start)
  show ?case
  proof (cases "idx < stop")
    case False
    then show ?thesis using "1.prems" by linarith
  next
    case lt: True
    show ?thesis
    proof (cases "free idx")
      case False
      then have "find_run free n stop (idx + 1) 0 start = None"
        using "1.prems"(1) lt by (subst (asm) find_run.simps) simp
      then have "s \<ge> idx + 1 \<Longrightarrow> ?thesis"
        using "1.IH"(2) [OF lt False] "1.prems" by simp
      moreover have "s < idx + 1 \<Longrightarrow> ?thesis" using False "1.prems"(2-4) by (intro exI [of _ idx]) auto
      ultimately show ?thesis using not_le by blast
    next
      case True
      define st where "st = (if run = 0 then idx else start)"
      have ne: "run + 1 \<noteq> n"
        using "1.prems"(1) lt True by (subst (asm) find_run.simps) (auto split: if_splits)
      then have "find_run free n stop (idx + 1) (run + 1) st = None"
        using "1.prems"(1) lt True by (subst (asm) find_run.simps) (simp add: st_def)
      then show ?thesis using "1.IH"(1) [OF lt True st_def ne] "1.prems" ne by simp
    qed
  qed
qed

lemma fold_clear:
  "same_limits (fold clear_bit xs a) a \<and> free_frames (fold clear_bit xs a) = free_frames a
    \<and> next_byte (fold clear_bit xs a) = next_byte a
    \<and> (\<forall>i. is_free (fold clear_bit xs a) i \<longleftrightarrow> is_free a i \<and> i \<notin> set xs)"
  by (induction xs arbitrary: a) (auto simp: same_limits_def)

lemma fold_set:
  "same_limits (fold (\<lambda>i s. snd (bitmap_set_free i s)) xs a) a
    \<and> next_byte (fold (\<lambda>i s. snd (bitmap_set_free i s)) xs a) = next_byte a
    \<and> (\<forall>i. is_free (fold (\<lambda>i s. snd (bitmap_set_free i s)) xs a) i \<longleftrightarrow> is_free a i \<or> i \<in> set xs)"
  by (induction xs arbitrary: a) (auto simp: same_limits_def)

lemma count_below_diff:
  assumes "\<And>i. i \<in> S \<Longrightarrow> i < n \<and> P i" "\<And>i. Q i \<longleftrightarrow> P i \<and> i \<notin> S"
  shows "count_below Q n + card S = count_below P n"
proof -
  have fin: "finite S" by (rule finite_subset [of _ "{..<n}"]) (use assms(1) in auto)
  have "{i. i < n \<and> P i} = {i. i < n \<and> Q i} \<union> S" using assms by auto
  moreover have "{i. i < n \<and> Q i} \<inter> S = {}" using assms(2) by auto
  ultimately show ?thesis using fin by (simp add: count_below_def card_Un_disjoint)
qed

definition contiguous_free :: "BitmapAllocator \<Rightarrow> nat \<Rightarrow> nat \<Rightarrow> bool" where
  "contiguous_free a s n \<longleftrightarrow> (\<forall>j. s \<le> j \<and> j < s + n \<longrightarrow> is_free a j)"

lemma alloc_contiguous_cases:
  assumes "frames_inv a" "n > 0"
  shows "(alloc_contiguous n a = (None, a) \<and> (\<forall>s. \<not> contiguous_free a s n)) \<or>
    (\<exists>s b. alloc_contiguous n a = (Some (s * FRAME_SIZE), b) \<and> contiguous_free a s n
      \<and> frames_inv b \<and> same_limits b a \<and> next_byte b = next_byte a \<and> free_frames b + n = free_frames a
      \<and> (\<forall>i. is_free b i \<longleftrightarrow> is_free a i \<and> \<not> (s \<le> i \<and> i < s + n)))"
proof -
  define stop where "stop = min (max_valid_frame a + 1) (max_ram_frame a)"
  define r where "r = find_run (is_free a) n stop 0 0 0"
  have ac: "alloc_contiguous n a = (case r of None \<Rightarrow> (None, a) | Some s \<Rightarrow>
      (Some (s * FRAME_SIZE), (fold clear_bit [s..<s + n] a)\<lparr>free_frames := free_frames a - n\<rparr>))"
    using assms(2) by (simp add: alloc_contiguous_def r_def stop_def is_free_def [abs_def])
  show ?thesis
  proof (cases r)
    case None
    have "\<not> contiguous_free a s n" for s
    proof
      assume h: "contiguous_free a s n"
      have "is_free a (s + n - 1)" using h assms(2) by (simp add: contiguous_free_def)
      then have "s + n \<le> stop" using is_free_allocatable [OF assms(1)]
        by (fastforce simp: allocatable_def stop_def)
      then show False using find_run_None [of "is_free a" n stop 0 0 0 s] None h assms(2)
        by (auto simp: r_def contiguous_free_def)
    qed
    then show ?thesis using ac None by simp
  next
    case (Some s)
    then have run: "contiguous_free a s n"
      using find_run_Some [of "is_free a" n stop 0 0 0 s] assms(2)
      by (simp add: r_def contiguous_free_def)
    define b where "b = (fold clear_bit [s..<s + n] a)\<lparr>free_frames := free_frames a - n\<rparr>"
    have fr: "is_free b i \<longleftrightarrow> is_free a i \<and> i \<notin> {s..<s + n}" for i
      using fold_clear [of "[s..<s + n]" a] by (simp add: b_def)
    have sl: "same_limits b a" using fold_clear [of "[s..<s + n]" a]
      by (simp add: b_def same_limits_def)
    have nb: "next_byte b = next_byte a" using fold_clear [of "[s..<s + n]" a] by (simp add: b_def)
    have "count_below (is_free b) (8 * bitmap_len a) + n = free_frames a"
      using count_below_diff [of "{s..<s + n}" "8 * bitmap_len a" "is_free a" "is_free b"]
        run frames_inv_bound [OF assms(1)] fr assms(1)
      by (simp add: contiguous_free_def frames_inv_def)
    moreover have "free_frames b = free_frames a - n" by (simp add: b_def)
    ultimately have "frames_inv b \<and> free_frames b + n = free_frames a"
      using assms(1) fr sl nb same_limits_allocatable [OF sl]
      by (auto simp: frames_inv_def same_limits_def)
    then show ?thesis using ac Some run fr sl nb by (auto simp: b_def)
  qed
qed

section \<open>Reserved ranges and page-table frames\<close>

lemma dma_reserved_iff:
  "dma_reserved rs j \<longleftrightarrow> (\<exists>k<length rs. snd (rs ! k) \<noteq> 0 \<and> fst (rs ! k) \<le> j \<and> j < fst (rs ! k) + snd (rs ! k))"
  by (simp add: dma_reserved_def list_ex_length case_prod_unfold)

lemma dma_reserved_update:
  assumes "i < length rs" "snd (rs ! i) = 0"
  shows "dma_reserved (rs[i := (b, n)]) j \<longleftrightarrow> dma_reserved rs j \<or> (n \<noteq> 0 \<and> b \<le> j \<and> j < b + n)"
proof -
  have "dma_reserved (rs[i := (b, n)]) j \<longleftrightarrow>
    (n \<noteq> 0 \<and> b \<le> j \<and> j < b + n) \<or>
    (\<exists>k<length rs. k \<noteq> i \<and> snd (rs ! k) \<noteq> 0 \<and> fst (rs ! k) \<le> j \<and> j < fst (rs ! k) + snd (rs ! k))"
    unfolding dma_reserved_iff using assms(1) by (auto simp: nth_list_update)
  then show ?thesis unfolding dma_reserved_iff using assms(2) by auto
qed

text \<open>Frames withdrawn from the pool for good.\<close>

definition withdrawn :: "BitmapAllocator \<Rightarrow> nat \<Rightarrow> bool" where
  "withdrawn a i \<longleftrightarrow> is_kpt a i \<or> dma_reserved (dma_reserves a) i \<or> in_guard a i"

lemma withdrawn_not_free: "frames_inv a \<Longrightarrow> withdrawn a i \<Longrightarrow> \<not> is_free a i"
  by (auto simp: frames_inv_def allocatable_def withdrawn_def)

lemma same_limits_withdrawn: "same_limits b a \<Longrightarrow> withdrawn b = withdrawn a"
  by (simp add: same_limits_def withdrawn_def is_kpt_def in_guard_def fun_eq_iff)

lemma allocatable_reserves:
  assumes "i < length (dma_reserves a)" "snd (dma_reserves a ! i) = 0"
  shows "allocatable (a\<lparr>dma_reserves := (dma_reserves a)[i := (b, n)]\<rparr>) j \<longleftrightarrow>
    allocatable a j \<and> \<not> (n \<noteq> 0 \<and> b \<le> j \<and> j < b + n)"
  using dma_reserved_update [OF assms, of b n j]
  by (auto simp: allocatable_def is_kpt_def in_guard_def)

lemma withdrawn_reserves:
  assumes "i < length (dma_reserves a)" "snd (dma_reserves a ! i) = 0"
  shows "withdrawn (a\<lparr>dma_reserves := (dma_reserves a)[i := (b, n)]\<rparr>) j \<longleftrightarrow>
    withdrawn a j \<or> (n \<noteq> 0 \<and> b \<le> j \<and> j < b + n)"
  using dma_reserved_update [OF assms, of b n j]
  by (auto simp: withdrawn_def is_kpt_def in_guard_def)

lemma frames_inv_reserve:
  assumes "frames_inv a" "i < length (dma_reserves a)" "snd (dma_reserves a ! i) = 0"
    "\<And>j. b \<le> j \<Longrightarrow> j < b + n \<Longrightarrow> \<not> is_free a j"
  shows "frames_inv (a\<lparr>dma_reserves := (dma_reserves a)[i := (b, n)]\<rparr>)"
  using assms allocatable_reserves [OF assms(2,3)] by (auto simp: frames_inv_def)

lemma reserve_no_free_effect:
  assumes "frames_inv a" "\<And>j. phys div FRAME_SIZE \<le> j \<Longrightarrow> j < phys div FRAME_SIZE + n \<Longrightarrow> \<not> is_free a j"
    "reserve_no_free phys n a = (ok, b)"
  shows "frames_inv b \<and> is_free b = is_free a \<and> (\<forall>j. withdrawn a j \<longrightarrow> withdrawn b j)
    \<and> (ok \<longrightarrow> (\<forall>j. phys div FRAME_SIZE \<le> j \<and> j < phys div FRAME_SIZE + n \<longrightarrow> withdrawn b j))"
proof -
  let ?base = "phys div FRAME_SIZE"
  let ?cov = "list_ex (\<lambda>(b, len). len \<noteq> 0 \<and> ?base \<ge> b \<and> ?base + n \<le> b + len) (dma_reserves a)"
  have covd: "dma_reserved (dma_reserves a) j" if "?cov" "?base \<le> j" "j < ?base + n" for j
  proof -
    from that(1) obtain k where "k < length (dma_reserves a)" "snd (dma_reserves a ! k) \<noteq> 0"
      "fst (dma_reserves a ! k) \<le> ?base"
      "?base + n \<le> fst (dma_reserves a ! k) + snd (dma_reserves a ! k)"
      by (auto simp: list_ex_length case_prod_unfold)
    then show ?thesis unfolding dma_reserved_iff using that(2,3) by (intro exI [of _ k]) simp
  qed
  consider (zero) "n = 0" | (cov) "n \<noteq> 0" "?cov"
    | (full) "n \<noteq> 0" "\<not> ?cov" "find_idx (\<lambda>s. snd s = 0) (dma_reserves a) = None"
    | (slot) i where "n \<noteq> 0" "\<not> ?cov" "find_idx (\<lambda>s. snd s = 0) (dma_reserves a) = Some i"
    by (cases "find_idx (\<lambda>s. snd s = 0) (dma_reserves a)") auto
  then show ?thesis
  proof cases
    case zero then show ?thesis using assms by (auto simp: reserve_no_free_def)
  next
    case cov
    then have "ok" "b = a" using assms(3) by (simp_all add: reserve_no_free_def Let_def)
    then show ?thesis using covd cov(2) assms(1) by (auto simp: withdrawn_def)
  next
    case full
    then have "\<not> ok" "b = a" using assms(3) by (simp_all add: reserve_no_free_def Let_def)
    then show ?thesis using assms(1) by simp
  next
    case slot
    note fi = find_idx_SomeD [OF slot(3)]
    have "b = a\<lparr>dma_reserves := (dma_reserves a)[i := (?base, n)]\<rparr>"
      using assms(3) slot by (simp add: reserve_no_free_def Let_def)
    then show ?thesis
      using frames_inv_reserve [OF assms(1), of i ?base n] withdrawn_reserves [of i a ?base n]
        assms(2) fi slot(1) by auto
  qed
qed

lemma alloc_dma_arena_effect:
  assumes "frames_inv a" "alloc_dma_arena n a = (r, b)"
  shows "frames_inv b \<and> (\<forall>j. withdrawn a j \<longrightarrow> withdrawn b j) \<and>
    (case r of None \<Rightarrow> is_free b = is_free a \<and> free_frames b = free_frames a
     | Some phys \<Rightarrow> \<exists>s. phys = s * FRAME_SIZE \<and> contiguous_free a s n \<and> free_frames b + n = free_frames a
         \<and> (\<forall>j. s \<le> j \<and> j < s + n \<longrightarrow> withdrawn b j))"
proof (cases "n = 0")
  case True
  then have "r = None" "b = a" using assms(2) by (simp_all add: alloc_dma_arena_def alloc_contiguous_def)
  then show ?thesis using assms(1) by simp
next
  case False
  then have "n > 0" by simp
  from alloc_contiguous_cases [OF assms(1) this] show ?thesis
  proof (elim disjE exE conjE)
    assume "alloc_contiguous n a = (None, a)"
    then have "r = None" "b = a" using assms(2) by (simp_all add: alloc_dma_arena_def)
    then show ?thesis using assms(1) by simp
  next
    fix s c
    assume ac: "alloc_contiguous n a = (Some (s * FRAME_SIZE), c)" and run: "contiguous_free a s n"
      and inv: "frames_inv c" and sl: "same_limits c a" and nb: "next_byte c = next_byte a"
      and ff: "free_frames c + n = free_frames a"
      and fr: "\<forall>i. is_free c i \<longleftrightarrow> is_free a i \<and> \<not> (s \<le> i \<and> i < s + n)"
    have base: "s * FRAME_SIZE div FRAME_SIZE = s" by (simp add: FRAME_SIZE_def)
    show ?thesis
    proof (cases "find_idx (\<lambda>s. snd s = 0) (dma_reserves c)")
      case (Some i)
      note fi = find_idx_SomeD [OF Some]
      have rb: "r = Some (s * FRAME_SIZE)" "b = c\<lparr>dma_reserves := (dma_reserves c)[i := (s, n)]\<rparr>"
        using assms(2) ac Some base by (auto simp: alloc_dma_arena_def Let_def)
      have nf: "\<not> is_free c j" if "s \<le> j" "j < s + n" for j using fr that by blast
      show ?thesis
        using frames_inv_reserve [OF inv, of i s n] withdrawn_reserves [of i c s n] fi nf ff run
          same_limits_withdrawn [OF sl] False by (auto simp: rb)
    next
      case None
      define d where "d = (fold (\<lambda>i s. snd (bitmap_set_free i s)) [s..<s + n] c)
        \<lparr>free_frames := free_frames c + n\<rparr>"
      have rb: "r = None" "b = d"
        using assms(2) ac None base by (auto simp: alloc_dma_arena_def Let_def d_def)
      have sld: "same_limits d a" "next_byte d = next_byte a"
        using fold_set [of "[s..<s + n]" c] sl nb by (simp_all add: d_def same_limits_def)
      have "is_free d i = is_free a i" for i
        using fold_set [of "[s..<s + n]" c] fr run by (auto simp: d_def contiguous_free_def)
      then have frd: "is_free d = is_free a" by (rule ext)
      have ffd: "free_frames d = free_frames a" using ff by (simp add: d_def)
      have "frames_inv d" using assms(1) frd ffd sld same_limits_allocatable [OF sld(1)]
        by (simp add: frames_inv_def same_limits_def)
      then show ?thesis using rb frd ffd same_limits_withdrawn [OF sld(1)] by simp
    qed
  qed
qed

lemma is_kpt_set:
  "bit ((k(idx div 8 := k (idx div 8) OR bit_mask idx)) (i div 8)) (i mod 8)
    \<longleftrightarrow> bit (k (i div 8)) (i mod 8) \<or> i = idx"
proof (cases "i div 8 = idx div 8")
  case True
  then show ?thesis using div_mod_eq_iff [of i idx] by (auto simp: bit_or_iff bit_bit_mask)
next
  case False
  then show ?thesis by auto
qed

lemma mark_pt_frame_used_effect:
  fixes phys :: u64
  assumes "frames_inv a"
  defines "idx \<equiv> unat (phys div frame_size64)" and "b \<equiv> mark_pt_frame_used phys a"
  shows "frames_inv b \<and> (\<forall>j. withdrawn a j \<longrightarrow> withdrawn b j)
    \<and> (idx < max_ram_frame a \<longrightarrow> withdrawn b idx) \<and> max_ram_frame b = max_ram_frame a"
proof (cases "idx < max_ram_frame a")
  case False
  then have "b = a" by (simp add: b_def mark_pt_frame_used_def idx_def)
  then show ?thesis using assms(1) False by simp
next
  case True
  define c where "c = (if is_free a idx then (clear_bit idx a)\<lparr>free_frames := free_frames a - 1\<rparr> else a)"
  have b: "b = c\<lparr>kpt := (kpt c)(idx div 8 := kpt c (idx div 8) OR bit_mask idx)\<rparr>"
    using True unfolding b_def mark_pt_frame_used_def Let_def idx_def [symmetric] c_def
    by (simp add: and_bit_mask is_free_def)
  have sl: "same_limits c a" by (simp add: c_def same_limits_def)
  have fr: "is_free c i \<longleftrightarrow> is_free a i \<and> i \<noteq> idx" for i by (auto simp: c_def)
  have inv: "frames_inv c"
  proof (cases "is_free a idx")
    case t: True
    have "next_byte c \<le> bitmap_len a" using assms(1) by (simp add: c_def frames_inv_def)
    moreover have "free_frames c = free_frames a - 1" using t by (simp add: c_def)
    ultimately show ?thesis using frames_inv_clear [OF assms(1) t sl _ _ fr] by blast
  qed (simp add: c_def assms(1))
  have k: "is_kpt b i \<longleftrightarrow> is_kpt a i \<or> i = idx" for i
    using is_kpt_set [of "kpt c" idx i] sl
    by (simp add: b is_kpt_def same_limits_def del: fun_upd_apply)
  have "allocatable b i" if "is_free c i" for i
    using inv fr that k [of i] sl
    by (auto simp: b allocatable_def frames_inv_def in_guard_def same_limits_def is_kpt_def
        simp del: fun_upd_apply)
  then have "frames_inv b" using inv by (simp add: frames_inv_def b)
  moreover have "withdrawn b j \<longleftrightarrow> withdrawn a j \<or> j = idx" for j
    using k sl by (auto simp: withdrawn_def in_guard_def b same_limits_def)
  ultimately show ?thesis using sl by (simp add: b same_limits_def)
qed

section \<open>The allocator as a state machine\<close>

text \<open>Every call the kernel makes into the allocator. A frame given back is not part of the kernel
  image, and a range is reserved while none of its frames is in the pool, as for the framebuffer,
  which is device memory.\<close>

inductive frame_step :: "BitmapAllocator \<Rightarrow> BitmapAllocator \<Rightarrow> bool" where
  step_alloc: "BitmapAllocator_alloc a = Some (r, b) \<Longrightarrow> frame_step a b"
| step_free: "\<not> in_guard a (phys div FRAME_SIZE) \<Longrightarrow> frame_step a (BitmapAllocator_free phys a)"
| step_contiguous: "alloc_contiguous n a = (r, b) \<Longrightarrow> frame_step a b"
| step_dma: "alloc_dma_arena n a = (r, b) \<Longrightarrow> frame_step a b"
| step_reserve: "(\<And>j. phys div FRAME_SIZE \<le> j \<Longrightarrow> j < phys div FRAME_SIZE + n \<Longrightarrow> \<not> is_free a j) \<Longrightarrow>
    reserve_no_free phys n a = (ok, b) \<Longrightarrow> frame_step a b"
| step_mark: "frame_step a (mark_pt_frame_used w a)"

lemma free_page: "BitmapAllocator_free phys a = BitmapAllocator_free (phys div FRAME_SIZE * FRAME_SIZE) a"
  unfolding BitmapAllocator_free_def by (simp add: FRAME_SIZE_def)

lemma frame_step_keeps:
  assumes "frame_step a b" "frames_inv a"
  shows "frames_inv b \<and> (\<forall>j. withdrawn a j \<longrightarrow> withdrawn b j)"
  using assms
proof (induction rule: frame_step.induct)
  case (step_alloc a r b)
  from alloc_cases [OF step_alloc(2)] show ?case
  proof (elim disjE exE conjE)
    assume "BitmapAllocator_alloc a = Some (None, a)"
    then show ?thesis using step_alloc by simp
  next
    fix idx c
    assume "BitmapAllocator_alloc a = Some (Some (idx * FRAME_SIZE), c)" "frames_inv c" "same_limits c a"
    then show ?thesis using step_alloc(1) same_limits_withdrawn [of c a] by simp
  qed
next
  case (step_free a phys)
  show ?case
  proof (cases "allocatable a (phys div FRAME_SIZE)")
    case True
    show ?thesis using free_effect [OF step_free(2) True] same_limits_withdrawn
      by (subst (1 2) free_page) auto
  next
    case False
    then show ?thesis using free_ignored [OF False step_free(1)] step_free(2)
      by (subst (1 2) free_page) simp
  qed
next
  case (step_contiguous n a r b)
  show ?case
  proof (cases "n = 0")
    case True then show ?thesis using step_contiguous by (simp add: alloc_contiguous_def)
  next
    case False
    then have "n > 0" by simp
    from alloc_contiguous_cases [OF step_contiguous(2) this] show ?thesis
    proof (elim disjE exE conjE)
      assume "alloc_contiguous n a = (None, a)"
      then show ?thesis using step_contiguous by simp
    next
      fix s c
      assume "alloc_contiguous n a = (Some (s * FRAME_SIZE), c)" "frames_inv c" "same_limits c a"
      then show ?thesis using step_contiguous(1) same_limits_withdrawn [of c a] by simp
    qed
  qed
next
  case (step_dma n a r b)
  then show ?case using alloc_dma_arena_effect [OF step_dma(2,1)] by blast
next
  case (step_reserve phys n a ok b)
  then show ?case using reserve_no_free_effect [OF step_reserve(3,1,2)] by blast
next
  case (step_mark a w)
  then show ?case using mark_pt_frame_used_effect [OF step_mark] by blast
qed

interpretation frame_runs: inv_system frame_step frames_inv
  by unfold_locales (use frame_step_keeps in blast)

lemma frame_runs_withdrawn:
  assumes "frame_step\<^sup>*\<^sup>* a b" "frames_inv a" "withdrawn a i" shows "withdrawn b i"
  using frame_runs.run_mono [OF assms(1,2), of "\<lambda>s. withdrawn s i"] frame_step_keeps assms(3)
  by (auto simp: le_bool_def)

end
