(* ===== verification/Frame_Init.thy ===== *)
theory Frame_Init
  imports Frame_Alloc_Props
begin

text \<open>
  What the frame allocator looks like after boot: \<open>init_from_map\<close> opens exactly the whole usable
  frames outside the kernel image and the bitmaps' own storage, and
  \<open>protect_kernel_page_table_frames\<close> withdraws every table reachable from the kernel half of the
  live page table. Also the allocator's headline properties.
\<close>

unbundle bit_operations_syntax

section \<open>Alignment\<close>

lemma unat_frame_size64: "unat frame_size64 = 4096"
  by (simp add: frame_size64_def FRAME_SIZE_def)

lemma unat_div_frame: "unat (w div frame_size64) = unat w div 4096"
  by (simp add: unat_div unat_frame_size64)

lemma unat_align_down: "unat (frame_align_down w) = unat w div 4096 * 4096"
  using unat_page_down [of w] by (simp add: frame_align_down_def FRAME_SIZE_def)

lemma align_up_down: "frame_align_up w = frame_align_down (w + 4095)"
  by (simp add: frame_align_up_def frame_align_down_def FRAME_SIZE_def add.commute)

definition region_ok :: "MemoryRegion \<Rightarrow> bool" where
  "region_ok r \<longleftrightarrow> unat (region_base r) + unat (region_len r) + 4095 < 2 ^ 64"

lemma unat_align_up:
  assumes "unat w + 4095 < 2 ^ 64"
  shows "unat (frame_align_up w) = (unat w + 4095) div 4096 * 4096"
proof -
  have "unat (w + 4095) = unat w + 4095" using assms by (simp add: unat_word_ariths)
  then show ?thesis by (simp add: align_up_down unat_align_down)
qed


lemma ceil_frames: "(b + 4095) div 4096 \<le> i \<longleftrightarrow> b \<le> i * (4096 :: nat)"
  by linarith

lemma floor_frames: "i < x div 4096 \<longleftrightarrow> (i + 1) * 4096 \<le> (x :: nat)"
  using less_eq_div_iff_mult_less_eq [of 4096 "i + 1" x] by (simp add: Suc_le_eq)

lemma usable_frames_mem:
  assumes "region_ok r"
  shows "i \<in> set (usable_frames r) \<longleftrightarrow> region_kind r = Usable
    \<and> unat (region_base r) \<le> i * 4096 \<and> (i + 1) * 4096 \<le> unat (region_base r) + unat (region_len r)"
proof -
  let ?b = "unat (region_base r)" and ?l = "unat (region_len r)"
  have sum: "unat (region_base r + region_len r) = ?b + ?l"
    using assms by (simp add: region_ok_def unat_word_ariths)
  have up: "unat (frame_align_up (region_base r)) = (?b + 4095) div 4096 * 4096"
    using assms by (intro unat_align_up) (simp add: region_ok_def)
  have down: "unat (frame_align_down (region_base r + region_len r)) = (?b + ?l) div 4096 * 4096"
    by (simp add: unat_align_down sum)
  have "(frame_align_up (region_base r) \<ge> frame_align_down (region_base r + region_len r)) \<longleftrightarrow>
      (?b + ?l) div 4096 \<le> (?b + 4095) div 4096"
    by (simp add: word_le_nat_alt up down)
  then have "i \<in> set (usable_frames r) \<longleftrightarrow> region_kind r = Usable
      \<and> (?b + 4095) div 4096 \<le> i \<and> i < (?b + ?l) div 4096"
    by (auto simp: usable_frames_def Let_def unat_div_frame up down)
  then show ?thesis by (simp only: ceil_frames floor_frames)
qed


section \<open>Pass 1\<close>

definition ram_region :: "MemoryRegion \<Rightarrow> bool" where
  "ram_region r \<longleftrightarrow> region_kind r \<in> {Usable, AcpiReclaimable, KernelImage, BootloaderReclaimable}"

definition largest_from :: "MemoryRegion set \<Rightarrow> u64 \<Rightarrow> u64 \<Rightarrow> bool" where
  "largest_from R ls ll \<longleftrightarrow> ls = 0 \<and> ll = 0 \<or>
    (\<exists>r\<in>R. region_kind r = Usable \<and> ls = frame_align_up (region_base r)
      \<and> ll = frame_align_down (region_base r + region_len r) - ls
      \<and> ls < frame_align_down (region_base r + region_len r))"

definition measured :: "MemoryRegion set \<Rightarrow> BitmapAllocator \<times> u64 \<times> u64 \<Rightarrow> bool" where
  "measured R st \<longleftrightarrow> (case st of (a, ls, ll) \<Rightarrow>
    (\<forall>r\<in>R. \<forall>i\<in>set (usable_frames r). i < max_valid_frame a \<and> i < max_ram_frame a) \<and>
    free_frames a = 0 \<and> next_byte a = 0 \<and> dma_reserves a = replicate MAX_DMA_RESERVES (0, 0) \<and>
    largest_from R ls ll)"

lemma usable_frames_ram:
  assumes "region_ok r" "i \<in> set (usable_frames r)"
  shows "i < unat ((region_base r + region_len r + frame_size64 - 1) div frame_size64)"
    "i < unat (frame_align_down (region_base r + region_len r) div frame_size64)"
proof -
  let ?n = "unat (region_base r) + unat (region_len r)"
  have n: "(i + 1) * 4096 \<le> ?n" using usable_frames_mem [OF assms(1)] assms(2) by blast
  have sum: "unat (region_base r + region_len r) = ?n"
    using assms(1) by (simp add: region_ok_def unat_word_ariths)
  have "region_base r + region_len r + frame_size64 - 1 = (region_base r + region_len r) + 4095"
    by (simp add: frame_size64_def FRAME_SIZE_def)
  moreover have "unat (region_base r + region_len r + 4095) = ?n + 4095"
    using assms(1) sum by (simp add: region_ok_def unat_word_ariths)
  ultimately have "unat ((region_base r + region_len r + frame_size64 - 1) div frame_size64)
      = (?n + 4095) div 4096" by (simp only: unat_div_frame)
  then show "i < unat ((region_base r + region_len r + frame_size64 - 1) div frame_size64)"
    using n by (simp add: floor_frames)
  show "i < unat (frame_align_down (region_base r + region_len r) div frame_size64)"
    using n by (simp add: unat_div_frame unat_align_down sum floor_frames)
qed

lemma measure_region_measured:
  assumes "measured R st" "region_ok r"
  shows "measured (insert r R) (measure_region r st)"
proof -
  obtain a ls ll where st: "st = (a, ls, ll)" by (cases st)
  define stop where "stop = frame_align_down (region_base r + region_len r)"
  define start where "start = frame_align_up (region_base r)"
  obtain a' ls' ll' where m: "measure_region r st = (a', ls', ll')" by (cases "measure_region r st")
  have mono: "max_valid_frame a \<le> max_valid_frame a'" "max_ram_frame a \<le> max_ram_frame a'"
    and same: "free_frames a' = free_frames a" "next_byte a' = next_byte a"
      "dma_reserves a' = dma_reserves a"
    using m by (auto simp: measure_region_def st Let_def split: if_splits)
  have new: "i < max_valid_frame a' \<and> i < max_ram_frame a'" if "i \<in> set (usable_frames r)" for i
  proof -
    have "region_kind r = Usable" "start < stop"
      using that by (auto simp: usable_frames_def Let_def start_def stop_def not_le split: if_splits)
    then have "max_valid_frame a' \<ge> unat (stop div frame_size64)"
      "max_ram_frame a' \<ge> unat ((region_base r + region_len r + frame_size64 - 1) div frame_size64)"
      using m by (auto simp: measure_region_def st Let_def start_def stop_def not_less split: if_splits)
    then show ?thesis using usable_frames_ram [OF assms(2) that] by (simp add: stop_def)
  qed
  have "ls' = ls \<and> ll' = ll \<or> region_kind r = Usable \<and> ls' = start \<and> ll' = stop - start \<and> start < stop"
    using m by (auto simp: measure_region_def st Let_def start_def stop_def not_le split: if_splits)
  moreover have "largest_from R ls ll" using assms(1) by (simp add: measured_def st)
  ultimately have l: "largest_from (insert r R) ls' ll'"
    unfolding largest_from_def start_def stop_def by blast
  have "\<forall>q\<in>insert r R. \<forall>i\<in>set (usable_frames q). i < max_valid_frame a' \<and> i < max_ram_frame a'"
    using assms(1) mono new by (fastforce simp: measured_def st)
  then show ?thesis using assms(1) same l unfolding measured_def m by (simp add: st)
qed

lemma fold_measure:
  assumes "measured R st" "\<forall>r\<in>set rs. region_ok r"
  shows "measured (R \<union> set rs) (fold measure_region rs st)"
  using assms
proof (induction rs arbitrary: R st)
  case (Cons r rs)
  then show ?case using Cons.IH [of "insert r R" "measure_region r st"]
      measure_region_measured [of R st r] by simp
qed simp

lemma fold_measure_guard:
  "guard_start (fst (fold measure_region rs st)) = guard_start (fst st)
    \<and> guard_end (fst (fold measure_region rs st)) = guard_end (fst st)"
proof (induction rs arbitrary: st)
  case (Cons r rs)
  have "guard_start (fst (measure_region r st)) = guard_start (fst st)
    \<and> guard_end (fst (measure_region r st)) = guard_end (fst st)"
    by (cases st) (simp add: measure_region_def Let_def)
  then show ?case using Cons.IH [of "measure_region r st"] by simp
qed simp

section \<open>Pass 2\<close>

definition opens :: "u64 \<Rightarrow> u64 \<Rightarrow> nat \<Rightarrow> nat \<Rightarrow> nat \<Rightarrow> bool" where
  "opens ks ke cf cl i \<longleftrightarrow>
    \<not> (ke > ks \<and> i * FRAME_SIZE \<ge> unat ks \<and> i * FRAME_SIZE < unat ke) \<and> \<not> (cf \<le> i \<and> i < cl)"

lemma fold_open:
  fixes ks ke :: u64 and cf cl :: nat
  assumes "distinct xs" "\<forall>i\<in>set xs. i < max_ram_frame a \<and> \<not> is_free a i"
  defines "b \<equiv> fold (open_frame ks ke cf cl) xs a"
  shows "same_limits b a \<and> next_byte b = next_byte a
    \<and> (\<forall>i. is_free b i \<longleftrightarrow> is_free a i \<or> i \<in> set xs \<and> opens ks ke cf cl i)
    \<and> free_frames b = free_frames a + card {i \<in> set xs. opens ks ke cf cl i}"
  using assms(1,2) unfolding b_def
proof (induction xs arbitrary: a)
  case (Cons x xs)
  define c where "c = open_frame ks ke cf cl x a"
  have x: "x < max_ram_frame a" "\<not> is_free a x" "x \<notin> set xs" using Cons.prems by auto
  have c: "c = (if opens ks ke cf cl x
      then (snd (bitmap_set_free x a))\<lparr>free_frames := free_frames a + 1\<rparr> else a)"
    using x(1) by (auto simp: c_def open_frame_def opens_def Let_def)
  have lim: "same_limits c a" "next_byte c = next_byte a" by (simp_all add: c same_limits_def)
  have fr: "is_free c i \<longleftrightarrow> is_free a i \<or> i = x \<and> opens ks ke cf cl i" for i by (auto simp: c)
  have ff: "free_frames c = free_frames a + (if opens ks ke cf cl x then 1 else 0)" by (simp add: c)
  have pre: "\<forall>i\<in>set xs. i < max_ram_frame c \<and> \<not> is_free c i"
    using Cons.prems lim(1) fr x(3) by (auto simp: same_limits_def)
  have set: "{i \<in> set (x # xs). opens ks ke cf cl i} =
      (if opens ks ke cf cl x then insert x {i \<in> set xs. opens ks ke cf cl i}
       else {i \<in> set xs. opens ks ke cf cl i})" by auto
  have card: "card {i \<in> set (x # xs). opens ks ke cf cl i} =
      (if opens ks ke cf cl x then 1 else 0) + card {i \<in> set xs. opens ks ke cf cl i}"
    unfolding set using x(3) by simp
  show ?case using Cons.IH [of c] Cons.prems(1) pre lim fr ff
    unfolding card by (auto simp: c_def [symmetric] same_limits_def)
qed (simp add: same_limits_def)

lemma fold_concat: "fold (\<lambda>r. fold f (g r)) rs a = fold f (concat (map g rs)) a"
  by (induction rs arbitrary: a) simp_all


section \<open>The allocator after boot\<close>

definition map_ok :: "BootInfo \<Rightarrow> bool" where
  "map_ok info \<longleftrightarrow> (\<forall>r\<in>set (memory_map info). region_ok r)
    \<and> distinct (concat (map usable_frames (memory_map info)))"

definition usable_frame :: "BootInfo \<Rightarrow> nat \<Rightarrow> bool" where
  "usable_frame info i \<longleftrightarrow> (\<exists>r\<in>set (memory_map info). region_kind r = Usable
    \<and> unat (region_base r) \<le> i * FRAME_SIZE
    \<and> (i + 1) * FRAME_SIZE \<le> unat (region_base r) + unat (region_len r))"

lemma usable_frame_mem:
  "map_ok info \<Longrightarrow> usable_frame info i \<longleftrightarrow> i \<in> set (concat (map usable_frames (memory_map info)))"
  by (auto simp: usable_frame_def map_ok_def usable_frames_mem FRAME_SIZE_def)

lemma carve_in_region:
  assumes "r \<in> set (memory_map info)" "region_kind r = Usable" "map_ok info"
    "ls = frame_align_up (region_base r)" "ls < frame_align_down (region_base r + region_len r)"
    "ll = frame_align_down (region_base r + region_len r) - ls"
    "unat (ll div frame_size64) \<ge> n" "carve_range n ls ll = (cf, cl)"
  shows "cf + n = cl" "cf \<le> i \<Longrightarrow> i < cl \<Longrightarrow> usable_frame info i"
proof -
  have cl: "cl = unat ((ls + ll) div frame_size64)" and cf: "cf = cl - n"
    using assms(8) by (auto simp: carve_range_def Let_def)
  define stop where "stop = frame_align_down (region_base r + region_len r)"
  have sl: "unat ls \<le> unat stop" using assms(5) by (simp add: stop_def word_less_nat_alt)
  have ll: "unat ll = unat stop - unat ls" using sl assms(6) by (simp add: stop_def unat_sub_if_size)
  have ok: "region_ok r" using assms(1,3) by (simp add: map_ok_def)
  have lsv: "unat ls = (unat (region_base r) + 4095) div 4096 * 4096"
    using ok unfolding assms(4) by (intro unat_align_up) (simp add: region_ok_def)
  have stv: "unat stop = unat (region_base r + region_len r) div 4096 * 4096"
    by (simp add: stop_def unat_align_down)
  have "ls + ll = stop" using assms(6) by (simp add: stop_def)
  then have clv: "cl = unat stop div 4096" using cl by (simp add: unat_div_frame)
  have "unat ll div 4096 = unat stop div 4096 - unat ls div 4096"
    unfolding ll lsv stv by (simp flip: diff_mult_distrib)
  then have n: "n \<le> cl - unat ls div 4096" using assms(7) clv by (simp add: unat_div_frame)
  have le: "unat ls div 4096 \<le> cl" using clv sl by (simp add: div_le_mono)
  then show "cf + n = cl" using n cf by simp
  show "usable_frame info i" if "cf \<le> i" "i < cl"
  proof -
    have "unat ls div 4096 \<le> i" using n cf that(1) le by linarith
    then have "i \<in> set (usable_frames r)"
      using assms(2,4,5) that(2) clv
      by (auto simp: usable_frames_def Let_def unat_div_frame stop_def not_le)
    then show ?thesis using usable_frame_mem [OF assms(3)] assms(1) by auto
  qed
qed

lemma carve_ok:
  assumes "largest_from (set (memory_map info)) ls ll" "map_ok info"
    "unat (ll div frame_size64) \<ge> n" "carve_range n ls ll = (cf, cl)"
  shows "cf + n = cl" "cf \<le> i \<Longrightarrow> i < cl \<Longrightarrow> usable_frame info i"
proof -
  have "cf + n = cl \<and> (cf \<le> i \<longrightarrow> i < cl \<longrightarrow> usable_frame info i)"
  proof (cases "ls = 0 \<and> ll = 0")
    case True
    then show ?thesis using assms(3,4) by (auto simp: carve_range_def unat_div_frame)
  next
    case False
    then obtain r where "r \<in> set (memory_map info)" "region_kind r = Usable"
      "ls = frame_align_up (region_base r)" "ls < frame_align_down (region_base r + region_len r)"
      "ll = frame_align_down (region_base r + region_len r) - ls"
      using assms(1) unfolding largest_from_def by blast
    from carve_in_region [OF this(1,2) assms(2) this(3-5) assms(3,4)] show ?thesis by blast
  qed
  then show "cf + n = cl" "cf \<le> i \<Longrightarrow> i < cl \<Longrightarrow> usable_frame info i" by blast+
qed

text \<open>The state between the passes, and after pass 2.\<close>

definition blank_maps :: "BitmapAllocator \<Rightarrow> BitmapAllocator" where
  "blank_maps a = a\<lparr>bitmap := (\<lambda>_. 0), kpt := (\<lambda>_. 0), bitmap_len := (max_ram_frame a + 7) div 8\<rparr>"

definition bitmap_frames :: "nat \<Rightarrow> nat" where
  "bitmap_frames len = (2 * len + FRAME_SIZE - 1) div FRAME_SIZE"

definition guarded :: "BootInfo \<Rightarrow> BitmapAllocator" where
  "guarded info = BitmapAllocator_new\<lparr>guard_start := unat (kernel_phys_start info),
     guard_end := unat (kernel_phys_end info)\<rparr>"

lemma bitmap_frames_enough: "2 * len \<le> bitmap_frames len * FRAME_SIZE"
  unfolding bitmap_frames_def FRAME_SIZE_def by linarith

lemma allocator_initD:
  assumes "allocator_init identity info = Some a"
  shows "\<exists>a1 ls ll cf cl a3. fold measure_region (memory_map info) (guarded info, 0, 0) = (a1, ls, ll)
    \<and> bitmap_frames ((max_ram_frame a1 + 7) div 8) \<le> unat (ll div frame_size64)
    \<and> carve_range (bitmap_frames ((max_ram_frame a1 + 7) div 8)) ls ll = (cf, cl)
    \<and> a3 = fold (open_frame (kernel_phys_start info) (kernel_phys_end info) cf cl)
             (concat (map usable_frames (memory_map info))) (blank_maps a1)
    \<and> a = a3\<lparr>total_frames := free_frames a3\<rparr>"
  using assms
  unfolding allocator_init_def init_from_map_def guarded_def [symmetric] bitmap_frames_def
    blank_maps_def fold_concat Let_def
  by (auto split: prod.splits if_splits simp: not_less)

lemma pass2_effect:
  assumes "measured (set (memory_map info)) (a1, ls, ll)" "map_ok info"
    and "a3 = fold (open_frame ks ke cf cl) (concat (map usable_frames (memory_map info))) (blank_maps a1)"
  shows "same_limits a3 (blank_maps a1)" "next_byte a3 = 0"
    "is_free a3 i \<longleftrightarrow> usable_frame info i \<and> opens ks ke cf cl i"
    "free_frames a3 = card {i. is_free a3 i}"
    "usable_frame info i \<Longrightarrow> i < max_valid_frame a1 \<and> i < max_ram_frame a1"
proof -
  let ?xs = "concat (map usable_frames (memory_map info))"
  have lim: "i < max_valid_frame a1 \<and> i < max_ram_frame a1" if "i \<in> set ?xs" for i
    using assms(1) that by (auto simp: measured_def)
  have nofree: "\<not> is_free (blank_maps a1) i" for i by (simp add: is_free_def blank_maps_def)
  have z: "next_byte a1 = 0" "free_frames a1 = 0" using assms(1) by (simp_all add: measured_def)
  have d: "distinct ?xs" using assms(2) by (simp add: map_ok_def)
  have "\<forall>i\<in>set ?xs. i < max_ram_frame (blank_maps a1) \<and> \<not> is_free (blank_maps a1) i"
    using lim nofree by (simp add: blank_maps_def)
  note o = fold_open [OF d this, where ks = ks and ke = ke and cf = cf and cl = cl,
      folded assms(3)]
  have fr: "is_free a3 j \<longleftrightarrow> j \<in> set ?xs \<and> opens ks ke cf cl j" for j
    using o nofree by blast
  show "same_limits a3 (blank_maps a1)" "next_byte a3 = 0" using o z by (simp_all add: blank_maps_def)
  show "is_free a3 i \<longleftrightarrow> usable_frame info i \<and> opens ks ke cf cl i"
    using fr usable_frame_mem [OF assms(2)] by simp
  show "free_frames a3 = card {i. is_free a3 i}" using o z fr by (simp add: blank_maps_def)
  show "usable_frame info i \<Longrightarrow> i < max_valid_frame a1 \<and> i < max_ram_frame a1"
    using lim usable_frame_mem [OF assms(2)] by blast
qed

lemma init_from_map_effect:
  assumes "allocator_init identity info = Some a" "map_ok info"
  shows "\<exists>cf cl. frames_inv a \<and> total_frames a = free_frames a
    \<and> (\<forall>i. cf \<le> i \<and> i < cl \<longrightarrow> usable_frame info i) \<and> 2 * bitmap_len a \<le> (cl - cf) * FRAME_SIZE
    \<and> (\<forall>i. is_free a i \<longleftrightarrow> usable_frame info i \<and> \<not> in_guard a i \<and> \<not> (cf \<le> i \<and> i < cl))"
proof -
  let ?ks = "kernel_phys_start info" and ?ke = "kernel_phys_end info"
  obtain a1 ls ll cf cl a3 where m: "fold measure_region (memory_map info) (guarded info, 0, 0) = (a1, ls, ll)"
    and big: "bitmap_frames ((max_ram_frame a1 + 7) div 8) \<le> unat (ll div frame_size64)"
    and c: "carve_range (bitmap_frames ((max_ram_frame a1 + 7) div 8)) ls ll = (cf, cl)"
    and a3: "a3 = fold (open_frame ?ks ?ke cf cl) (concat (map usable_frames (memory_map info)))
      (blank_maps a1)"
    and a: "a = a3\<lparr>total_frames := free_frames a3\<rparr>"
    using allocator_initD [OF assms(1)] by blast
  have "measured {} (guarded info, 0, 0)"
    by (simp add: measured_def largest_from_def guarded_def BitmapAllocator_new_def)
  then have meas: "measured (set (memory_map info)) (a1, ls, ll)"
    using fold_measure [of "{}" "(guarded info, 0, 0)" "memory_map info"] assms(2) m
    by (simp add: map_ok_def)
  have g: "guard_start a1 = unat ?ks" "guard_end a1 = unat ?ke"
    using fold_measure_guard [of "memory_map info" "(guarded info, 0, 0)"] m
    by (simp_all add: guarded_def)
  note p = pass2_effect [OF meas assms(2) a3]
  have ig: "in_guard a i \<longleftrightarrow> ?ke > ?ks \<and> i * FRAME_SIZE \<ge> unat ?ks \<and> i * FRAME_SIZE < unat ?ke" for i
    using p(1) g by (simp add: a in_guard_def same_limits_def blank_maps_def word_less_nat_alt)
  have fr: "is_free a i \<longleftrightarrow> usable_frame info i \<and> \<not> in_guard a i \<and> \<not> (cf \<le> i \<and> i < cl)" for i
    unfolding ig using p(3) [of i] by (auto simp: a opens_def)
  have len: "bitmap_len a = (max_ram_frame a1 + 7) div 8"
    using p(1) by (simp add: a same_limits_def blank_maps_def)
  then have len8: "max_ram_frame a1 \<le> 8 * bitmap_len a" by linarith
  have "allocatable a i" if "is_free a i" for i
    using p(5) [of i] fr [of i] that p(1) meas
    by (auto simp: a allocatable_def same_limits_def blank_maps_def is_kpt_def measured_def
        dma_reserved_def list_ex_iff in_guard_def)
  moreover have "free_frames a = count_below (is_free a) (8 * bitmap_len a)"
  proof -
    have "i < 8 * bitmap_len a" if "is_free a3 i" for i
      using p(3) [of i] p(5) [of i] len8 that by linarith
    then have "{i. is_free a3 i} = {i. i < 8 * bitmap_len a \<and> is_free a3 i}" by blast
    then show ?thesis using p(4) by (simp add: a count_below_def)
  qed
  moreover have "next_byte a = 0" "max_ram_frame a = max_ram_frame a1"
    "length (dma_reserves a) = MAX_DMA_RESERVES"
    using p(1,2) meas by (simp_all add: a same_limits_def blank_maps_def measured_def)
  ultimately have inv: "frames_inv a" using len8 unfolding frames_inv_def by simp
  have lf: "largest_from (set (memory_map info)) ls ll" using meas by (simp add: measured_def)
  note carve = carve_ok [OF lf assms(2) big c]
  have "2 * bitmap_len a \<le> (cl - cf) * FRAME_SIZE"
    using bitmap_frames_enough [of "bitmap_len a"] carve(1) len by (metis diff_add_inverse)
  then show ?thesis using inv fr carve(2)
    by (intro exI [of _ cf] exI [of _ cl]) (simp add: a)
qed

section \<open>The walk over the kernel half of the page table\<close>

declare upt_rec_numeral [simp del]

definition keeps :: "(BitmapAllocator \<Rightarrow> BitmapAllocator) \<Rightarrow> bool" where
  "keeps f \<longleftrightarrow> (\<forall>a. frames_inv a \<longrightarrow> frames_inv (f a) \<and> max_ram_frame (f a) = max_ram_frame a
    \<and> (\<forall>j. withdrawn a j \<longrightarrow> withdrawn (f a) j))"

definition covers :: "(BitmapAllocator \<Rightarrow> BitmapAllocator) \<Rightarrow> u64 \<Rightarrow> bool" where
  "covers f t \<longleftrightarrow> (\<forall>a. frames_inv a \<longrightarrow> unat (t div frame_size64) < max_ram_frame a \<longrightarrow>
    withdrawn (f a) (unat (t div frame_size64)))"

lemma keeps_id [intro]: "keeps (\<lambda>a. a)" by (simp add: keeps_def)

lemma keeps_comp: "keeps f \<Longrightarrow> keeps g \<Longrightarrow> keeps (\<lambda>a. f (g a))" by (simp add: keeps_def)

lemma keeps_fold: "(\<And>x. x \<in> set xs \<Longrightarrow> keeps (f x)) \<Longrightarrow> keeps (fold f xs)"
proof (induction xs)
  case (Cons x xs)
  then have "keeps (fold f xs)" "keeps (f x)" by auto
  from keeps_comp [OF this] show ?case by (simp add: comp_def)
qed (simp add: keeps_def)

lemma keeps_mark [intro]: "keeps (mark_pt_frame_used w)"
  unfolding keeps_def using mark_pt_frame_used_effect by blast

lemma covers_mark: "covers (mark_pt_frame_used w) w"
  unfolding covers_def using mark_pt_frame_used_effect by blast

lemma covers_after: "covers g t \<Longrightarrow> keeps f \<Longrightarrow> keeps g \<Longrightarrow> covers (\<lambda>a. f (g a)) t"
  by (simp add: covers_def keeps_def)

lemma covers_then: "covers f t \<Longrightarrow> keeps g \<Longrightarrow> covers (\<lambda>a. f (g a)) t"
  by (simp add: covers_def keeps_def)

lemma covers_fold:
  assumes "x \<in> set xs" "\<And>y. y \<in> set xs \<Longrightarrow> keeps (f y)" "covers (f x) t"
  shows "covers (fold f xs) t"
  using assms
proof (induction xs)
  case (Cons y ys)
  have ks: "keeps (fold f ys)" "keeps (f y)" using Cons.prems(2) by (auto intro: keeps_fold)
  show ?case
  proof (cases "x = y")
    case True
    then show ?thesis using covers_after [of "f y" t "fold f ys"] Cons.prems(3) ks
      by (simp add: comp_def)
  next
    case False
    then have "covers (fold f ys) t" using Cons by simp
    from covers_then [OF this ks(2)] show ?thesis by (simp add: comp_def)
  qed
qed simp

text \<open>The three loop bodies of the walk.\<close>

definition walk_pd :: "(u64 \<Rightarrow> nat \<Rightarrow> u64) \<Rightarrow> u64 \<Rightarrow> nat \<Rightarrow> BitmapAllocator \<Rightarrow> BitmapAllocator" where
  "walk_pd rd pd i s = (let pde = rd pd i in
    if \<not> pt_present pde \<or> pt_huge pde then s else mark_pt_frame_used (pt_addr pde) s)"

definition walk_pdpt :: "(u64 \<Rightarrow> nat \<Rightarrow> u64) \<Rightarrow> u64 \<Rightarrow> nat \<Rightarrow> BitmapAllocator \<Rightarrow> BitmapAllocator" where
  "walk_pdpt rd pdpt i s = (let e = rd pdpt i in
    if \<not> pt_present e \<or> pt_huge e then s
    else fold (walk_pd rd (pt_addr e)) [0..<512] (mark_pt_frame_used (pt_addr e) s))"

definition walk_pml4 :: "(u64 \<Rightarrow> nat \<Rightarrow> u64) \<Rightarrow> u64 \<Rightarrow> nat \<Rightarrow> BitmapAllocator \<Rightarrow> BitmapAllocator" where
  "walk_pml4 rd pml4 i s = (let e = rd pml4 i in
    if \<not> pt_present e then s
    else fold (walk_pdpt rd (pt_addr e)) [0..<512] (mark_pt_frame_used (pt_addr e) s))"

lemma protect_walk:
  "hhdm \<noteq> 0 \<Longrightarrow> protect_kernel_page_table_frames True hhdm base rd a =
    fold (walk_pml4 rd (base AND NOT 0xFFF)) [256..<512] (mark_pt_frame_used (base AND NOT 0xFFF) a)"
  unfolding protect_kernel_page_table_frames_def walk_pml4_def walk_pdpt_def walk_pd_def
    [abs_def] Let_def by simp

lemma walk_keeps: "keeps (walk_pd rd t i)" "keeps (walk_pdpt rd t i)" "keeps (walk_pml4 rd t i)"
proof -
  show pd: "keeps (walk_pd rd t i)" for t i
    by (cases "\<not> pt_present (rd t i) \<or> pt_huge (rd t i)")
      (auto simp: walk_pd_def [abs_def] Let_def)
  show pdpt: "keeps (walk_pdpt rd t i)" for t i
    using keeps_comp [OF keeps_fold keeps_mark, of "[0..<512]" "walk_pd rd (pt_addr (rd t i))"] pd
    by (cases "\<not> pt_present (rd t i) \<or> pt_huge (rd t i)")
      (auto simp: walk_pdpt_def [abs_def] Let_def)
  show "keeps (walk_pml4 rd t i)"
    using keeps_comp [OF keeps_fold keeps_mark, of "[0..<512]" "walk_pdpt rd (pt_addr (rd t i))"] pdpt
    by (cases "\<not> pt_present (rd t i)") (auto simp: walk_pml4_def [abs_def] Let_def)
qed

text \<open>The tables reachable from entries 256 to 511 of the root, by level.\<close>

definition page_dirs :: "(u64 \<Rightarrow> nat \<Rightarrow> u64) \<Rightarrow> u64 \<Rightarrow> nat \<Rightarrow> u64 \<Rightarrow> bool" where
  "page_dirs rd t n u \<longleftrightarrow> (\<exists>i<n. pt_present (rd t i) \<and> \<not> pt_huge (rd t i) \<and> u = pt_addr (rd t i))"

definition kernel_table :: "(u64 \<Rightarrow> nat \<Rightarrow> u64) \<Rightarrow> u64 \<Rightarrow> u64 \<Rightarrow> bool" where
  "kernel_table rd pml4 t \<longleftrightarrow> t = pml4 \<or>
    (\<exists>i. 256 \<le> i \<and> i < 512 \<and> pt_present (rd pml4 i) \<and> (let pdpt = pt_addr (rd pml4 i) in
      t = pdpt \<or> (\<exists>pd. page_dirs rd pdpt 512 pd \<and> (t = pd \<or> page_dirs rd pd 512 t))))"

lemma walk_pdpt_covers:
  assumes "pt_present (rd p i)" "\<not> pt_huge (rd p i)"
    "t = pt_addr (rd p i) \<or> page_dirs rd (pt_addr (rd p i)) 512 t"
  shows "covers (walk_pdpt rd p i) t"
proof -
  let ?m = "mark_pt_frame_used (pt_addr (rd p i))" and ?w = "walk_pd rd (pt_addr (rd p i))"
  have eq: "walk_pdpt rd p i = (\<lambda>a. fold ?w [0..<512] (?m a))"
    using assms(1,2) by (simp add: walk_pdpt_def [abs_def] Let_def)
  have "covers (fold ?w [0..<512]) t" if h: "page_dirs rd (pt_addr (rd p i)) 512 t"
  proof -
    obtain k where k: "k < 512" "pt_present (rd (pt_addr (rd p i)) k)"
      "\<not> pt_huge (rd (pt_addr (rd p i)) k)" "t = pt_addr (rd (pt_addr (rd p i)) k)"
      using h by (auto simp: page_dirs_def)
    then have "?w k = mark_pt_frame_used t" by (simp add: walk_pd_def [abs_def])
    then show ?thesis using k(1) covers_mark by (intro covers_fold [of k]) (auto intro: walk_keeps)
  qed
  then show ?thesis unfolding eq using assms(3) covers_mark
    by (auto intro: covers_after covers_then keeps_fold walk_keeps)
qed

lemma walk_pml4_covers:
  assumes "pt_present (rd p i)"
    "t = pt_addr (rd p i) \<or> (\<exists>pd. page_dirs rd (pt_addr (rd p i)) 512 pd \<and> (t = pd \<or> page_dirs rd pd 512 t))"
  shows "covers (walk_pml4 rd p i) t"
proof -
  let ?m = "mark_pt_frame_used (pt_addr (rd p i))" and ?w = "walk_pdpt rd (pt_addr (rd p i))"
  have eq: "walk_pml4 rd p i = (\<lambda>a. fold ?w [0..<512] (?m a))"
    using assms(1) by (simp add: walk_pml4_def [abs_def] Let_def)
  have "covers (fold ?w [0..<512]) t"
    if h: "page_dirs rd (pt_addr (rd p i)) 512 pd" "t = pd \<or> page_dirs rd pd 512 t" for pd
  proof -
    obtain k where k: "k < 512" "pt_present (rd (pt_addr (rd p i)) k)"
      "\<not> pt_huge (rd (pt_addr (rd p i)) k)" "pd = pt_addr (rd (pt_addr (rd p i)) k)"
      using h(1) by (auto simp: page_dirs_def)
    then have "covers (?w k) t" using h(2) by (intro walk_pdpt_covers) auto
    then show ?thesis using k(1) by (intro covers_fold [of k]) (auto intro: walk_keeps)
  qed
  then show ?thesis unfolding eq using assms(2) covers_mark
    by (auto intro: covers_after covers_then keeps_fold walk_keeps)
qed

section \<open>Properties\<close>

text \<open>C15: One frame. With the allocator consistent, \<open>alloc\<close> never panics; it reports exhaustion exactly
  when the free counter is zero, and otherwise hands out one frame that was free, is no kernel-image,
  page-table or reserved frame, marks exactly that frame used and lowers the counter by one.\<close>

theorem frame_alloc_correct:
  assumes "frames_inv a"
  shows "\<exists>r b. BitmapAllocator_alloc a = Some (r, b) \<and> frames_inv b \<and> (r = None \<longleftrightarrow> free_frames a = 0)
    \<and> (r = None \<longrightarrow> b = a)
    \<and> (\<forall>p. r = Some p \<longrightarrow> (\<exists>i. p = i * FRAME_SIZE \<and> is_free a i \<and> \<not> withdrawn a i
          \<and> (\<forall>j. is_free b j \<longleftrightarrow> is_free a j \<and> j \<noteq> i) \<and> free_frames a = free_frames b + 1))"
  using alloc_cases [OF assms]
proof (elim disjE exE conjE)
  assume "free_frames a = 0" "BitmapAllocator_alloc a = Some (None, a)"
  then show ?thesis using assms by simp
next
  fix idx b
  assume f: "is_free a idx" "BitmapAllocator_alloc a = Some (Some (idx * FRAME_SIZE), b)" "frames_inv b"
    "Suc (free_frames b) = free_frames a" "\<forall>i. is_free b i \<longleftrightarrow> is_free a i \<and> i \<noteq> idx"
  have "\<not> withdrawn a idx" using withdrawn_not_free [OF assms] f(1) by blast
  then show ?thesis using f by (intro exI [of _ "Some (idx * FRAME_SIZE)"] exI [of _ b]) auto
qed

definition tiny_frames :: BitmapAllocator where
  "tiny_frames = BitmapAllocator_free (3 * FRAME_SIZE)
    (BitmapAllocator_new\<lparr>bitmap_len := 1, max_valid_frame := 6, max_ram_frame := 8\<rparr>)"

lemma tiny_frames_facts: "frames_inv tiny_frames" "is_free tiny_frames i \<longleftrightarrow> i = 3" "free_frames tiny_frames = 1"
  "guard_end tiny_frames = 0" "max_ram_frame tiny_frames = 8"
proof -
  let ?a = "BitmapAllocator_new\<lparr>bitmap_len := 1, max_valid_frame := 6, max_ram_frame := 8\<rparr>"
  have nf: "\<not> is_free ?a i" for i by (simp add: is_free_def BitmapAllocator_new_def)
  then have "frames_inv ?a" by (simp add: frames_inv_def count_below_pos BitmapAllocator_new_def)
  moreover have "allocatable ?a 3" by (simp add: allocatable_def is_kpt_def in_guard_def
        BitmapAllocator_new_def dma_reserved_def list_ex_iff)
  ultimately have e: "frames_inv tiny_frames \<and> same_limits tiny_frames ?a \<and> (\<forall>j. is_free tiny_frames j \<longleftrightarrow> is_free ?a j \<or> j = 3)
      \<and> free_frames tiny_frames = (if is_free ?a 3 then free_frames ?a else free_frames ?a + 1)"
    unfolding tiny_frames_def using free_effect [of ?a 3] by blast
  show "frames_inv tiny_frames" "is_free tiny_frames i \<longleftrightarrow> i = 3" using e nf by blast+
  show "free_frames tiny_frames = 1" using e nf by (simp add: BitmapAllocator_new_def)
  show "guard_end tiny_frames = 0" "max_ram_frame tiny_frames = 8"
    using e by (simp_all add: same_limits_def BitmapAllocator_new_def)
qed

theorem frame_alloc_correct_witness:
  "\<exists>b. BitmapAllocator_alloc tiny_frames = Some (Some (3 * FRAME_SIZE), b) \<and> free_frames b = 0"
  using frame_alloc_correct [OF tiny_frames_facts(1)] tiny_frames_facts(2,3) by fastforce

text \<open>Giving a frame back. A frame outside the allocator's range, a page-table frame and a reserved
  frame are refused and nothing changes; a frame that is already free only raises the double-free
  count, so the free counter is never inflated; any other frame becomes free and is counted once.\<close>

theorem frame_free_correct:
  assumes "frames_inv a" "\<not> in_guard a i"
  defines "b \<equiv> BitmapAllocator_free (i * FRAME_SIZE) a"
  shows "frames_inv b \<and> free_frames b \<le> 8 * bitmap_len b \<and>
    (\<not> allocatable a i \<longrightarrow> b = a) \<and>
    (allocatable a i \<and> is_free a i \<longrightarrow> is_free b = is_free a \<and> free_frames b = free_frames a
      \<and> double_frees b = double_frees a + 1) \<and>
    (allocatable a i \<and> \<not> is_free a i \<longrightarrow> (\<forall>j. is_free b j \<longleftrightarrow> is_free a j \<or> j = i)
      \<and> free_frames b = free_frames a + 1 \<and> double_frees b = double_frees a)"
proof (cases "allocatable a i")
  case False
  then show ?thesis using free_ignored [OF False assms(2)] assms(1)
    by (simp add: b_def frames_inv_def count_below_le)
next
  case True
  note e = free_effect [OF assms(1) True, folded b_def]
  have "is_free b = is_free a" if "is_free a i" using e that by (intro ext) blast
  moreover have "free_frames b \<le> 8 * bitmap_len b" using e by (simp add: frames_inv_def count_below_le)
  ultimately show ?thesis using e True by auto
qed

theorem frame_free_correct_witness:
  "double_frees (BitmapAllocator_free (3 * FRAME_SIZE) tiny_frames) = double_frees tiny_frames + 1
   \<and> free_frames (BitmapAllocator_free (3 * FRAME_SIZE) tiny_frames) = 1"
proof -
  have "allocatable tiny_frames 3" "is_free tiny_frames 3"
    using tiny_frames_facts is_free_allocatable by blast+
  then show ?thesis using frame_free_correct [of tiny_frames 3] tiny_frames_facts
    by (auto simp: allocatable_def)
qed

text \<open>C27: A run of frames. \<open>alloc_contiguous\<close> finds a run of \<open>n\<close> consecutive free frames whenever one
  exists and reports none only when there is none; the frames of the run it returns were all free, and
  it takes exactly those.\<close>

theorem alloc_contiguous_complete:
  assumes "frames_inv a" "0 < n"
  shows "(fst (alloc_contiguous n a) = None \<longleftrightarrow> (\<forall>s. \<not> contiguous_free a s n)) \<and>
    (\<forall>p b. alloc_contiguous n a = (Some p, b) \<longrightarrow>
      (\<exists>s. p = s * FRAME_SIZE \<and> contiguous_free a s n \<and> frames_inv b \<and> free_frames a = free_frames b + n
        \<and> (\<forall>i. is_free b i \<longleftrightarrow> is_free a i \<and> \<not> (s \<le> i \<and> i < s + n))))"
  using alloc_contiguous_cases [OF assms]
proof (elim disjE exE conjE)
  assume "alloc_contiguous n a = (None, a)" "\<forall>s. \<not> contiguous_free a s n"
  then show ?thesis by simp
next
  fix s b
  assume f: "alloc_contiguous n a = (Some (s * FRAME_SIZE), b)" "contiguous_free a s n" "frames_inv b"
    "free_frames b + n = free_frames a"
    "\<forall>i. is_free b i \<longleftrightarrow> is_free a i \<and> \<not> (s \<le> i \<and> i < s + n)"
  have "\<exists>t. s * FRAME_SIZE = t * FRAME_SIZE \<and> contiguous_free a t n \<and> frames_inv b
      \<and> free_frames a = free_frames b + n
      \<and> (\<forall>i. is_free b i \<longleftrightarrow> is_free a i \<and> \<not> (t \<le> i \<and> i < t + n))"
    using f(2-5) by (intro exI [of _ s]) simp
  then show ?thesis using f(1,2) by auto
qed

theorem alloc_contiguous_complete_witness:
  "fst (alloc_contiguous 1 tiny_frames) \<noteq> None \<and> fst (alloc_contiguous 2 tiny_frames) = None"
proof -
  have one: "contiguous_free tiny_frames 3 1"
    using tiny_frames_facts(2) by (auto simp: contiguous_free_def)
  have two: "\<not> contiguous_free tiny_frames s 2" for s
  proof
    assume "contiguous_free tiny_frames s 2"
    then have "is_free tiny_frames s" "is_free tiny_frames (s + 1)" by (simp_all add: contiguous_free_def)
    then show False using tiny_frames_facts(2) by simp
  qed
  show ?thesis
    using one two alloc_contiguous_complete [OF tiny_frames_facts(1), of 1]
      alloc_contiguous_complete [OF tiny_frames_facts(1), of 2] by auto
qed




definition demo_boot :: BootInfo where
  "demo_boot = \<lparr>kernel_phys_start = 0x1000, kernel_phys_end = 0x2000, hhdm_offset = 1,
     memory_map = [\<lparr>region_base = 0, region_len = 0x4000, region_kind = Usable\<rparr>]\<rparr>"

lemma demo_boot_ok: "map_ok demo_boot" "allocator_init False demo_boot \<noteq> None"
proof -
  show "map_ok demo_boot"
    by (simp add: map_ok_def demo_boot_def region_ok_def usable_frames_def Let_def)
  show "allocator_init False demo_boot \<noteq> None"
    by (simp add: allocator_init_def init_from_map_def demo_boot_def measure_region_def Let_def
        carve_range_def frame_size64_def FRAME_SIZE_def frame_align_up_def frame_align_down_def
        BitmapAllocator_new_def)
qed


text \<open>C26: Boot-time page tables. After \<open>protect_kernel_page_table_frames\<close> the frame of every table
  reachable through the kernel half of the live page table that lies in RAM is withdrawn, hence not
  free, and the allocator stays consistent.\<close>

theorem kernel_tables_protected:
  assumes "frames_inv a" "hhdm \<noteq> 0" "kernel_table rd (base AND NOT 0xFFF) t"
    "unat (t div frame_size64) < max_ram_frame a"
  defines "b \<equiv> protect_kernel_page_table_frames True hhdm base rd a"
  shows "frames_inv b \<and> withdrawn b (unat (t div frame_size64)) \<and> \<not> is_free b (unat (t div frame_size64))"
proof -
  let ?p = "base AND NOT 0xFFF"
  let ?w = "fold (walk_pml4 rd ?p) [256..<512]"
  have b: "b = ?w (mark_pt_frame_used ?p a)" unfolding b_def by (rule protect_walk [OF assms(2)])
  have k: "keeps ?w" by (rule keeps_fold) (rule walk_keeps)
  then have kb: "keeps (\<lambda>a. ?w (mark_pt_frame_used ?p a))" by (rule keeps_comp) (rule keeps_mark)
  have "covers (\<lambda>a. ?w (mark_pt_frame_used ?p a)) t"
  proof (cases "t = ?p")
    case True
    then show ?thesis using covers_mark k by (auto intro: covers_after)
  next
    case False
    then obtain i where i: "256 \<le> i" "i < 512" and c: "covers (walk_pml4 rd ?p i) t"
      using assms(3) walk_pml4_covers [of rd ?p _ t] by (auto simp: kernel_table_def Let_def)
    have "covers ?w t" using i c by (intro covers_fold [of i]) (auto intro: walk_keeps)
    then show ?thesis by (rule covers_then) (rule keeps_mark)
  qed
  then show ?thesis using kb assms(1,4) withdrawn_not_free by (auto simp: b covers_def keeps_def)
qed

theorem kernel_tables_protected_witness:
  "withdrawn (protect_kernel_page_table_frames True 1 0x3000 (\<lambda>_ _. 0) tiny_frames) 3"
proof -
  have "unat ((0x3000 :: u64) div frame_size64) = 3" by (simp add: unat_div_frame)
  moreover have "kernel_table (\<lambda>_ _. 0) (0x3000 AND NOT 0xFFF) 0x3000"
    by (simp add: kernel_table_def)
  ultimately show ?thesis
    using kernel_tables_protected [OF tiny_frames_facts(1), of 1 "\<lambda>_ _. 0" "0x3000" "0x3000"]
      tiny_frames_facts(5) by simp
qed

end
