(* ===== verification/Capability.thy ===== *)
theory Capability
  imports Interfaces
begin

text \<open>
  Rights, generations and capability tokens (\<open>kernel/src/capability/rights.rs\<close>,
  \<open>generation.rs\<close>, \<open>cap.rs\<close>). Rust's \<open>Type::method\<close> is \<open>Type_method\<close> here, in this and
  in every other theory of the development. The lemmas show that the rights bit field is the algebra of finite
  sets of rights, that no operation on a capability adds a right, and that a generation never
  comes back to an earlier value.
\<close>

unbundle bit_operations_syntax

section \<open>Rights\<close>

type_synonym Rights = u8

definition READ :: Rights where "READ = push_bit 0 1"
definition WRITE :: Rights where "WRITE = push_bit 1 1"
definition SEND :: Rights where "SEND = push_bit 2 1"
definition RECV :: Rights where "RECV = push_bit 3 1"
definition GRANT :: Rights where "GRANT = push_bit 4 1"
definition REVOKE :: Rights where "REVOKE = push_bit 5 1"

definition Rights_empty :: Rights where "Rights_empty = 0"
definition Rights_all :: Rights where "Rights_all = 0b00111111"

definition Rights_contains :: "Rights \<Rightarrow> Rights \<Rightarrow> bool" where
  "Rights_contains self other \<longleftrightarrow> (self AND other) = other"

definition Rights_narrow :: "Rights \<Rightarrow> Rights \<Rightarrow> Rights" where
  "Rights_narrow self msk = self AND msk"

definition Rights_without :: "Rights \<Rightarrow> Rights \<Rightarrow> Rights" where
  "Rights_without self msk = self AND NOT msk"

definition Rights_union :: "Rights \<Rightarrow> Rights \<Rightarrow> Rights" where
  "Rights_union self other = self OR other"

lemmas rights_consts = READ_def WRITE_def SEND_def RECV_def GRANT_def REVOKE_def
  Rights_empty_def Rights_all_def

lemmas rights_ops = Rights_contains_def Rights_narrow_def Rights_without_def Rights_union_def

section \<open>Generations\<close>

datatype Generation = Generation (gen_val: u32)

definition INITIAL :: Generation where "INITIAL = Generation 0"

text \<open>\<open>bump\<close> panics on overflow.\<close>

definition Generation_bump :: "Generation \<Rightarrow> Generation panics" where
  "Generation_bump g = map_option Generation (checked_add (gen_val g) 1)"

definition Generation_matches :: "Generation \<Rightarrow> Generation \<Rightarrow> bool" where
  "Generation_matches g h \<longleftrightarrow> gen_val g = gen_val h"

text \<open>
  The counter every new endpoint's starting generation is drawn from: \<open>fetch_add\<close> wraps, and
  drawing the value 0 panics.
\<close>

definition next_generation :: "u32 \<Rightarrow> (Generation \<times> u32) panics" where
  "next_generation n = (if n = 0 then None else Some (Generation n, n + 1))"

text \<open>Generations are ordered by their counter.\<close>

instantiation Generation :: linorder
begin

definition less_eq_Generation :: "Generation \<Rightarrow> Generation \<Rightarrow> bool" where
  "less_eq_Generation g h \<longleftrightarrow> gen_val g \<le> gen_val h"

definition less_Generation :: "Generation \<Rightarrow> Generation \<Rightarrow> bool" where
  "less_Generation g h \<longleftrightarrow> gen_val g < gen_val h"

instance
  by standard (auto simp: less_eq_Generation_def less_Generation_def Generation.expand)

end

section \<open>Capabilities\<close>

datatype CapError =
    CapNotHeld
  | CapInsufficientRights
  | CapNotGrantable
  | CapWrongScope
  | CapRevoked
  | CapEndpointDead
  | GenerationMismatch

record Capability =
  resource_id :: ResourceId
  rights :: Rights
  generation :: Generation

definition Capability_validate ::
  "Capability \<Rightarrow> Rights \<Rightarrow> Generation \<Rightarrow> CapError + unit" where
  "Capability_validate self required_right current_gen =
    (if \<not> Generation_matches (generation self) current_gen then Inl GenerationMismatch
     else if \<not> Rights_contains (rights self) required_right then Inl CapInsufficientRights
     else Inr ())"

text \<open>The assertion on \<open>mask\<close> is compiled into debug builds only.\<close>

definition Capability_narrow_for_grant :: "Capability \<Rightarrow> Rights \<Rightarrow> Capability" where
  "Capability_narrow_for_grant self msk =
    \<lparr>resource_id = resource_id self, rights = Rights_narrow (rights self) msk,
     generation = generation self\<rparr>"

definition Capability_without_grant :: "Capability \<Rightarrow> Capability" where
  "Capability_without_grant self =
    \<lparr>resource_id = resource_id self, rights = Rights_without (rights self) GRANT,
     generation = generation self\<rparr>"

section \<open>Rights are sets of rights\<close>

text \<open>The set of right numbers a bit field stands for.\<close>

definition rights_set :: "Rights \<Rightarrow> nat set" where
  "rights_set r = {i. bit r i}"

lemma rights_set_contains: "Rights_contains a b \<longleftrightarrow> rights_set b \<subseteq> rights_set a"
proof -
  have "bit b n \<Longrightarrow> n < 8" for n using bit_imp_le_length [of b n] by simp
  then show ?thesis by (auto simp: Rights_contains_def rights_set_def bit_eq_iff bit_and_iff)
qed

lemma rights_set_narrow [simp]: "rights_set (Rights_narrow a m) = rights_set a \<inter> rights_set m"
  by (auto simp: Rights_narrow_def rights_set_def bit_simps)

lemma rights_set_without [simp]: "rights_set (Rights_without a m) = rights_set a - rights_set m"
  by (auto simp: Rights_without_def rights_set_def bit_simps dest: bit_imp_le_length)

lemma rights_set_union [simp]: "rights_set (Rights_union a b) = rights_set a \<union> rights_set b"
  by (auto simp: Rights_union_def rights_set_def bit_simps)

lemma rights_set_inject: "rights_set a = rights_set b \<longleftrightarrow> a = b"
  by (auto simp: rights_set_def set_eq_iff intro: bit_eqI)

lemma rights_set_single:
  "rights_set READ = {0}" "rights_set WRITE = {1}" "rights_set SEND = {2}"
  "rights_set RECV = {3}" "rights_set GRANT = {4}" "rights_set REVOKE = {5}"
  unfolding rights_set_def rights_consts bit_push_bit_iff by (auto simp: bit_simps)

lemma rights_set_empty [simp]: "rights_set Rights_empty = {}"
  by (simp add: rights_set_def Rights_empty_def)

lemma Rights_contains_refl [simp]: "Rights_contains r r"
  by (simp add: rights_set_contains)

lemma Rights_contains_trans:
  "Rights_contains a b \<Longrightarrow> Rights_contains b c \<Longrightarrow> Rights_contains a c"
  by (auto simp: rights_set_contains)

lemma Rights_contains_narrow [simp]: "Rights_contains r (Rights_narrow r m)"
  by (simp add: rights_set_contains)

lemma Rights_contains_without [simp]: "Rights_contains r (Rights_without r m)"
  by (auto simp: rights_set_contains)

lemma without_grant_no_grant: "\<not> Rights_contains (Rights_without r GRANT) GRANT"
  by (simp add: rights_set_contains rights_set_single)

section \<open>Generations only grow\<close>

lemma Generation_bump_less: "Generation_bump g = Some h \<Longrightarrow> g < h"
  by (auto simp: Generation_bump_def less_Generation_def word_less_nat_alt
      dest!: checked_add_Some)

lemma Generation_bump_Some: "Generation_bump g = Some h \<Longrightarrow> unat (gen_val h) = Suc (unat (gen_val g))"
  by (auto simp: Generation_bump_def dest!: checked_add_Some)

lemma Generation_bump_None: "Generation_bump g = None \<longleftrightarrow> gen_val g = - 1"
proof -
  have "unat (gen_val g) + unat (1 :: u32) < 2 ^ LENGTH(32) \<longleftrightarrow> unat (gen_val g) \<noteq> unat (- 1 :: u32)"
    using unat_less [of "gen_val g"] unfolding unat_minus_one_eq by auto
  then show ?thesis
    by (auto simp: Generation_bump_def checked_add_def simp flip: word_unat_eq_iff)
qed

lemma Generation_matches_iff [simp]: "Generation_matches g h \<longleftrightarrow> g = h"
  by (auto simp: Generation_matches_def Generation.expand)

lemma next_generation_less:
  assumes "next_generation n = Some (g, n')" "next_generation n' = Some (h, n'')"
  shows "g < h"
proof -
  have "n' = n + 1" "n' \<noteq> 0" "g = Generation n" "h = Generation n'"
    using assms by (auto simp: next_generation_def split: if_splits)
  then show ?thesis
    by (simp add: less_Generation_def less_plus_one)
qed

section \<open>No operation on a capability adds authority\<close>

text \<open>\<open>cap_le c d\<close>: \<open>c\<close> gives at most the authority of \<open>d\<close> over the same incarnation.\<close>

definition cap_le :: "Capability \<Rightarrow> Capability \<Rightarrow> bool" where
  "cap_le c d \<longleftrightarrow> resource_id c = resource_id d \<and> generation c = generation d
     \<and> Rights_contains (rights d) (rights c)"

lemma cap_le_refl [simp]: "cap_le c c"
  by (simp add: cap_le_def)

lemma cap_le_trans: "cap_le c d \<Longrightarrow> cap_le d e \<Longrightarrow> cap_le c e"
  by (auto simp: cap_le_def intro: Rights_contains_trans)

lemma narrow_for_grant_le [simp]: "cap_le (Capability_narrow_for_grant c m) c"
  by (simp add: cap_le_def Capability_narrow_for_grant_def)

lemma without_grant_le [simp]: "cap_le (Capability_without_grant c) c"
  by (simp add: cap_le_def Capability_without_grant_def)

lemma validate_mono:
  "cap_le c d \<Longrightarrow> Capability_validate c r g = Inr () \<Longrightarrow> Capability_validate d r g = Inr ()"
  by (auto simp: cap_le_def Capability_validate_def split: if_splits
      intro: Rights_contains_trans)

end
