(* ===== verification/Cap_Table.thy ===== *)
theory Cap_Table
  imports Capability
begin

text \<open>
  The per-task capability table and the global resource table
  (\<open>kernel/src/capability/table.rs\<close>), the registration of the stable kernel resources
  (\<open>kernel/src/capability/mod.rs\<close>) and the consistency assertion
  (\<open>kernel/src/invariants/assertions.rs\<close>). \<open>CapTable.slots\<close> is a list of length 64. The
  direct-indexed part of the global table is a pair of functions, read only below
  \<open>DIRECT_CAP\<close>; the overflow part is the list \<open>overflow[..overflow_len]\<close>, the only part of
  that array the code reads. The lemmas give the outcome of a lookup on every branch,
  the laws of insertion and removal, and what bumping and registering do to a record.
\<close>

section \<open>Global resource table\<close>

datatype Liveness = Alive | Revoked | Dead

record ResourceRecord =
  rec_generation :: Generation
  rec_liveness :: Liveness

definition DIRECT_CAP :: nat where "DIRECT_CAP = 8192"
definition OVERFLOW_CAP :: nat where "OVERFLOW_CAP = 32"

definition EMPTY_RECORD :: ResourceRecord where
  "EMPTY_RECORD = \<lparr>rec_generation = INITIAL, rec_liveness = Alive\<rparr>"

record GlobalResourceTable =
  records :: "nat \<Rightarrow> ResourceRecord"
  present :: "nat \<Rightarrow> bool"
  overflow :: "(ResourceId \<times> ResourceRecord) list"

definition GlobalResourceTable_new :: GlobalResourceTable where
  "GlobalResourceTable_new =
    \<lparr>records = (\<lambda>_. EMPTY_RECORD), present = (\<lambda>_. False), overflow = []\<rparr>"

definition get_record :: "GlobalResourceTable \<Rightarrow> ResourceId \<Rightarrow> ResourceRecord option" where
  "get_record g rid =
    (if rid < DIRECT_CAP then (if present g rid then Some (records g rid) else None)
     else map_option snd (find (\<lambda>(k, _). k = rid) (overflow g)))"

text \<open>Bump the generation of the first entry for \<open>id\<close> in the overflow list.\<close>

fun overflow_bump ::
  "ResourceId \<Rightarrow> Liveness \<Rightarrow> (ResourceId \<times> ResourceRecord) list
     \<Rightarrow> (ResourceId \<times> ResourceRecord) list panics" where
  "overflow_bump rid l [] = Some []"
| "overflow_bump rid l ((k, r) # rest) =
    (if k = rid then
       do {
         b \<leftarrow> Generation_bump (rec_generation r);
         Some ((k, \<lparr>rec_generation = b, rec_liveness = l\<rparr>) # rest)
       }
     else map_option ((#) (k, r)) (overflow_bump rid l rest))"

text \<open>
  \<open>bump_generation\<close>, as in a release build: the assertion that \<open>id\<close> is not a stable
  resource is compiled into debug builds only. Absent identifiers are left alone.
\<close>

definition bump_generation ::
  "ResourceId \<Rightarrow> Liveness \<Rightarrow> GlobalResourceTable \<Rightarrow> GlobalResourceTable panics" where
  "bump_generation rid l g =
    (if rid < DIRECT_CAP then
       (if present g rid then
          do {
            b \<leftarrow> Generation_bump (rec_generation (records g rid));
            Some (g\<lparr>records := (records g)(rid := \<lparr>rec_generation = b, rec_liveness = l\<rparr>)\<rparr>)
          }
        else Some g)
     else map_option (\<lambda>ov. g\<lparr>overflow := ov\<rparr>) (overflow_bump rid l (overflow g)))"

definition register_at_gen ::
  "ResourceId \<Rightarrow> Generation \<Rightarrow> GlobalResourceTable \<Rightarrow> GlobalResourceTable panics" where
  "register_at_gen rid gen g =
    (if rid < DIRECT_CAP then
       Some (g\<lparr>records := (records g)(rid := \<lparr>rec_generation = gen, rec_liveness = Alive\<rparr>),
               present := (present g)(rid := True)\<rparr>)
     else if length (overflow g) < OVERFLOW_CAP then
       Some (g\<lparr>overflow := overflow g @ [(rid, \<lparr>rec_generation = gen, rec_liveness = Alive\<rparr>)]\<rparr>)
     else None)"

definition register_resource :: "ResourceId \<Rightarrow> GlobalResourceTable \<Rightarrow> GlobalResourceTable panics" where
  "register_resource rid g = register_at_gen rid INITIAL g"

definition get_resource_generation :: "GlobalResourceTable \<Rightarrow> ResourceId \<Rightarrow> Generation option" where
  "get_resource_generation g rid = map_option rec_generation (get_record g rid)"

text \<open>\<open>mint_cap\<close> panics on an unregistered resource and does not look at its liveness.\<close>

definition mint_cap :: "GlobalResourceTable \<Rightarrow> ResourceId \<Rightarrow> Rights \<Rightarrow> Capability panics" where
  "mint_cap g rid r =
    map_option (\<lambda>rec. \<lparr>resource_id = rid, rights = r, generation = rec_generation rec\<rparr>)
      (get_record g rid)"

definition mark_dead_resource :: "ResourceId \<Rightarrow> GlobalResourceTable \<Rightarrow> GlobalResourceTable panics" where
  "mark_dead_resource rid g = bump_generation rid Dead g"

definition revoke_resource :: "ResourceId \<Rightarrow> GlobalResourceTable \<Rightarrow> GlobalResourceTable panics" where
  "revoke_resource rid g = bump_generation rid Revoked g"

section \<open>Capability table of a task\<close>

definition MAX_CAPS_PER_TASK :: nat where "MAX_CAPS_PER_TASK = 64"

record CapTable =
  slots :: "Capability option list"

definition CapTable_empty :: CapTable where
  "CapTable_empty = \<lparr>slots = replicate MAX_CAPS_PER_TASK None\<rparr>"

text \<open>\<open>slots.get(slot)\<close> followed by \<open>as_ref\<close>: empty and out-of-range slots are the same.\<close>

definition slot_cap :: "CapTable \<Rightarrow> slot \<Rightarrow> Capability option" where
  "slot_cap t i = (if i < length (slots t) then slots t ! i else None)"

definition CapTable_get ::
  "GlobalResourceTable \<Rightarrow> CapTable \<Rightarrow> slot \<Rightarrow> Rights \<Rightarrow> CapError + Capability" where
  "CapTable_get g t i required_right =
    (case slot_cap t i of
       None \<Rightarrow> Inl CapNotHeld
     | Some cap \<Rightarrow>
        (case get_record g (resource_id cap) of
           None \<Rightarrow> Inl CapNotHeld
         | Some rec \<Rightarrow>
            if \<not> Generation_matches (generation cap) (rec_generation rec) then
              Inl (case rec_liveness rec of
                     Dead \<Rightarrow> CapEndpointDead
                   | Revoked \<Rightarrow> CapRevoked
                   | Alive \<Rightarrow> CapRevoked)
            else if \<not> Rights_contains (rights cap) required_right then Inl CapInsufficientRights
            else Inr cap))"

definition CapTable_insert :: "Capability \<Rightarrow> CapTable \<Rightarrow> CapError + (slot \<times> CapTable)" where
  "CapTable_insert cap t =
    (case find_idx (\<lambda>s. s = None) (slots t) of
       None \<Rightarrow> Inl CapNotHeld
     | Some i \<Rightarrow> Inr (i, t\<lparr>slots := (slots t)[i := Some cap]\<rparr>))"

definition CapTable_remove :: "slot \<Rightarrow> CapTable \<Rightarrow> Capability option \<times> CapTable" where
  "CapTable_remove i t = (slot_cap t i, t\<lparr>slots := (slots t)[i := None]\<rparr>)"

text \<open>The capabilities \<open>for_each_slot\<close> visits, in order.\<close>

definition for_each_slot :: "CapTable \<Rightarrow> Capability list" where
  "for_each_slot t = List.map_filter id (slots t)"

definition holds_resource :: "CapTable \<Rightarrow> ResourceId \<Rightarrow> Rights \<Rightarrow> bool" where
  "holds_resource t rid required_right \<longleftrightarrow>
    list_ex (\<lambda>cap. resource_id cap = rid \<and> Rights_contains (rights cap) required_right)
      (for_each_slot t)"

definition cap_read_rights :: "CapTable \<Rightarrow> slot \<Rightarrow> Rights option" where
  "cap_read_rights t i = map_option rights (slot_cap t i)"

section \<open>Stable kernel resources\<close>

definition LOG_WRITE_RESOURCE :: ResourceId where "LOG_WRITE_RESOURCE = 1"
definition SPAWN_RESOURCE :: ResourceId where "SPAWN_RESOURCE = 2"
definition CONSOLE_READ_RESOURCE :: ResourceId where "CONSOLE_READ_RESOURCE = 3"
definition CONSOLE_PUSH_RESOURCE :: ResourceId where "CONSOLE_PUSH_RESOURCE = 4"
definition INTROSPECT_RESOURCE :: ResourceId where "INTROSPECT_RESOURCE = 5"
definition SERVICE_CONTROL_RESOURCE :: ResourceId where "SERVICE_CONTROL_RESOURCE = 6"
definition RESOURCE_MINT_RESOURCE :: ResourceId where "RESOURCE_MINT_RESOURCE = 7"
definition REBOOT_RESOURCE :: ResourceId where "REBOOT_RESOURCE = 8"
definition ACQUIRE_ANY_RESOURCE :: ResourceId where "ACQUIRE_ANY_RESOURCE = 9"
definition NET_DEVICE_RESOURCE :: ResourceId where "NET_DEVICE_RESOURCE = 10"
definition GPIO_DEVICE_RESOURCE :: ResourceId where "GPIO_DEVICE_RESOURCE = 11"
definition USB_DISK_RESOURCE :: ResourceId where "USB_DISK_RESOURCE = 12"
definition SET_CLOCK_RESOURCE :: ResourceId where "SET_CLOCK_RESOURCE = 13"
definition FIRE_IRQ_RESOURCE :: ResourceId where "FIRE_IRQ_RESOURCE = 14"
definition IMAGE_SPAWN_RESOURCE :: ResourceId where "IMAGE_SPAWN_RESOURCE = 15"
definition PCI_CFG_RESOURCE :: ResourceId where "PCI_CFG_RESOURCE = 16"
definition DEVICE_POWER_RESOURCE :: ResourceId where "DEVICE_POWER_RESOURCE = 17"
definition CPU_CLOCK_RESOURCE :: ResourceId where "CPU_CLOCK_RESOURCE = 18"
definition POWER_OFF_RESOURCE :: ResourceId where "POWER_OFF_RESOURCE = 19"

lemmas stable_ids = LOG_WRITE_RESOURCE_def SPAWN_RESOURCE_def CONSOLE_READ_RESOURCE_def
  CONSOLE_PUSH_RESOURCE_def INTROSPECT_RESOURCE_def SERVICE_CONTROL_RESOURCE_def
  RESOURCE_MINT_RESOURCE_def REBOOT_RESOURCE_def ACQUIRE_ANY_RESOURCE_def
  NET_DEVICE_RESOURCE_def GPIO_DEVICE_RESOURCE_def USB_DISK_RESOURCE_def
  SET_CLOCK_RESOURCE_def FIRE_IRQ_RESOURCE_def IMAGE_SPAWN_RESOURCE_def
  PCI_CFG_RESOURCE_def DEVICE_POWER_RESOURCE_def CPU_CLOCK_RESOURCE_def
  POWER_OFF_RESOURCE_def

text \<open>The order of \<open>capability::init\<close>.\<close>

definition stable_resources :: "ResourceId list" where
  "stable_resources =
    [LOG_WRITE_RESOURCE, FIRE_IRQ_RESOURCE, SPAWN_RESOURCE, CONSOLE_READ_RESOURCE,
     CONSOLE_PUSH_RESOURCE, INTROSPECT_RESOURCE, SERVICE_CONTROL_RESOURCE,
     RESOURCE_MINT_RESOURCE, REBOOT_RESOURCE, ACQUIRE_ANY_RESOURCE, NET_DEVICE_RESOURCE,
     GPIO_DEVICE_RESOURCE, USB_DISK_RESOURCE, SET_CLOCK_RESOURCE, IMAGE_SPAWN_RESOURCE,
     PCI_CFG_RESOURCE, DEVICE_POWER_RESOURCE, CPU_CLOCK_RESOURCE, POWER_OFF_RESOURCE]"

primrec register_list :: "ResourceId list \<Rightarrow> GlobalResourceTable \<Rightarrow> GlobalResourceTable panics" where
  "register_list [] g = Some g"
| "register_list (rid # ids) g = do { g' \<leftarrow> register_resource rid g; register_list ids g' }"

definition capability_init :: "GlobalResourceTable panics" where
  "capability_init = register_list stable_resources GlobalResourceTable_new"

section \<open>Consistency assertion\<close>

text \<open>
  \<open>assert_cap_table_consistent\<close> over the tables of all active tasks: it panics when a
  capability carries a generation above its resource's.
\<close>

definition cap_consistent :: "GlobalResourceTable \<Rightarrow> Capability \<Rightarrow> bool" where
  "cap_consistent g cap \<longleftrightarrow>
    (case get_resource_generation g (resource_id cap) of
       Some current_gen \<Rightarrow> \<not> gen_val (generation cap) > gen_val current_gen
     | None \<Rightarrow> True)"

definition assert_cap_table_consistent :: "GlobalResourceTable \<Rightarrow> CapTable list \<Rightarrow> unit panics" where
  "assert_cap_table_consistent g ts =
    (if list_all (\<lambda>t. list_all (cap_consistent g) (for_each_slot t)) ts then Some () else None)"

section \<open>Records after registration and bumping\<close>

lemma find_bump:
  assumes "overflow_bump rid l ov = Some ov'"
  shows "map_option snd (find (\<lambda>(k, _). k = j) ov') =
    (if j = rid then map_option (\<lambda>r. \<lparr>rec_generation = the (Generation_bump (rec_generation (snd r))),
       rec_liveness = l\<rparr>) (find (\<lambda>(k, _). k = rid) ov)
     else map_option snd (find (\<lambda>(k, _). k = j) ov))"
  using assms
  by (induction rid l ov arbitrary: ov' rule: overflow_bump.induct)
    (auto split: if_splits Option.bind_splits)

lemma overflow_bump_found:
  "overflow_bump rid l ov = Some ov' \<Longrightarrow> find (\<lambda>(k, _). k = rid) ov = Some (k, r) \<Longrightarrow>
   \<exists>b. Generation_bump (rec_generation r) = Some b"
  by (induction rid l ov arbitrary: ov' rule: overflow_bump.induct)
    (auto split: if_splits Option.bind_splits)

lemma get_record_bump_same:
  assumes "bump_generation rid l g = Some g'" "get_record g rid = Some r"
  obtains b where "Generation_bump (rec_generation r) = Some b"
    and "get_record g' rid = Some \<lparr>rec_generation = b, rec_liveness = l\<rparr>"
proof (cases "rid < DIRECT_CAP")
  case True
  then show ?thesis using assms that
    by (auto simp: bump_generation_def get_record_def split: if_splits Option.bind_splits)
next
  case False
  then obtain ov where ov: "overflow_bump rid l (overflow g) = Some ov" "g' = g\<lparr>overflow := ov\<rparr>"
    using assms by (auto simp: bump_generation_def)
  obtain k where k: "find (\<lambda>(k, _). k = rid) (overflow g) = Some (k, r)"
    using assms False by (auto simp: get_record_def)
  then show ?thesis
    using that False find_bump [OF ov(1), of rid] overflow_bump_found [OF ov(1) k] ov(2)
    by (auto simp: get_record_def)
qed

lemma get_record_bump_other:
  assumes "bump_generation rid l g = Some g'" "j \<noteq> rid"
  shows "get_record g' j = get_record g j"
proof (cases "rid < DIRECT_CAP")
  case True
  then show ?thesis using assms
    by (auto simp: bump_generation_def get_record_def split: if_splits Option.bind_splits)
next
  case False
  then obtain ov where "overflow_bump rid l (overflow g) = Some ov" "g' = g\<lparr>overflow := ov\<rparr>"
    using assms by (auto simp: bump_generation_def)
  then show ?thesis using assms find_bump [of rid l "overflow g" ov j]
    by (auto simp: get_record_def)
qed

lemma get_record_bump_absent:
  "bump_generation rid l g = Some g' \<Longrightarrow> get_record g rid = None \<Longrightarrow> get_record g' rid = None"
  using find_bump [of rid l "overflow g" _ rid]
  by (auto simp: bump_generation_def get_record_def split: if_splits Option.bind_splits)

lemma get_record_register_same:
  "register_at_gen rid gen g = Some g' \<Longrightarrow> rid < DIRECT_CAP \<or> get_record g rid = None \<Longrightarrow>
   get_record g' rid = Some \<lparr>rec_generation = gen, rec_liveness = Alive\<rparr>"
  by (auto simp: register_at_gen_def get_record_def find_append split: if_splits)

lemma get_record_register_other:
  "register_at_gen rid gen g = Some g' \<Longrightarrow> j \<noteq> rid \<Longrightarrow> get_record g' j = get_record g j"
  by (auto simp: register_at_gen_def get_record_def find_append split: if_splits option.splits)

lemma register_direct: "rid < DIRECT_CAP \<Longrightarrow> \<exists>g'. register_at_gen rid gen g = Some g'"
  by (simp add: register_at_gen_def)

lemmas resource_fns = register_resource_def mark_dead_resource_def revoke_resource_def
  get_resource_generation_def

section \<open>Slots of a capability table\<close>

definition CapTable_wf :: "CapTable \<Rightarrow> bool" where
  "CapTable_wf t \<longleftrightarrow> length (slots t) = MAX_CAPS_PER_TASK"

definition CapTable_live :: "CapTable \<Rightarrow> slot set" where
  "CapTable_live t = {i. slot_cap t i \<noteq> None}"

lemma CapTable_empty_wf [simp]: "CapTable_wf CapTable_empty"
  by (simp add: CapTable_wf_def CapTable_empty_def)

lemma CapTable_empty_live [simp]: "CapTable_live CapTable_empty = {}"
  by (simp add: CapTable_live_def CapTable_empty_def slot_cap_def)

lemma insert_SomeD:
  assumes "CapTable_insert c t = Inr (i, t')"
  shows "i < length (slots t)" "slot_cap t i = None" "slots t' = (slots t)[i := Some c]"
  using assms find_idx_SomeD [of "\<lambda>s. s = None" "slots t" i]
  by (auto simp: CapTable_insert_def slot_cap_def split: option.splits)

lemma slot_cap_insert:
  "CapTable_insert c t = Inr (i, t') \<Longrightarrow> slot_cap t' j = (if j = i then Some c else slot_cap t j)"
  using insert_SomeD [of c t i t'] by (auto simp: slot_cap_def)

lemma slot_cap_remove:
  "slot_cap (snd (CapTable_remove i t)) j = (if j = i then None else slot_cap t j)"
  by (auto simp: slot_cap_def CapTable_remove_def)

lemma insert_wf [inv_rules]: "CapTable_insert c t = Inr (i, t') \<Longrightarrow> CapTable_wf t \<Longrightarrow> CapTable_wf t'"
  using insert_SomeD(3) [of c t i t'] by (simp add: CapTable_wf_def)

lemma remove_wf [inv_rules]: "CapTable_wf t \<Longrightarrow> CapTable_wf (snd (CapTable_remove i t))"
  by (simp add: CapTable_wf_def CapTable_remove_def)

interpretation cap_slots: id_pool CapTable_wf CapTable_live
  "\<lambda>t. case CapTable_insert c t of Inl _ \<Rightarrow> None | Inr r \<Rightarrow> Some r"
  "\<lambda>i t. snd (CapTable_remove i t)" for c
proof unfold_locales
  fix t :: CapTable and i :: slot and t' :: CapTable
  assume wf: "CapTable_wf t"
    and "(case CapTable_insert c t of Inl _ \<Rightarrow> None | Inr r \<Rightarrow> Some r) = Some (i, t')"
  then have ins: "CapTable_insert c t = Inr (i, t')" by (simp split: sum.splits)
  show "i \<notin> CapTable_live t" using insert_SomeD(2) [OF ins] by (simp add: CapTable_live_def)
  show "CapTable_live t' = insert i (CapTable_live t)"
    using slot_cap_insert [OF ins] by (auto simp: CapTable_live_def)
  show "CapTable_wf t'" using insert_wf [OF ins wf] .
next
  fix t :: CapTable and i :: slot
  assume "CapTable_wf t"
  then show "CapTable_wf (snd (CapTable_remove i t))" by (rule remove_wf)
  show "CapTable_live (snd (CapTable_remove i t)) = CapTable_live t - {i}"
    by (auto simp: CapTable_live_def slot_cap_remove)
qed

lemma insert_full_iff:
  assumes "CapTable_wf t"
  shows "CapTable_insert c t = Inl CapNotHeld \<longleftrightarrow> CapTable_live t = {..<MAX_CAPS_PER_TASK}"
proof -
  have "find_idx (\<lambda>s. s = None) (slots t) = None \<longleftrightarrow> (\<forall>i<length (slots t). slots t ! i \<noteq> None)"
    by (auto simp: find_idx_None in_set_conv_nth)
  also have "\<dots> \<longleftrightarrow> {i. i < length (slots t) \<and> slots t ! i \<noteq> None} = {..<length (slots t)}"
    by blast
  also have "{i. i < length (slots t) \<and> slots t ! i \<noteq> None} = CapTable_live t"
    by (auto simp: CapTable_live_def slot_cap_def)
  finally have "find_idx (\<lambda>s. s = None) (slots t) = None \<longleftrightarrow>
    CapTable_live t = {..<MAX_CAPS_PER_TASK}" using assms by (simp only: CapTable_wf_def)
  then show ?thesis
    unfolding CapTable_insert_def
    by (cases "find_idx (\<lambda>s. s = None) (slots t)") simp_all
qed

lemma set_map_filter_id: "set (List.map_filter id xs) = {c. Some c \<in> set xs}"
  by (induction xs) (auto simp: map_filter_simps split: option.splits)

lemma set_for_each_slot: "set (for_each_slot t) = {c. \<exists>i. slot_cap t i = Some c}"
  by (auto simp: for_each_slot_def set_map_filter_id slot_cap_def in_set_conv_nth)

lemma holds_resource_iff:
  "holds_resource t rid r \<longleftrightarrow>
    (\<exists>i c. slot_cap t i = Some c \<and> resource_id c = rid \<and> Rights_contains (rights c) r)"
  by (auto simp: holds_resource_def list_ex_iff set_for_each_slot)

lemma CapTable_get_Inr:
  "CapTable_get g t i r = Inr c \<longleftrightarrow>
    slot_cap t i = Some c \<and> get_resource_generation g (resource_id c) = Some (generation c)
    \<and> Rights_contains (rights c) r"
  by (auto simp: CapTable_get_def get_resource_generation_def split: option.splits)

lemma get_holds_resource:
  "CapTable_get g t i r = Inr c \<Longrightarrow> holds_resource t (resource_id c) r"
  by (auto simp: CapTable_get_Inr holds_resource_iff)

lemma assert_consistent_iff:
  "assert_cap_table_consistent g ts = Some () \<longleftrightarrow>
    (\<forall>t\<in>set ts. \<forall>i c. slot_cap t i = Some c \<longrightarrow> cap_consistent g c)"
  by (auto simp: assert_cap_table_consistent_def list_all_iff set_for_each_slot)

lemma cap_consistentD:
  "cap_consistent g c \<Longrightarrow> get_record g (resource_id c) = Some rec \<Longrightarrow> generation c \<le> rec_generation rec"
  by (simp add: cap_consistent_def get_resource_generation_def less_eq_Generation_def not_less)

lemma cap_consistent_bump:
  assumes "bump_generation rid l g = Some g'" "cap_consistent g c"
  shows "cap_consistent g' c"
proof (cases "resource_id c = rid \<and> get_record g rid \<noteq> None")
  case True
  then obtain r where r: "get_record g rid = Some r" and eq: "resource_id c = rid" by auto
  obtain b where b: "Generation_bump (rec_generation r) = Some b"
    "get_record g' rid = Some \<lparr>rec_generation = b, rec_liveness = l\<rparr>"
    using get_record_bump_same [OF assms(1) r] .
  have "generation c \<le> rec_generation r" using cap_consistentD [OF assms(2)] r eq by simp
  also have "\<dots> < b" using Generation_bump_less [OF b(1)] .
  finally show ?thesis using b(2) eq
    by (simp add: cap_consistent_def get_resource_generation_def less_Generation_def not_less)
next
  case False
  then have "get_record g' (resource_id c) = get_record g (resource_id c)"
    using get_record_bump_other [OF assms(1)] get_record_bump_absent [OF assms(1)]
    by (cases "resource_id c = rid") auto
  then show ?thesis using assms(2) by (simp add: cap_consistent_def get_resource_generation_def)
qed

lemma mint_cap_current:
  "mint_cap g rid r = Some c \<Longrightarrow> resource_id c = rid \<and> rights c = r
     \<and> get_resource_generation g rid = Some (generation c)"
  by (auto simp: mint_cap_def get_resource_generation_def)

section \<open>Properties of the capability tables\<close>

lemma bumped_generation_differs:
  assumes "bump_generation rid l g = Some g'" "get_record g rid = Some rec"
    "generation c \<le> rec_generation rec"
  shows "\<exists>r. get_record g' rid = Some r \<and> rec_liveness r = l \<and> generation c < rec_generation r"
proof -
  obtain b where b: "Generation_bump (rec_generation rec) = Some b"
    "get_record g' rid = Some \<lparr>rec_generation = b, rec_liveness = l\<rparr>"
    using get_record_bump_same [OF assms(1,2)] .
  then show ?thesis using assms(3) Generation_bump_less [OF b(1)] by auto
qed


text \<open>
  C9: once a resource's generation is bumped, every capability minted for it up to then is
  refused at its next use, whatever right is asked for: as a dead endpoint when the
  resource died, as revoked when it was revoked.
\<close>

theorem bumped_cap_refused:
  assumes "bump_generation rid l g = Some g'"
    and "slot_cap t i = Some c" and "resource_id c = rid"
    and "get_record g rid = Some rec" and "generation c \<le> rec_generation rec"
  shows "CapTable_get g' t i r = Inl (if l = Dead then CapEndpointDead else CapRevoked)"
  using bumped_generation_differs [OF assms(1,4,5)] assms(2,3)
  by (auto simp: CapTable_get_def split: Liveness.splits)

definition wit_table :: GlobalResourceTable where
  "wit_table = GlobalResourceTable_new
    \<lparr>records := (\<lambda>_. EMPTY_RECORD)(100 := \<lparr>rec_generation = Generation 7, rec_liveness = Alive\<rparr>),
     present := (\<lambda>_. False)(100 := True)\<rparr>"

definition wit_cap :: Capability where
  "wit_cap = \<lparr>resource_id = 100, rights = SEND, generation = Generation 7\<rparr>"

lemma wit_bump:
  "bump_generation 100 Dead wit_table = Some (wit_table
    \<lparr>records := (records wit_table)(100 := \<lparr>rec_generation = Generation 8, rec_liveness = Dead\<rparr>)\<rparr>)"
  by (simp add: bump_generation_def wit_table_def DIRECT_CAP_def Generation_bump_def
      checked_add_def)

theorem bumped_cap_refused_witness:
  "CapTable_get (wit_table
      \<lparr>records := (records wit_table)(100 := \<lparr>rec_generation = Generation 8, rec_liveness = Dead\<rparr>)\<rparr>)
    \<lparr>slots = [Some wit_cap]\<rparr> 0 SEND = Inl CapEndpointDead"
  using bumped_cap_refused [OF wit_bump, of "\<lparr>slots = [Some wit_cap]\<rparr>" 0 wit_cap
      "\<lparr>rec_generation = Generation 7, rec_liveness = Alive\<rparr>" SEND]
  by (simp add: slot_cap_def wit_cap_def get_record_def wit_table_def DIRECT_CAP_def)

text \<open>
  A capability inserted into a table lands in a slot that was free, is what that slot then
  holds, and disturbs no other slot; insertion fails only when all 64 slots are taken.
\<close>

theorem CapTable_insert_spec:
  assumes "CapTable_wf t"
  shows "case CapTable_insert c t of
      Inl e \<Rightarrow> e = CapNotHeld \<and> CapTable_live t = {..<MAX_CAPS_PER_TASK}
    | Inr (i, t') \<Rightarrow> CapTable_wf t' \<and> i < MAX_CAPS_PER_TASK \<and> slot_cap t i = None
        \<and> (\<forall>j. slot_cap t' j = (if j = i then Some c else slot_cap t j))"
proof (cases "CapTable_insert c t")
  case (Inl e)
  then have "e = CapNotHeld" by (auto simp: CapTable_insert_def split: option.splits)
  then show ?thesis using Inl insert_full_iff [OF assms, of c] by simp
next
  case (Inr p)
  obtain i t' where p: "p = (i, t')" by (cases p)
  then show ?thesis using Inr insert_SomeD [of c t i t'] slot_cap_insert [of c t i t']
      insert_wf [of c t i t'] assms by (simp add: CapTable_wf_def)
qed

theorem CapTable_insert_spec_witness:
  "\<exists>i t'. CapTable_insert wit_cap CapTable_empty = Inr (i, t') \<and> slot_cap t' i = Some wit_cap"
proof -
  have "{..<MAX_CAPS_PER_TASK} \<noteq> {}" by (simp add: MAX_CAPS_PER_TASK_def lessThan_empty_iff)
  then show ?thesis using CapTable_insert_spec [OF CapTable_empty_wf, of wit_cap]
    by (cases "CapTable_insert wit_cap CapTable_empty") auto
qed

lemma register_list_direct:
  assumes "\<forall>rid\<in>set ids. rid < DIRECT_CAP"
  shows "\<exists>g'. register_list ids g = Some g' \<and> (\<forall>rid. get_record g' rid =
    (if rid \<in> set ids then Some EMPTY_RECORD else get_record g rid))"
  using assms
proof (induction ids arbitrary: g)
  case (Cons a ids)
  then obtain g1 where g1: "register_resource a g = Some g1"
    using register_direct by (fastforce simp: register_resource_def)
  have "get_record g1 rid = (if rid = a then Some EMPTY_RECORD else get_record g rid)" for rid
    using g1 Cons.prems get_record_register_same [of a INITIAL g g1]
      get_record_register_other [of a INITIAL g g1 rid]
    by (auto simp: register_resource_def EMPTY_RECORD_def)
  moreover obtain g2 where "register_list ids g1 = Some g2" "\<forall>rid. get_record g2 rid =
      (if rid \<in> set ids then Some EMPTY_RECORD else get_record g1 rid)"
    using Cons.IH [of g1] Cons.prems by auto
  ultimately show ?case using g1 by auto
qed simp

lemma set_stable_resources: "set stable_resources = {1..19}"
proof (rule card_subset_eq)
  show "set stable_resources \<subseteq> {1..19}" by (simp add: stable_resources_def stable_ids)
  have "distinct stable_resources" by (simp add: stable_resources_def stable_ids)
  then show "card (set stable_resources) = card {1..19::nat}"
    by (simp add: distinct_card) (simp add: stable_resources_def)
qed simp

text \<open>
  After boot every one of the 19 stable kernel resources is registered, alive and at
  generation 0, and no other resource is registered.
\<close>

theorem capability_init_registers:
  "\<exists>g. capability_init = Some g \<and>
    (\<forall>rid. get_record g rid =
      (if 1 \<le> rid \<and> rid \<le> 19 then Some EMPTY_RECORD else None))"
proof -
  have "\<forall>rid\<in>set stable_resources. rid < DIRECT_CAP"
    by (simp add: set_stable_resources DIRECT_CAP_def)
  moreover have "get_record GlobalResourceTable_new rid = None" for rid
    by (simp add: get_record_def GlobalResourceTable_new_def)
  ultimately show ?thesis
    using register_list_direct [of stable_resources GlobalResourceTable_new]
    by (auto simp: capability_init_def set_stable_resources)
qed

end
