(* ===== verification/Message_Queue.thy ===== *)
theory Message_Queue
  imports Cap_Table
begin

text \<open>
  IPC messages and the bounded per-endpoint message queue (\<open>kernel/src/ipc/message.rs\<close>,
  \<open>kernel/src/ipc/queue.rs\<close>). The queue is a ring buffer of 16 slots with a head index and a
  length; the lemmas show that it implements a bounded FIFO list, that taking the oldest
  message of one sender leaves the rest in order, and that draining ends and empties it.
\<close>

section \<open>Messages\<close>

definition MAX_MESSAGE_SIZE :: nat where "MAX_MESSAGE_SIZE = 4096"
definition MAX_EMBEDDED_CAPS :: nat where "MAX_EMBEDDED_CAPS = 4"

datatype IpcError =
    IpcEndpointDead
  | QueueFull
  | QueueEmpty
  | MessageTooLarge
  | ReplyDead
  | IpcCap CapError

record Message =
  payload :: "u8 list"
  payload_len :: nat
  caps :: "Capability option list"
  cap_count :: nat
  badge_id :: ResourceId
  badge_right :: u8
  sender_ep :: EndpointId

definition Message_new :: "u8 list \<Rightarrow> IpcError + Message" where
  "Message_new p =
    (if length p > MAX_MESSAGE_SIZE then Inl MessageTooLarge
     else Inr \<lparr>payload = p @ replicate (MAX_MESSAGE_SIZE - length p) 0,
               payload_len = length p,
               caps = replicate MAX_EMBEDDED_CAPS None, cap_count = 0,
               badge_id = 0, badge_right = 0, sender_ep = 0\<rparr>)"

definition payload_bytes :: "Message \<Rightarrow> u8 list" where
  "payload_bytes m = take (payload_len m) (payload m)"

definition interrupt_event :: "u8 \<Rightarrow> Message" where
  "interrupt_event irq =
    \<lparr>payload = (replicate MAX_MESSAGE_SIZE 0)[0 := irq], payload_len = 1,
     caps = replicate MAX_EMBEDDED_CAPS None, cap_count = 0,
     badge_id = 0, badge_right = 0, sender_ep = 0\<rparr>"

definition Message_wf :: "Message \<Rightarrow> bool" where
  "Message_wf m \<longleftrightarrow> length (payload m) = MAX_MESSAGE_SIZE \<and> payload_len m \<le> MAX_MESSAGE_SIZE
     \<and> length (caps m) = MAX_EMBEDDED_CAPS \<and> cap_count m \<le> MAX_EMBEDDED_CAPS"

section \<open>Ring buffer\<close>

definition QUEUE_DEPTH :: nat where "QUEUE_DEPTH = 16"

record MessageQueue =
  q_slots :: "Message option list"
  q_head :: nat
  q_len :: nat

definition MessageQueue_new :: MessageQueue where
  "MessageQueue_new = \<lparr>q_slots = replicate QUEUE_DEPTH None, q_head = 0, q_len = 0\<rparr>"

definition is_full :: "MessageQueue \<Rightarrow> bool" where
  "is_full q \<longleftrightarrow> q_len q = QUEUE_DEPTH"

definition is_empty :: "MessageQueue \<Rightarrow> bool" where
  "is_empty q \<longleftrightarrow> q_len q = 0"

definition enqueue :: "Message \<Rightarrow> MessageQueue \<Rightarrow> Message + MessageQueue" where
  "enqueue msg q =
    (if is_full q then Inl msg
     else let tail = (q_head q + q_len q) mod QUEUE_DEPTH in
       Inr (q\<lparr>q_slots := (q_slots q)[tail := Some msg], q_len := q_len q + 1\<rparr>))"

definition dequeue :: "MessageQueue \<Rightarrow> Message option \<times> MessageQueue" where
  "dequeue q =
    (if is_empty q then (None, q)
     else let msg = q_slots q ! q_head q in
       (msg, q\<lparr>q_slots := (q_slots q)[q_head q := None],
               q_head := (q_head q + 1) mod QUEUE_DEPTH, q_len := q_len q - 1\<rparr>))"

definition depth :: "MessageQueue \<Rightarrow> nat" where "depth q = q_len q"

text \<open>Position \<open>i\<close> of the queue counted from its head.\<close>

definition ring_idx :: "nat \<Rightarrow> nat \<Rightarrow> nat" where
  "ring_idx h i = (h + i) mod QUEUE_DEPTH"

text \<open>The gap-closing loop of \<open>dequeue_matching\<close>: \<open>slots[to] = slots[from].take()\<close>.\<close>

function shift_back :: "nat \<Rightarrow> nat \<Rightarrow> nat \<Rightarrow> Message option list \<Rightarrow> Message option list" where
  "shift_back h j stop s =
    (if j < stop then
       let src = ring_idx h (j + 1); dst = ring_idx h j in
       shift_back h (j + 1) stop ((s[src := None])[dst := s ! src])
     else s)"
  by pat_completeness auto
termination
  by (relation "measure (\<lambda>(h, j, stop, s). stop - j)") auto

declare shift_back.simps [simp del]

definition dequeue_matching :: "EndpointId \<Rightarrow> MessageQueue \<Rightarrow> Message option \<times> MessageQueue" where
  "dequeue_matching ep q =
    (case scan (\<lambda>i. case q_slots q ! ring_idx (q_head q) i of
                  Some m \<Rightarrow> sender_ep m = ep | None \<Rightarrow> False) 0 (q_len q) of
       None \<Rightarrow> (None, q)
     | Some i \<Rightarrow>
        let idx = ring_idx (q_head q) i; msg = q_slots q ! idx in
        (msg, q\<lparr>q_slots := shift_back (q_head q) i (q_len q - 1) ((q_slots q)[idx := None]),
                q_len := q_len q - 1\<rparr>))"

text \<open>\<open>while self.dequeue().is_some() {}\<close>\<close>

function drain :: "MessageQueue \<Rightarrow> MessageQueue" where
  "drain q = (case dequeue q of (None, q') \<Rightarrow> q' | (Some _, q') \<Rightarrow> drain q')"
  by pat_completeness auto
termination
  by (relation "measure q_len") (auto simp: dequeue_def is_empty_def Let_def split: if_splits)

declare drain.simps [simp del]

definition MessageQueue_reset :: "MessageQueue \<Rightarrow> MessageQueue" where
  "MessageQueue_reset q = q\<lparr>q_head := 0, q_len := 0\<rparr>"

section \<open>The queue is a list\<close>

definition MessageQueue_wf :: "MessageQueue \<Rightarrow> bool" where
  "MessageQueue_wf q \<longleftrightarrow> length (q_slots q) = QUEUE_DEPTH \<and> q_head q < QUEUE_DEPTH
     \<and> q_len q \<le> QUEUE_DEPTH \<and> (\<forall>i<q_len q. q_slots q ! ring_idx (q_head q) i \<noteq> None)"

definition queue_list :: "MessageQueue \<Rightarrow> Message list" where
  "queue_list q = map (\<lambda>i. the (q_slots q ! ring_idx (q_head q) i)) [0..<q_len q]"

lemma QUEUE_DEPTH_pos [simp]: "0 < QUEUE_DEPTH"
  by (simp add: QUEUE_DEPTH_def)

lemma ring_idx_less [simp]: "ring_idx h i < QUEUE_DEPTH"
  by (simp add: ring_idx_def)

lemma ring_idx_inj:
  assumes "i < QUEUE_DEPTH" "j < QUEUE_DEPTH"
  shows "ring_idx h i = ring_idx h j \<longleftrightarrow> i = j"
  using assms mod_shift_inj unfolding ring_idx_def by blast

lemma ring_idx_0 [simp]: "h < QUEUE_DEPTH \<Longrightarrow> ring_idx h 0 = h"
  by (simp add: ring_idx_def)

lemma ring_idx_Suc: "ring_idx (ring_idx h 1) i = ring_idx h (Suc i)"
  unfolding ring_idx_def by (simp add: mod_add_left_eq)

lemma length_queue_list [simp]: "length (queue_list q) = q_len q"
  by (simp add: queue_list_def)

lemma nth_queue_list: "i < q_len q \<Longrightarrow> queue_list q ! i = the (q_slots q ! ring_idx (q_head q) i)"
  by (simp add: queue_list_def)

lemma queue_list_eqI:
  assumes "q_len q = length xs"
    "\<And>i. i < length xs \<Longrightarrow> q_slots q ! ring_idx (q_head q) i = Some (xs ! i)"
  shows "queue_list q = xs"
  using assms by (intro nth_equalityI) (simp_all add: nth_queue_list)

lemma wfI_list:
  assumes "length (q_slots q) = QUEUE_DEPTH" "q_head q < QUEUE_DEPTH" "length xs \<le> QUEUE_DEPTH"
    "q_len q = length xs"
    "\<And>i. i < length xs \<Longrightarrow> q_slots q ! ring_idx (q_head q) i = Some (xs ! i)"
  shows "MessageQueue_wf q \<and> queue_list q = xs"
  using assms queue_list_eqI by (simp add: MessageQueue_wf_def)

lemma wf_slot:
  assumes "MessageQueue_wf q" "i < q_len q"
  shows "q_slots q ! ring_idx (q_head q) i = Some (queue_list q ! i)"
  using assms by (auto simp: MessageQueue_wf_def nth_queue_list)

lemma new_wf [simp]: "MessageQueue_wf MessageQueue_new" "queue_list MessageQueue_new = []"
  by (simp_all add: MessageQueue_wf_def MessageQueue_new_def queue_list_def)

lemma reset_wf [simp]:
  "MessageQueue_wf q \<Longrightarrow> MessageQueue_wf (MessageQueue_reset q)"
  "queue_list (MessageQueue_reset q) = []"
  by (simp_all add: MessageQueue_wf_def MessageQueue_reset_def queue_list_def)

lemma enqueue_room:
  assumes wf: "MessageQueue_wf q" and len: "q_len q < QUEUE_DEPTH"
  shows "\<exists>q'. enqueue m q = Inr q' \<and> MessageQueue_wf q' \<and> queue_list q' = queue_list q @ [m]"
proof -
  define q' where "q' = q\<lparr>q_slots := (q_slots q)[ring_idx (q_head q) (q_len q) := Some m],
    q_len := q_len q + 1\<rparr>"
  have "enqueue m q = Inr q'"
    using len by (simp add: enqueue_def is_full_def Let_def q'_def ring_idx_def)
  moreover have "MessageQueue_wf q' \<and> queue_list q' = queue_list q @ [m]"
  proof (rule wfI_list)
    fix i assume i: "i < length (queue_list q @ [m])"
    show "q_slots q' ! ring_idx (q_head q') i = Some ((queue_list q @ [m]) ! i)"
    proof (cases "i = q_len q")
      case True
      then show ?thesis using wf by (simp add: q'_def MessageQueue_wf_def nth_append)
    next
      case False
      then have "ring_idx (q_head q) i \<noteq> ring_idx (q_head q) (q_len q)"
        using i len ring_idx_inj [of i "q_len q"] by simp
      then show ?thesis
        using False i wf_slot [OF wf, of i] by (simp add: q'_def nth_append)
    qed
  qed (use wf len in \<open>auto simp: q'_def MessageQueue_wf_def\<close>)
  ultimately show ?thesis by blast
qed

lemma dequeue_cons:
  assumes wf: "MessageQueue_wf q" and ms: "queue_list q = m # ms"
  shows "\<exists>q'. dequeue q = (Some m, q') \<and> MessageQueue_wf q' \<and> queue_list q' = ms"
proof -
  have len: "q_len q = Suc (length ms)" using ms by (metis length_Cons length_queue_list)
  have h: "q_head q < QUEUE_DEPTH" using wf by (simp add: MessageQueue_wf_def)
  define q' where "q' = q\<lparr>q_slots := (q_slots q)[q_head q := None],
    q_head := ring_idx (q_head q) 1, q_len := length ms\<rparr>"
  have "q_slots q ! q_head q = Some m"
    using wf_slot [OF wf, of 0] len ms h by simp
  then have "dequeue q = (Some m, q')"
    using len by (simp add: dequeue_def is_empty_def Let_def q'_def ring_idx_def)
  moreover have "MessageQueue_wf q' \<and> queue_list q' = ms"
  proof (rule wfI_list)
    fix i assume i: "i < length ms"
    have len16: "q_len q \<le> QUEUE_DEPTH" using wf by (simp add: MessageQueue_wf_def)
    then have "ring_idx (q_head q) (Suc i) \<noteq> q_head q"
      using i len ring_idx_inj [of "Suc i" 0 "q_head q"] h by simp
    then show "q_slots q' ! ring_idx (q_head q') i = Some (ms ! i)"
      using wf_slot [OF wf, of "Suc i"] i len ms
      by (simp add: q'_def ring_idx_Suc [unfolded One_nat_def])
  qed (use wf len in \<open>auto simp: q'_def MessageQueue_wf_def\<close>)
  ultimately show ?thesis by blast
qed

interpretation msg_queue: bounded_fifo MessageQueue_wf queue_list QUEUE_DEPTH enqueue dequeue
proof unfold_locales
  fix q m ms
  assume wf: "MessageQueue_wf q"
  show "length (queue_list q) \<le> QUEUE_DEPTH" using wf by (simp add: MessageQueue_wf_def)
  show "length (queue_list q) = QUEUE_DEPTH \<Longrightarrow> enqueue m q = Inl m"
    by (simp add: enqueue_def is_full_def)
  show "length (queue_list q) < QUEUE_DEPTH \<Longrightarrow>
      \<exists>q'. enqueue m q = Inr q' \<and> MessageQueue_wf q' \<and> queue_list q' = queue_list q @ [m]"
    using enqueue_room [OF wf] by simp
  show "queue_list q = [] \<Longrightarrow> dequeue q = (None, q)"
    by (simp add: dequeue_def is_empty_def queue_list_def)
  show "queue_list q = m # ms \<Longrightarrow>
      \<exists>q'. dequeue q = (Some m, q') \<and> MessageQueue_wf q' \<and> queue_list q' = ms"
    using dequeue_cons [OF wf] .
qed

section \<open>Taking the oldest message of one sender\<close>

text \<open>The specification on lists: the first element with the property, and the rest in order.\<close>

primrec extract_first :: "('a \<Rightarrow> bool) \<Rightarrow> 'a list \<Rightarrow> 'a option \<times> 'a list" where
  "extract_first P [] = (None, [])"
| "extract_first P (x # xs) =
    (if P x then (Some x, xs) else (let (r, ys) = extract_first P xs in (r, x # ys)))"

lemma extract_first_None: "(\<And>x. x \<in> set xs \<Longrightarrow> \<not> P x) \<Longrightarrow> extract_first P xs = (None, xs)"
  by (induction xs) auto

lemma extract_first_at:
  "i < length xs \<Longrightarrow> P (xs ! i) \<Longrightarrow> (\<And>j. j < i \<Longrightarrow> \<not> P (xs ! j)) \<Longrightarrow>
   extract_first P xs = (Some (xs ! i), take i xs @ drop (Suc i) xs)"
proof (induction xs arbitrary: i)
  case (Cons x xs)
  show ?case
  proof (cases i)
    case (Suc k)
    have "\<not> P (xs ! j)" if "j < k" for j using Cons.prems(3) [of "Suc j"] that Suc by simp
    moreover have "\<not> P x" using Cons.prems(3) [of 0] Suc by simp
    ultimately show ?thesis using Cons.IH [of k] Cons.prems Suc by simp
  qed (use Cons.prems in simp)
qed simp

lemma extract_first_split:
  "extract_first P zs = (r, zs') \<Longrightarrow>
   (case r of None \<Rightarrow> zs' = zs \<and> (\<forall>m\<in>set zs. \<not> P m)
    | Some m \<Rightarrow> P m \<and> (\<exists>xs ys. zs = xs @ m # ys \<and> zs' = xs @ ys \<and> (\<forall>x\<in>set xs. \<not> P x)))"
proof (induction zs arbitrary: zs')
  case (Cons z zs)
  show ?case
  proof (cases "P z")
    case True
    then have "r = Some z" "z # zs = [] @ z # zs'" "zs' = [] @ zs'" using Cons.prems by simp_all
    then show ?thesis using True by fastforce
  next
    case False
    then obtain w where w: "extract_first P zs = (r, w)" "zs' = z # w"
      using Cons.prems by (auto split: prod.splits)
    show ?thesis
    proof (cases r)
      case (Some m)
      then obtain xs ys where "P m" "zs = xs @ m # ys" "w = xs @ ys" "\<forall>x\<in>set xs. \<not> P x"
        using Cons.IH [OF w(1)] by auto
      then have "P m" "z # zs = (z # xs) @ m # ys" "zs' = (z # xs) @ ys" "\<forall>x\<in>set (z # xs). \<not> P x"
        using w False by simp_all
      then show ?thesis unfolding Some by (simp only: option.case) blast
    qed (use Cons.IH [OF w(1)] w False in simp)
  qed
qed auto

lemma shift_back_view:
  assumes "length s = QUEUE_DEPTH" "stop < QUEUE_DEPTH"
  shows "length (shift_back h j stop s) = QUEUE_DEPTH \<and>
    (\<forall>k < stop. shift_back h j stop s ! ring_idx h k =
      (if k < j then s ! ring_idx h k else s ! ring_idx h (Suc k)))"
  using assms
proof (induction h j stop s rule: shift_back.induct)
  case (1 h j stop s)
  show ?case
  proof (cases "j < stop")
    case True
    define s' where "s' = (s[ring_idx h (j + 1) := None])[ring_idx h j := s ! ring_idx h (j + 1)]"
    have step: "shift_back h j stop s = shift_back h (j + 1) stop s'"
      using True by (subst shift_back.simps) (simp add: Let_def s'_def)
    have ih: "length (shift_back h (j + 1) stop s') = QUEUE_DEPTH \<and>
      (\<forall>k < stop. shift_back h (j + 1) stop s' ! ring_idx h k =
        (if k < j + 1 then s' ! ring_idx h k else s' ! ring_idx h (Suc k)))"
      by (rule "1.IH" [OF True refl refl, folded s'_def]) (use "1.prems" in \<open>simp_all add: s'_def\<close>)
    have view: "s' ! ring_idx h k = (if k = j then s ! ring_idx h (j + 1)
        else if k = j + 1 then None else s ! ring_idx h k)" if k: "k < QUEUE_DEPTH" for k
    proof -
      have "j < QUEUE_DEPTH" "j + 1 < QUEUE_DEPTH" using True "1.prems" by simp_all
      then have "ring_idx h j = ring_idx h k \<longleftrightarrow> k = j" "ring_idx h (j + 1) = ring_idx h k \<longleftrightarrow> k = j + 1"
        using ring_idx_inj k by metis+
      then show ?thesis
        unfolding s'_def nth_update_cases by (simp add: "1.prems")
    qed
    have "shift_back h (j + 1) stop s' ! ring_idx h k =
        (if k < j then s ! ring_idx h k else s ! ring_idx h (Suc k))" if "k < stop" for k
    proof -
      have "k < QUEUE_DEPTH" "Suc k < QUEUE_DEPTH" using that "1.prems"(2) by simp_all
      then show ?thesis using ih that view [of k] view [of "Suc k"]
        by (cases k j rule: linorder_cases) simp_all
    qed
    then show ?thesis unfolding step using ih by blast
  qed (use "1.prems" in \<open>simp add: shift_back.simps\<close>)
qed

lemma dequeue_matching_refines:
  assumes wf: "MessageQueue_wf q"
  shows "MessageQueue_wf (snd (dequeue_matching ep q))
    \<and> extract_first (\<lambda>m. sender_ep m = ep) (queue_list q)
      = (fst (dequeue_matching ep q), queue_list (snd (dequeue_matching ep q)))"
proof (cases "scan (\<lambda>i. case q_slots q ! ring_idx (q_head q) i of
                  Some m \<Rightarrow> sender_ep m = ep | None \<Rightarrow> False) 0 (q_len q)")
  case None
  then have "\<not> sender_ep m = ep" if "m \<in> set (queue_list q)" for m
    using that wf_slot [OF wf] by (auto simp: scan_None in_set_conv_nth)
  then have "extract_first (\<lambda>m. sender_ep m = ep) (queue_list q) = (None, queue_list q)"
    by (rule extract_first_None)
  then show ?thesis using None wf by (simp add: dequeue_matching_def)
next
  case (Some i)
  have i: "i < q_len q" and mi: "sender_ep (queue_list q ! i) = ep"
    and mj: "\<And>j. j < i \<Longrightarrow> \<not> sender_ep (queue_list q ! j) = ep"
    using scan_SomeD [OF Some] wf_slot [OF wf] by fastforce+
  have len: "q_len q \<le> QUEUE_DEPTH" "length (q_slots q) = QUEUE_DEPTH" "q_head q < QUEUE_DEPTH"
    using wf by (simp_all add: MessageQueue_wf_def)
  define s where "s = (q_slots q)[ring_idx (q_head q) i := None]"
  define q' where "q' = q\<lparr>q_slots := shift_back (q_head q) i (q_len q - 1) s, q_len := q_len q - 1\<rparr>"
  have dm: "dequeue_matching ep q = (Some (queue_list q ! i), q')"
    using Some wf_slot [OF wf i]
    by (simp add: dequeue_matching_def Let_def q'_def s_def)
  have view: "s ! ring_idx (q_head q) k = Some (queue_list q ! k)" if "k < q_len q" "k \<noteq> i" for k
    using that wf_slot [OF wf, of k] ring_idx_inj [of k i "q_head q"] i len
    by (simp add: s_def)
  have sb: "length (shift_back (q_head q) i (q_len q - 1) s) = QUEUE_DEPTH"
    "\<And>k. k < q_len q - 1 \<Longrightarrow> shift_back (q_head q) i (q_len q - 1) s ! ring_idx (q_head q) k =
      (if k < i then s ! ring_idx (q_head q) k else s ! ring_idx (q_head q) (Suc k))"
    using shift_back_view [of s "q_len q - 1" "q_head q" i] len i by (auto simp: s_def)
  have "MessageQueue_wf q' \<and> queue_list q' = take i (queue_list q) @ drop (Suc i) (queue_list q)"
  proof (rule wfI_list)
    fix k assume "k < length (take i (queue_list q) @ drop (Suc i) (queue_list q))"
    then have k: "k < q_len q - 1" using i by simp
    then show "q_slots q' ! ring_idx (q_head q') k
        = Some ((take i (queue_list q) @ drop (Suc i) (queue_list q)) ! k)"
      using sb(2) [OF k] view [of k] view [of "Suc k"] i
      by (auto simp: q'_def nth_append)
  qed (use len i sb(1) in \<open>auto simp: q'_def\<close>)
  then show ?thesis
    using dm extract_first_at [of i "queue_list q" "\<lambda>m. sender_ep m = ep"] i mi mj by simp
qed

lemma dequeue_matching_None:
  assumes "MessageQueue_wf q" "dequeue_matching ep q = (None, q')"
  shows "q' = q"
  using assms(2) wf_slot [OF assms(1)] scan_SomeD
  by (fastforce simp: dequeue_matching_def Let_def split: option.splits)

section \<open>Draining\<close>

lemma drain_spec:
  "MessageQueue_wf q \<Longrightarrow> MessageQueue_wf (drain q) \<and> queue_list (drain q) = []"
proof (induction q rule: drain.induct)
  case (1 q)
  show ?case
  proof (cases "queue_list q")
    case Nil
    then show ?thesis
      using msg_queue.deq_empty [OF "1.prems" Nil] "1.prems" by (simp add: drain.simps [of q])
  next
    case (Cons m ms)
    obtain q' where d: "dequeue q = (Some m, q')" and wf': "MessageQueue_wf q'"
      using msg_queue.deq_cons [OF "1.prems" Cons] by blast
    then show ?thesis using "1.IH" [OF d [symmetric] refl wf'] by (simp add: drain.simps [of q])
  qed
qed

section \<open>Properties of messages and queues\<close>

text \<open>
  A payload of at most 4096 bytes is stored and read back unchanged, and the message
  carries no capability, no badge and no sender; a longer one is refused.
\<close>

theorem Message_new_roundtrip:
  "case Message_new p of
     Inl e \<Rightarrow> e = MessageTooLarge \<and> 4096 < length p
   | Inr m \<Rightarrow> length p \<le> 4096 \<and> payload_bytes m = p \<and> Message_wf m \<and> badge_id m = 0
       \<and> sender_ep m = 0 \<and> set (caps m) = {None}"
  by (simp add: Message_new_def payload_bytes_def Message_wf_def MAX_MESSAGE_SIZE_def
      MAX_EMBEDDED_CAPS_def)

text \<open>
  C17: the 16-slot ring buffer is a bounded FIFO: from any well-formed queue a message is
  accepted exactly when fewer than 16 wait and then comes last, and the message taken out
  is the one that has waited longest, the others keeping their order.
\<close>

theorem queue_refines_fifo:
  assumes "MessageQueue_wf q"
  shows "(case enqueue m q of
            Inl m' \<Rightarrow> m' = m \<and> length (queue_list q) = 16
          | Inr q' \<Rightarrow> length (queue_list q) < 16 \<and> MessageQueue_wf q'
              \<and> queue_list q' = queue_list q @ [m])
    \<and> (case dequeue q of
          (None, q') \<Rightarrow> q' = q \<and> queue_list q = []
        | (Some m', q') \<Rightarrow> MessageQueue_wf q' \<and> queue_list q = m' # queue_list q')"
proof
  have b: "length (queue_list q) \<le> 16"
    using msg_queue.abs_bounded [OF assms] by (simp add: QUEUE_DEPTH_def)
  show "case enqueue m q of Inl m' \<Rightarrow> m' = m \<and> length (queue_list q) = 16
      | Inr q' \<Rightarrow> length (queue_list q) < 16 \<and> MessageQueue_wf q' \<and> queue_list q' = queue_list q @ [m]"
    using msg_queue.enq_full [OF assms, of m] msg_queue.enq_room [OF assms, of m] b
    by (cases "length (queue_list q) = 16") (auto simp: QUEUE_DEPTH_def)
  show "case dequeue q of (None, q') \<Rightarrow> q' = q \<and> queue_list q = []
      | (Some m', q') \<Rightarrow> MessageQueue_wf q' \<and> queue_list q = m' # queue_list q'"
    using msg_queue.deq_empty [OF assms] msg_queue.deq_cons [OF assms]
    by (cases "queue_list q") fastforce+
qed

theorem queue_refines_fifo_witness:
  "\<exists>q'. enqueue (interrupt_event 1) MessageQueue_new = Inr q' \<and> queue_list q' = [interrupt_event 1]"
  using queue_refines_fifo [OF new_wf(1), of "interrupt_event 1"]
  by (auto split: sum.splits)

text \<open>
  C23: taking the reply of one sender (\<open>dequeue_matching\<close>) returns the oldest waiting message
  of that sender, if there is one, and leaves all other messages waiting in arrival order.
\<close>

theorem dequeue_matching_correct:
  assumes "MessageQueue_wf q" and "dequeue_matching ep q = (r, q')"
  shows "MessageQueue_wf q'
    \<and> (case r of
         None \<Rightarrow> q' = q \<and> (\<forall>m\<in>set (queue_list q). sender_ep m \<noteq> ep)
       | Some m \<Rightarrow> sender_ep m = ep \<and>
          (\<exists>xs ys. queue_list q = xs @ m # ys \<and> queue_list q' = xs @ ys
             \<and> (\<forall>x\<in>set xs. sender_ep x \<noteq> ep)))"
proof -
  have "r = None \<Longrightarrow> q' = q" using dequeue_matching_None assms by blast
  then show ?thesis
    using extract_first_split [of "\<lambda>m. sender_ep m = ep" "queue_list q" r "queue_list q'"]
      dequeue_matching_refines [OF assms(1), of ep] assms(2)
    by (cases r) auto
qed

text \<open>A queue in which a message of endpoint 5 waits before one of endpoint 7.\<close>

definition wit_msg :: "EndpointId \<Rightarrow> Message" where
  "wit_msg ep = (interrupt_event 1)\<lparr>sender_ep := ep\<rparr>"

definition wit_queue :: MessageQueue where
  "wit_queue = \<lparr>q_slots = (replicate QUEUE_DEPTH None)[0 := Some (wit_msg 5), 1 := Some (wit_msg 7)],
    q_head = 0, q_len = 2\<rparr>"

lemma wit_queue_wf: "MessageQueue_wf wit_queue" "queue_list wit_queue = [wit_msg 5, wit_msg 7]"
proof -
  have "q_slots wit_queue ! ring_idx (q_head wit_queue) i = Some ([wit_msg 5, wit_msg 7] ! i)"
    if "i < 2" for i
    using that by (auto simp: wit_queue_def ring_idx_def QUEUE_DEPTH_def less_2_cases_iff)
  then have "MessageQueue_wf wit_queue \<and> queue_list wit_queue = [wit_msg 5, wit_msg 7]"
    by (intro wfI_list) (simp_all add: wit_queue_def QUEUE_DEPTH_def)
  then show "MessageQueue_wf wit_queue" "queue_list wit_queue = [wit_msg 5, wit_msg 7]" by simp_all
qed

theorem dequeue_matching_correct_witness:
  "\<exists>q'. dequeue_matching 7 wit_queue = (Some (wit_msg 7), q') \<and> queue_list q' = [wit_msg 5]"
proof -
  obtain r q' where d: "dequeue_matching 7 wit_queue = (r, q')" by fastforce
  show ?thesis
    using dequeue_matching_correct [OF wit_queue_wf(1) d] d
    by (cases r) (auto simp: wit_queue_wf(2) wit_msg_def append_eq_Cons_conv Cons_eq_append_conv)
qed

text \<open>
  Draining an endpoint's queue when the endpoint dies always ends, and leaves a
  well-formed queue with no message in it.
\<close>

theorem drain_empties:
  assumes "MessageQueue_wf q"
  shows "MessageQueue_wf (drain q) \<and> is_empty (drain q) \<and> queue_list (drain q) = []"
  using drain_spec [OF assms] length_queue_list [of "drain q"] by (simp add: is_empty_def)

theorem drain_empties_witness: "queue_list (drain wit_queue) = []"
  using drain_empties [OF wit_queue_wf(1)] by simp

end
