(* ===== verification/Task_State.thy ===== *)
theory Task_State
  imports Interfaces
begin

text \<open>
  Task life-cycle states (\<open>kernel/src/task/state.rs\<close>) and the size of the task table
  (\<open>kernel/src/task/scheduler.rs\<close>). The state is stored in an \<open>AtomicU8\<close>: encoding and
  decoding are inverse, and every byte decodes, unknown ones to \<open>Dead\<close>.
\<close>

definition MAX_TASKS :: nat where "MAX_TASKS = 224"

datatype TaskState = Ready | Running | BlockedOnRecv | BlockedOnSend | TaskDead

definition TaskState_to_u8 :: "TaskState \<Rightarrow> u8" where
  "TaskState_to_u8 s = (case s of
     Ready \<Rightarrow> 0 | Running \<Rightarrow> 1 | BlockedOnRecv \<Rightarrow> 2 | BlockedOnSend \<Rightarrow> 3 | TaskDead \<Rightarrow> 4)"

definition TaskState_from_u8 :: "u8 \<Rightarrow> TaskState" where
  "TaskState_from_u8 v =
    (if v = 0 then Ready else if v = 1 then Running else if v = 2 then BlockedOnRecv
     else if v = 3 then BlockedOnSend else TaskDead)"

lemma TaskState_roundtrip [simp]: "TaskState_from_u8 (TaskState_to_u8 s) = s"
  by (cases s) (simp_all add: TaskState_to_u8_def TaskState_from_u8_def)

end
