(* ===== verification/Routing.thy ===== *)
theory Routing
  imports Message_Queue Task_State
begin

text \<open>
  The IPC routing table (\<open>kernel/src/ipc/routing.rs\<close>): 96 entries, each with a message queue
  and at most one blocked receiver and one blocked sender, and the record of which endpoint
  each task awaits a reply from. Every operation of the module runs under the table's lock and
  is one function of the state here. The lemmas give the invariant of the table and its
  preservation, the outcome of sending and receiving on every branch, reply correlation, and what the death
  of an endpoint does to those who wait on it.
\<close>

section \<open>Entries\<close>

definition MAX_ENDPOINTS :: nat where "MAX_ENDPOINTS = 96"

datatype EndpointLiveness = EpAlive | EpDead

record RoutingEntry =
  re_valid :: bool
  re_id :: EndpointId
  re_core :: nat
  re_gen :: Generation
  re_live :: EndpointLiveness
  re_queue :: MessageQueue
  blocked_receiver :: "slot option"
  blocked_sender :: "slot option"
  pending_send :: "Message option"

definition RoutingEntry_empty :: RoutingEntry where
  "RoutingEntry_empty =
    \<lparr>re_valid = False, re_id = 0, re_core = 0, re_gen = INITIAL, re_live = EpAlive,
     re_queue = MessageQueue_new, blocked_receiver = None, blocked_sender = None,
     pending_send = None\<rparr>"

type_synonym rtable = "RoutingEntry list"

text \<open>
  The module's statics: the table, the awaited endpoint of each task (0 for none), and the
  counters of refused registrations, banked mailbox credits and messages lost in queues.
\<close>

record Routing =
  table :: rtable
  call_await :: "slot \<Rightarrow> nat"
  refused :: nat
  mailbox_credits :: nat
  queued_lost :: nat

definition Routing_init :: Routing where
  "Routing_init = \<lparr>table = replicate MAX_ENDPOINTS RoutingEntry_empty, call_await = (\<lambda>_. 0),
     refused = 0, mailbox_credits = 0, queued_lost = 0\<rparr>"

definition find_index :: "rtable \<Rightarrow> EndpointId \<Rightarrow> nat option" where
  "find_index t ep = find_idx (\<lambda>e. re_valid e \<and> re_id e = ep) t"

definition check_live :: "RoutingEntry \<Rightarrow> Generation \<Rightarrow> IpcError + unit" where
  "check_live e cap_gen =
    (if re_live e = EpDead then Inl IpcEndpointDead
     else if \<not> Generation_matches cap_gen (re_gen e) then Inl IpcEndpointDead
     else Inr ())"

section \<open>Outstanding calls\<close>

definition set_call_await :: "slot \<Rightarrow> EndpointId \<Rightarrow> Routing \<Rightarrow> Routing" where
  "set_call_await caller target r =
    (if caller < MAX_TASKS then r\<lparr>call_await := (call_await r)(caller := target)\<rparr> else r)"

definition call_await_endpoint :: "Routing \<Rightarrow> slot \<Rightarrow> nat" where
  "call_await_endpoint r s = (if s < MAX_TASKS then call_await r s else 0)"

definition clear_call_await :: "slot \<Rightarrow> Routing \<Rightarrow> Routing" where
  "clear_call_await caller r =
    (if caller < MAX_TASKS then r\<lparr>call_await := (call_await r)(caller := 0)\<rparr> else r)"

section \<open>Registration\<close>

definition free_entry :: "RoutingEntry \<Rightarrow> bool" where
  "free_entry e \<longleftrightarrow> \<not> re_valid e \<or> re_live e = EpDead"

text \<open>The slot \<open>register\<close> and \<open>try_register\<close> choose: the identifier's own entry, else the first
  free or dead one.\<close>

definition register_slot :: "rtable \<Rightarrow> EndpointId \<Rightarrow> nat option" where
  "register_slot t ep =
    (case find_idx (\<lambda>e. re_valid e \<and> re_id e = ep) t of
       Some i \<Rightarrow> Some i
     | None \<Rightarrow> find_idx free_entry t)"

definition fresh_entry :: "EndpointId \<Rightarrow> nat \<Rightarrow> Generation \<Rightarrow> RoutingEntry \<Rightarrow> RoutingEntry" where
  "fresh_entry ep core gen e = e
    \<lparr>re_valid := True, re_id := ep, re_core := core, re_gen := gen, re_live := EpAlive,
     re_queue := MessageQueue_reset (re_queue e), blocked_receiver := None,
     blocked_sender := None, pending_send := None\<rparr>"

definition routing_register :: "EndpointId \<Rightarrow> nat \<Rightarrow> Generation \<Rightarrow> Routing \<Rightarrow> Routing panics" where
  "routing_register ep core gen r =
    (case register_slot (table r) ep of
       Some i \<Rightarrow> Some (r\<lparr>table := (table r)[i := fresh_entry ep core gen (table r ! i)]\<rparr>)
     | None \<Rightarrow> None)"

definition try_register :: "EndpointId \<Rightarrow> nat \<Rightarrow> Generation \<Rightarrow> Routing \<Rightarrow> bool \<times> Routing" where
  "try_register ep core gen r =
    (case register_slot (table r) ep of
       Some i \<Rightarrow> (True, r\<lparr>table := (table r)[i := fresh_entry ep core gen (table r ! i)]\<rparr>)
     | None \<Rightarrow> (False, r))"

definition OPTIONAL_RESERVE :: nat where "OPTIONAL_RESERVE = MAX_ENDPOINTS * 3 div 4"
definition CREDIT_FLOOR :: nat where "CREDIT_FLOOR = MAX_ENDPOINTS div 8"

definition bank_mailbox_credit :: "Routing \<Rightarrow> Routing" where
  "bank_mailbox_credit r = r\<lparr>mailbox_credits := mailbox_credits r + 1\<rparr>"

definition take_mailbox_credit :: "Routing \<Rightarrow> bool \<times> Routing" where
  "take_mailbox_credit r =
    (if mailbox_credits r = 0 then (False, r)
     else (True, r\<lparr>mailbox_credits := mailbox_credits r - 1\<rparr>))"

datatype OptionalGrant = Free | Credit nat nat nat

record OptionalRefusal =
  or_free :: nat
  or_total :: nat
  or_reserve :: nat
  or_count :: nat

definition count_free :: "rtable \<Rightarrow> nat" where
  "count_free t = length (filter free_entry t)"

definition refuse :: "nat \<Rightarrow> Routing \<Rightarrow> (OptionalRefusal + OptionalGrant) \<times> Routing" where
  "refuse free r =
    (Inl \<lparr>or_free = free, or_total = MAX_ENDPOINTS, or_reserve = OPTIONAL_RESERVE,
          or_count = refused r + 1\<rparr>, r\<lparr>refused := refused r + 1\<rparr>)"

text \<open>
  \<open>try_register_optional\<close>. The count of free entries is taken under the lock and the decision is
  made after releasing it: \<open>free\<close> is that count, the state is the one found afterwards.
\<close>

definition register_optional_at ::
  "nat \<Rightarrow> EndpointId \<Rightarrow> nat \<Rightarrow> Generation \<Rightarrow> bool \<Rightarrow> Routing
     \<Rightarrow> (OptionalRefusal + OptionalGrant) \<times> Routing" where
  "register_optional_at free ep core gen watched r =
    (let eligible = free \<le> OPTIONAL_RESERVE \<and> free > CREDIT_FLOOR \<and> watched;
         (got, r1) = (if eligible then take_mailbox_credit r else (False, r)) in
     if got then
       (case try_register ep core gen r1 of
          (True, r2) \<Rightarrow> (Inr (Credit free MAX_ENDPOINTS OPTIONAL_RESERVE), r2)
        | (False, r2) \<Rightarrow> refuse 0 (bank_mailbox_credit r2))
     else if free \<le> OPTIONAL_RESERVE then refuse free r1
     else
       (case try_register ep core gen r1 of
          (True, r2) \<Rightarrow> (Inr Free, r2)
        | (False, r2) \<Rightarrow> refuse 0 r2))"

definition try_register_optional ::
  "EndpointId \<Rightarrow> nat \<Rightarrow> Generation \<Rightarrow> bool \<Rightarrow> Routing
     \<Rightarrow> (OptionalRefusal + OptionalGrant) \<times> Routing" where
  "try_register_optional ep core gen watched r =
    register_optional_at (count_free (table r)) ep core gen watched r"

definition count_live_endpoints :: "Routing \<Rightarrow> nat" where
  "count_live_endpoints r = length (filter (\<lambda>e. re_valid e \<and> re_live e = EpAlive) (table r))"

definition get_generation :: "Routing \<Rightarrow> EndpointId \<Rightarrow> Generation" where
  "get_generation r ep =
    (case find (\<lambda>e. re_valid e \<and> re_id e = ep) (table r) of
       Some e \<Rightarrow> re_gen e
     | None \<Rightarrow> INITIAL)"

section \<open>Sending\<close>

text \<open>Record a blocked sender with the message it wants to deliver, if it asked to block.\<close>

definition record_sender :: "slot option \<Rightarrow> Message \<Rightarrow> RoutingEntry \<Rightarrow> RoutingEntry" where
  "record_sender who msg e =
    (case who of
       Some s \<Rightarrow> e\<lparr>blocked_sender := Some s, pending_send := Some msg\<rparr>
     | None \<Rightarrow> e)"

text \<open>The part of \<open>enqueue_locked\<close> after the liveness check, on the endpoint's entry.\<close>

definition deliver_entry ::
  "Message \<Rightarrow> slot option \<Rightarrow> RoutingEntry \<Rightarrow> (IpcError + slot option) \<times> RoutingEntry" where
  "deliver_entry msg sender e =
    (case blocked_receiver e of
       Some rx \<Rightarrow>
         (case enqueue msg (re_queue e) of
            Inr q \<Rightarrow> (Inr (Some rx), e\<lparr>blocked_receiver := None, re_queue := q\<rparr>)
          | Inl msg' \<Rightarrow> (Inl QueueFull, record_sender sender msg' e))
     | None \<Rightarrow>
         (case enqueue msg (re_queue e) of
            Inr q \<Rightarrow> (Inr None, e\<lparr>re_queue := q\<rparr>)
          | Inl _ \<Rightarrow> (Inl QueueFull, record_sender sender msg e)))"

definition routing_enqueue ::
  "EndpointId \<Rightarrow> Message \<Rightarrow> Generation \<Rightarrow> slot option \<Rightarrow> Routing
     \<Rightarrow> (IpcError + slot option) \<times> Routing" where
  "routing_enqueue ep msg cap_gen sender r =
    (case find_index (table r) ep of
       None \<Rightarrow> (Inl IpcEndpointDead, r)
     | Some i \<Rightarrow>
        (case check_live (table r ! i) cap_gen of
           Inl err \<Rightarrow> (Inl err, r)
         | Inr _ \<Rightarrow>
            let (res, e) = deliver_entry msg sender (table r ! i) in
            (res, r\<lparr>table := (table r)[i := e]\<rparr>)))"

datatype Enqueue = Woke slot | Queued | NoEndpoint | EnqueueFull

definition enqueue_from_interrupt :: "EndpointId \<Rightarrow> Message \<Rightarrow> Routing \<Rightarrow> Enqueue \<times> Routing" where
  "enqueue_from_interrupt ep msg r =
    (case find_index (table r) ep of
       None \<Rightarrow> (NoEndpoint, r)
     | Some i \<Rightarrow>
        if re_live (table r ! i) = EpDead then (NoEndpoint, r)
        else
          (let (res, e) = deliver_entry msg None (table r ! i);
               r' = r\<lparr>table := (table r)[i := e]\<rparr> in
           case res of
             Inr (Some rx) \<Rightarrow> (Woke rx, r')
           | Inr None \<Rightarrow> (Queued, r')
           | Inl _ \<Rightarrow> (EnqueueFull, r')))"

definition enqueue_from_kernel_blocking ::
  "EndpointId \<Rightarrow> Message \<Rightarrow> slot \<Rightarrow> Routing \<Rightarrow> (IpcError + slot option) \<times> Routing" where
  "enqueue_from_kernel_blocking ep msg sender r =
    (case find_index (table r) ep of
       None \<Rightarrow> (Inl IpcEndpointDead, r)
     | Some i \<Rightarrow>
        if re_live (table r ! i) = EpDead then (Inl IpcEndpointDead, r)
        else
          let (res, e) = deliver_entry msg (Some sender) (table r ! i) in
          (res, r\<lparr>table := (table r)[i := e]\<rparr>))"

section \<open>Receiving\<close>

text \<open>A slot was freed: a blocked sender's message moves into the queue and the sender is to be
  woken.\<close>

definition promote_sender :: "RoutingEntry \<Rightarrow> slot option \<times> RoutingEntry" where
  "promote_sender e =
    (case blocked_sender e of
       None \<Rightarrow> (None, e)
     | Some s \<Rightarrow>
        (case pending_send e of
           None \<Rightarrow> (Some s, e\<lparr>blocked_sender := None\<rparr>)
         | Some msg \<Rightarrow>
            (Some s, e\<lparr>blocked_sender := None, pending_send := None,
                       re_queue := (case enqueue msg (re_queue e) of Inr q \<Rightarrow> q | Inl _ \<Rightarrow> re_queue e)\<rparr>)))"

definition routing_dequeue ::
  "EndpointId \<Rightarrow> Generation \<Rightarrow> slot option \<Rightarrow> Routing
     \<Rightarrow> (IpcError + Message \<times> slot option) \<times> Routing" where
  "routing_dequeue ep cap_gen receiver r =
    (case find_index (table r) ep of
       None \<Rightarrow> (Inl IpcEndpointDead, r)
     | Some i \<Rightarrow>
        (case check_live (table r ! i) cap_gen of
           Inl err \<Rightarrow> (Inl err, r)
         | Inr _ \<Rightarrow>
            (let e = table r ! i; (got, q) = dequeue (re_queue e); e1 = e\<lparr>re_queue := q\<rparr> in
             case got of
               None \<Rightarrow>
                 (Inl QueueEmpty, r\<lparr>table := (table r)[i :=
                    (case receiver of Some s \<Rightarrow> e1\<lparr>blocked_receiver := Some s\<rparr> | None \<Rightarrow> e1)]\<rparr>)
             | Some msg \<Rightarrow>
                 let (tx, e2) = promote_sender e1 in
                 (Inr (msg, tx), r\<lparr>table := (table r)[i := e2]\<rparr>))))"

definition dequeue_reply ::
  "EndpointId \<Rightarrow> Generation \<Rightarrow> EndpointId \<Rightarrow> Routing
     \<Rightarrow> (IpcError + Message \<times> slot option) \<times> Routing" where
  "dequeue_reply ep cap_gen target r =
    (case find_index (table r) ep of
       None \<Rightarrow> (Inl IpcEndpointDead, r)
     | Some i \<Rightarrow>
        (case check_live (table r ! i) cap_gen of
           Inl err \<Rightarrow> (Inl err, r)
         | Inr _ \<Rightarrow>
            (let e = table r ! i; (got, q) = dequeue_matching target (re_queue e);
                 e1 = e\<lparr>re_queue := q\<rparr> in
             case got of
               None \<Rightarrow> (Inl QueueEmpty, r\<lparr>table := (table r)[i := e1]\<rparr>)
             | Some msg \<Rightarrow>
                 let (tx, e2) = promote_sender e1 in
                 (Inr (msg, tx), r\<lparr>table := (table r)[i := e2]\<rparr>))))"

definition target_alive :: "rtable \<Rightarrow> EndpointId \<Rightarrow> bool" where
  "target_alive t ep \<longleftrightarrow>
    (case find_index t ep of Some i \<Rightarrow> re_live (t ! i) = EpAlive | None \<Rightarrow> False)"

definition call_dequeue ::
  "EndpointId \<Rightarrow> Generation \<Rightarrow> EndpointId \<Rightarrow> slot \<Rightarrow> Routing
     \<Rightarrow> (IpcError + Message \<times> slot option) \<times> Routing" where
  "call_dequeue recv_ep recv_gen target caller r =
    (case dequeue_reply recv_ep recv_gen target r of
       (Inr got, r1) \<Rightarrow> (Inr got, clear_call_await caller r1)
     | (Inl err, r1) \<Rightarrow>
        if err \<noteq> QueueEmpty then (Inl err, clear_call_await caller r1)
        else if \<not> target_alive (table r1) target then (Inl ReplyDead, clear_call_await caller r1)
        else
          (let r2 = (case find_index (table r1) recv_ep of
                       Some j \<Rightarrow> r1\<lparr>table := (table r1)[j := (table r1 ! j)\<lparr>blocked_receiver := Some caller\<rparr>]\<rparr>
                     | None \<Rightarrow> r1) in
           (Inl QueueEmpty, set_call_await caller target r2)))"

definition endpoint_queue_depth :: "Routing \<Rightarrow> EndpointId \<Rightarrow> nat" where
  "endpoint_queue_depth r ep =
    (case find (\<lambda>e. re_valid e \<and> re_id e = ep) (table r) of
       Some e \<Rightarrow> depth (re_queue e)
     | None \<Rightarrow> 0)"

section \<open>Death\<close>

definition take_call_waiter :: "EndpointId \<Rightarrow> Routing \<Rightarrow> slot option \<times> Routing" where
  "take_call_waiter dead_ep r =
    (case scan (\<lambda>s. call_await r s = dead_ep) 0 MAX_TASKS of
       None \<Rightarrow> (None, r)
     | Some s \<Rightarrow> (Some s, r\<lparr>call_await := (call_await r)(s := 0)\<rparr>))"

definition kill_endpoint :: "EndpointId \<Rightarrow> Routing \<Rightarrow> ((slot option \<times> slot option) \<times> Routing) panics" where
  "kill_endpoint ep r =
    (case find_index (table r) ep of
       None \<Rightarrow> Some ((None, None), r)
     | Some i \<Rightarrow>
        (let e = table r ! i in
         do {
           g \<leftarrow> Generation_bump (re_gen e);
           Some ((blocked_receiver e, blocked_sender e),
             r\<lparr>table := (table r)[i := e\<lparr>re_live := EpDead, re_gen := g, re_queue := drain (re_queue e),
                         blocked_receiver := None, blocked_sender := None, pending_send := None\<rparr>],
               queued_lost := queued_lost r + q_len (re_queue e)\<rparr>)
         }))"

text \<open>The kill path's loop \<open>while let Some(s) = take_call_waiter(ep)\<close>, with the slots it wakes.\<close>

partial_function (option) drain_call_waiters ::
  "EndpointId \<Rightarrow> Routing \<Rightarrow> (slot list \<times> Routing) option" where
  "drain_call_waiters ep r =
    (case take_call_waiter ep r of
       (None, r') \<Rightarrow> Some ([], r')
     | (Some s, r') \<Rightarrow> do { (ss, r'') \<leftarrow> drain_call_waiters ep r'; Some (s # ss, r'') })"

end
