(* ===== verification/Names.thy ===== *)
theory Names
  imports Interfaces
begin

text \<open>
  The name directory (\<open>kernel/src/ipc/names.rs\<close>): a table of 128 entries from service names
  to endpoint identifiers. An entry's \<open>name[..name_len]\<close>, the only part of the buffer the
  code compares, is a byte list. The lemmas show that at most one name maps to an endpoint and at
  most one endpoint to a name, and what a lookup returns after each operation.
\<close>

type_synonym name_bytes = "u8 list"

definition MAX_ENTRIES :: nat where "MAX_ENTRIES = 128"
definition NAME_MAX :: nat where "NAME_MAX = 128"

record NameEntry =
  valid :: bool
  name :: name_bytes
  endpoint_id :: EndpointId

type_synonym names = "NameEntry list"

definition NameEntry_empty :: NameEntry where
  "NameEntry_empty = \<lparr>valid = False, name = [], endpoint_id = 0\<rparr>"

definition NAMES_init :: names where
  "NAMES_init = replicate MAX_ENTRIES NameEntry_empty"

definition entry_is :: "name_bytes \<Rightarrow> NameEntry \<Rightarrow> bool" where
  "entry_is nm e \<longleftrightarrow> valid e \<and> name e = nm"

text \<open>The eviction pass of \<open>register\<close>: every other name of the endpoint is invalidated.\<close>

definition evict_stale :: "name_bytes \<Rightarrow> EndpointId \<Rightarrow> names \<Rightarrow> names" where
  "evict_stale nm ep ns =
    map (\<lambda>e. if valid e \<and> endpoint_id e = ep \<and> name e \<noteq> nm then e\<lparr>valid := False\<rparr> else e) ns"

definition names_register :: "name_bytes \<Rightarrow> EndpointId \<Rightarrow> names \<Rightarrow> names" where
  "names_register nm ep ns =
    (if length nm > NAME_MAX then ns
     else
       let ns1 = evict_stale nm ep ns in
       case find_idx (entry_is nm) ns1 of
         Some i \<Rightarrow> ns1[i := (ns1 ! i)\<lparr>endpoint_id := ep\<rparr>]
       | None \<Rightarrow>
          (case find_idx (\<lambda>e. \<not> valid e) ns1 of
             Some i \<Rightarrow> ns1[i := \<lparr>valid = True, name = nm, endpoint_id = ep\<rparr>]
           | None \<Rightarrow> ns1))"

definition names_unregister :: "name_bytes \<Rightarrow> names \<Rightarrow> names" where
  "names_unregister nm ns =
    (if length nm > NAME_MAX then ns
     else case find_idx (entry_is nm) ns of
       Some i \<Rightarrow> ns[i := (ns ! i)\<lparr>valid := False\<rparr>]
     | None \<Rightarrow> ns)"

datatype UnregisterOutcome = Cleared | KeptNewer EndpointId | NotFound

definition unregister_endpoint :: "name_bytes \<Rightarrow> EndpointId \<Rightarrow> names \<Rightarrow> UnregisterOutcome \<times> names" where
  "unregister_endpoint nm ep ns =
    (if length nm > NAME_MAX then (NotFound, ns)
     else case find_idx (entry_is nm) ns of
       Some i \<Rightarrow>
         (if endpoint_id (ns ! i) = ep then (Cleared, ns[i := (ns ! i)\<lparr>valid := False\<rparr>])
          else (KeptNewer (endpoint_id (ns ! i)), ns))
     | None \<Rightarrow> (NotFound, ns))"

definition names_lookup :: "names \<Rightarrow> name_bytes \<Rightarrow> EndpointId option" where
  "names_lookup ns nm =
    (if length nm > NAME_MAX then None else map_option endpoint_id (find (entry_is nm) ns))"

section \<open>One name, one endpoint\<close>

text \<open>No two valid entries share a name, and no two share an endpoint.\<close>

definition names_wf :: "names \<Rightarrow> bool" where
  "names_wf ns \<longleftrightarrow> length ns = MAX_ENTRIES
     \<and> (\<forall>i<length ns. valid (ns ! i) \<longrightarrow> length (name (ns ! i)) \<le> NAME_MAX)
     \<and> (\<forall>i<length ns. \<forall>j<length ns. i \<noteq> j \<longrightarrow> valid (ns ! i) \<longrightarrow> valid (ns ! j) \<longrightarrow>
          name (ns ! i) \<noteq> name (ns ! j) \<and> endpoint_id (ns ! i) \<noteq> endpoint_id (ns ! j))"

lemma names_wf_uniq:
  assumes "names_wf ns" "i < length ns" "j < length ns" "entry_is nm (ns ! i)" "entry_is nm (ns ! j)"
  shows "i = j"
  using assms unfolding names_wf_def entry_is_def by metis

lemma NAMES_init_wf: "names_wf NAMES_init"
  by (simp add: names_wf_def NAMES_init_def NameEntry_empty_def)

text \<open>In a well-formed directory a lookup finds the one entry with the name.\<close>

lemma lookup_iff:
  assumes "names_wf ns"
  shows "names_lookup ns nm = Some ep \<longleftrightarrow>
    (\<exists>i<length ns. entry_is nm (ns ! i) \<and> endpoint_id (ns ! i) = ep)"
proof
  assume "names_lookup ns nm = Some ep"
  then obtain e where "find (entry_is nm) ns = Some e" "endpoint_id e = ep"
    by (auto simp: names_lookup_def split: if_splits)
  then show "\<exists>i<length ns. entry_is nm (ns ! i) \<and> endpoint_id (ns ! i) = ep"
    by (auto simp: find_Some_iff)
next
  assume "\<exists>i<length ns. entry_is nm (ns ! i) \<and> endpoint_id (ns ! i) = ep"
  then obtain i where i: "i < length ns" "entry_is nm (ns ! i)" "endpoint_id (ns ! i) = ep" by blast
  then obtain e where e: "find (entry_is nm) ns = Some e"
    by (metis find_None_iff nth_mem option.exhaust)
  then obtain j where "j < length ns" "entry_is nm (ns ! j)" "e = ns ! j"
    by (auto simp: find_Some_iff)
  moreover have "length nm \<le> NAME_MAX"
    using assms i(1,2) unfolding names_wf_def entry_is_def by blast
  ultimately show "names_lookup ns nm = Some ep"
    using names_wf_uniq [OF assms i(1) _ i(2)] i(3) e by (auto simp: names_lookup_def)
qed

lemma lookup_None_iff:
  assumes "names_wf ns"
  shows "names_lookup ns nm = None \<longleftrightarrow> (\<forall>i<length ns. \<not> entry_is nm (ns ! i))"
  using lookup_iff [OF assms, of nm] by (metis not_None_eq)

lemma lookup_Some_find_idx:
  assumes "names_wf ns"
  shows "find_idx (entry_is nm) ns = Some i \<longleftrightarrow> i < length ns \<and> entry_is nm (ns ! i)"
  unfolding find_idx_Some using names_wf_uniq [OF assms] by (metis less_irrefl order.strict_trans)

lemma invalidate_wf:
  assumes "names_wf ns"
  shows "names_wf (ns[i := (ns ! i)\<lparr>valid := False\<rparr>])"
proof (cases "i < length ns")
  case True
  have "valid (ns[i := (ns ! i)\<lparr>valid := False\<rparr>] ! j) \<Longrightarrow>
      j \<noteq> i \<and> ns[i := (ns ! i)\<lparr>valid := False\<rparr>] ! j = ns ! j" if "j < length ns" for j
    using that True by (cases "j = i") auto
  then show ?thesis using assms unfolding names_wf_def by simp metis
qed (use assms in \<open>simp add: list_update_beyond not_less\<close>)

lemma invalidate_lookup:
  assumes "names_wf ns" "i < length ns" "entry_is nm (ns ! i)"
  shows "names_lookup (ns[i := (ns ! i)\<lparr>valid := False\<rparr>]) nm' =
    (if nm' = nm then None else names_lookup ns nm')"
proof -
  let ?ns = "ns[i := (ns ! i)\<lparr>valid := False\<rparr>]"
  have eq: "entry_is k (?ns ! j) \<longleftrightarrow> j \<noteq> i \<and> entry_is k (ns ! j)" if "j < length ns" for j k
    using that assms(2) by (cases "j = i") (auto simp: entry_is_def)
  have "names_lookup ?ns nm' = Some ep \<longleftrightarrow> nm' \<noteq> nm \<and> names_lookup ns nm' = Some ep" for ep
    unfolding lookup_iff [OF invalidate_wf [OF assms(1)]] lookup_iff [OF assms(1)]
    using eq assms names_wf_uniq [OF assms(1)]
    by (auto simp: entry_is_def) (metis nth_list_update_neq)+
  then show ?thesis by (intro option_ext) auto
qed

section \<open>Registration\<close>

lemma evict_length [simp]: "length (evict_stale nm ep ns) = length ns"
  by (simp add: evict_stale_def)

lemma evict_nth:
  "i < length ns \<Longrightarrow> evict_stale nm ep ns ! i =
    (if valid (ns ! i) \<and> endpoint_id (ns ! i) = ep \<and> name (ns ! i) \<noteq> nm
     then (ns ! i)\<lparr>valid := False\<rparr> else ns ! i)"
  by (simp add: evict_stale_def)

lemma evict_valid:
  "i < length ns \<Longrightarrow> valid (evict_stale nm ep ns ! i) \<longleftrightarrow>
    valid (ns ! i) \<and> (endpoint_id (ns ! i) = ep \<longrightarrow> name (ns ! i) = nm)"
  "i < length ns \<Longrightarrow> name (evict_stale nm ep ns ! i) = name (ns ! i)"
  "i < length ns \<Longrightarrow> endpoint_id (evict_stale nm ep ns ! i) = endpoint_id (ns ! i)"
  by (auto simp: evict_nth)

lemma evict_wf [inv_rules]: "names_wf ns \<Longrightarrow> names_wf (evict_stale nm ep ns)"
  unfolding names_wf_def by (simp add: evict_valid)

lemma evict_lookup:
  assumes "names_wf ns"
  shows "names_lookup (evict_stale nm ep ns) k =
    (if k \<noteq> nm \<and> names_lookup ns k = Some ep then None else names_lookup ns k)"
proof -
  have "names_lookup (evict_stale nm ep ns) k = Some x \<longleftrightarrow>
      names_lookup ns k = Some x \<and> (x = ep \<longrightarrow> k = nm)" for x
    unfolding lookup_iff [OF assms] lookup_iff [OF evict_wf [OF assms]] entry_is_def
    by (auto simp: evict_valid)
  then show ?thesis by (intro option_ext) auto
qed

text \<open>Putting an entry with a fresh endpoint at a slot, either over an invalid entry or over the
  entry of the same name.\<close>

lemma put_entry:
  assumes wf: "names_wf ns" and i: "i < length ns" and len: "length nm \<le> NAME_MAX"
    and over: "\<not> valid (ns ! i) \<and> (\<forall>j<length ns. \<not> entry_is nm (ns ! j)) \<or> entry_is nm (ns ! i)"
    and fresh: "\<And>j. j < length ns \<Longrightarrow> j \<noteq> i \<Longrightarrow> valid (ns ! j) \<Longrightarrow> endpoint_id (ns ! j) \<noteq> ep"
  shows "names_wf (ns[i := \<lparr>valid = True, name = nm, endpoint_id = ep\<rparr>])"
    and "names_lookup (ns[i := \<lparr>valid = True, name = nm, endpoint_id = ep\<rparr>]) k =
      (if k = nm then Some ep else names_lookup ns k)"
proof -
  let ?e = "\<lparr>valid = True, name = nm, endpoint_id = ep\<rparr>"
  let ?ns = "ns[i := ?e]"
  have other: "name (ns ! j) \<noteq> nm" if "j < length ns" "j \<noteq> i" "valid (ns ! j)" for j
    using that over wf i unfolding names_wf_def entry_is_def by metis
  have nth: "?ns ! j = (if j = i then ?e else ns ! j)" if "j < length ns" for j
    using that by (simp add: nth_list_update)
  show wf': "names_wf ?ns"
    unfolding names_wf_def
  proof (intro conjI allI impI)
    fix a assume "a < length ?ns" "valid (?ns ! a)"
    then show "length (name (?ns ! a)) \<le> NAME_MAX"
      using nth [of a] len wf unfolding names_wf_def by (cases "a = i") auto
  next
    fix a b assume ab: "a < length ?ns" "b < length ?ns" "a \<noteq> b" "valid (?ns ! a)" "valid (?ns ! b)"
    show "name (?ns ! a) \<noteq> name (?ns ! b)"
      using ab nth [of a] nth [of b] other [of a] other [of b] wf unfolding names_wf_def
      by (cases "a = i"; cases "b = i") auto
    show "endpoint_id (?ns ! a) \<noteq> endpoint_id (?ns ! b)"
      using ab nth [of a] nth [of b] fresh [of a] fresh [of b] wf unfolding names_wf_def
      by (cases "a = i"; cases "b = i") auto
  qed (use wf in \<open>simp add: names_wf_def\<close>)
  have "names_lookup ?ns k = Some x \<longleftrightarrow> (if k = nm then x = ep else names_lookup ns k = Some x)" for x
  proof (cases "k = nm")
    case True
    have "entry_is nm (?ns ! j) \<longleftrightarrow> j = i" if "j < length ns" for j
      using that nth [of j] other [of j] by (cases "j = i") (auto simp: entry_is_def)
    then show ?thesis unfolding lookup_iff [OF wf'] using nth [OF i] i True
      by (auto intro!: exI [of _ i])
  next
    case False
    then have "entry_is k (?ns ! j) \<longleftrightarrow> entry_is k (ns ! j)" if "j < length ns" for j
      using that nth [of j] over by (cases "j = i") (auto simp: entry_is_def)
    moreover have "\<not> entry_is k (ns ! i)" using over False by (auto simp: entry_is_def)
    ultimately have "(\<exists>j<length ?ns. entry_is k (?ns ! j) \<and> endpoint_id (?ns ! j) = x) \<longleftrightarrow>
        (\<exists>j<length ns. entry_is k (ns ! j) \<and> endpoint_id (ns ! j) = x)"
      using nth by (metis length_list_update)
    then show ?thesis unfolding lookup_iff [OF wf'] lookup_iff [OF wf] using False by simp
  qed
  then show "names_lookup ?ns k = (if k = nm then Some ep else names_lookup ns k)"
    by (intro option_ext) auto
qed

text \<open>A registration for which the directory has a slot: the name is there, or some entry is
  free.\<close>

definition names_room :: "names \<Rightarrow> name_bytes \<Rightarrow> bool" where
  "names_room ns nm \<longleftrightarrow> length nm \<le> NAME_MAX \<and>
     (names_lookup ns nm \<noteq> None \<or> list_ex (\<lambda>e. \<not> valid e) ns)"

lemma evicted_fresh:
  assumes "i < length ns" "valid (evict_stale nm ep ns ! i)" "\<not> entry_is nm (evict_stale nm ep ns ! i)"
  shows "endpoint_id (evict_stale nm ep ns ! i) \<noteq> ep"
  using assms by (auto simp: evict_valid entry_is_def)

lemma register_spec:
  assumes wf: "names_wf ns"
  shows "names_wf (names_register nm ep ns)"
    and "names_lookup (names_register nm ep ns) k =
      (if length nm > NAME_MAX then names_lookup ns k
       else if k = nm then
         (if names_lookup ns nm \<noteq> None \<or> list_ex (\<lambda>e. \<not> valid e) (evict_stale nm ep ns)
          then Some ep else None)
       else if names_lookup ns k = Some ep then None
       else names_lookup ns k)"
proof -
  let ?n1 = "evict_stale nm ep ns"
  note wf1 = evict_wf [OF wf, of nm ep]
  have "names_wf (names_register nm ep ns) \<and> names_lookup (names_register nm ep ns) k =
      (if length nm > NAME_MAX then names_lookup ns k
       else if k = nm then
         (if names_lookup ns nm \<noteq> None \<or> list_ex (\<lambda>e. \<not> valid e) ?n1 then Some ep else None)
       else names_lookup ?n1 k)"
  proof (cases "length nm > NAME_MAX")
    case False
    then have len: "length nm \<le> NAME_MAX" by simp
    show ?thesis
    proof (cases "find_idx (entry_is nm) ?n1")
      case (Some i)
      then have i: "i < length ?n1" "entry_is nm (?n1 ! i)" by (auto dest: find_idx_SomeD)
      have e: "(?n1 ! i)\<lparr>endpoint_id := ep\<rparr> = \<lparr>valid = True, name = nm, endpoint_id = ep\<rparr>"
        using i(2) by (cases "?n1 ! i") (auto simp: entry_is_def)
      have fresh: "endpoint_id (?n1 ! j) \<noteq> ep" if "j < length ?n1" "j \<noteq> i" "valid (?n1 ! j)" for j
        using that evicted_fresh [of j ns nm ep] names_wf_uniq [OF wf1 _ i(1) _ i(2), of j] by auto
      have "names_lookup ns nm \<noteq> None"
        using i lookup_None_iff [OF wf1, of nm] evict_lookup [OF wf, of nm ep nm] by auto
      then show ?thesis
        using put_entry [OF wf1 i(1) len _ fresh] i False Some
        by (simp add: names_register_def e)
    next
      case None
      then have none: "\<forall>j<length ?n1. \<not> entry_is nm (?n1 ! j)" by (simp add: find_idx_None all_set_conv_all_nth)
      then have nl: "names_lookup ns nm = None"
        using lookup_None_iff [OF wf1, of nm] evict_lookup [OF wf, of nm ep nm] by simp
      show ?thesis
      proof (cases "find_idx (\<lambda>e. \<not> valid e) ?n1")
        case (Some i)
        then have i: "i < length ?n1" "\<not> valid (?n1 ! i)" by (auto dest: find_idx_SomeD)
        have fresh: "endpoint_id (?n1 ! j) \<noteq> ep" if "j < length ?n1" "j \<noteq> i" "valid (?n1 ! j)" for j
          using that evicted_fresh [of j ns nm ep] none by auto
        have "list_ex (\<lambda>e. \<not> valid e) ?n1" using i by (auto simp: list_ex_length)
        then show ?thesis
          using put_entry [OF wf1 i(1) len _ fresh] i none None Some False
          by (simp add: names_register_def)
      next
        case (None)
        then have "\<not> list_ex (\<lambda>e. \<not> valid e) ?n1" by (simp add: find_idx_None list_ex_iff)
        then show ?thesis
          using None \<open>find_idx (entry_is nm) ?n1 = None\<close> False nl wf1 evict_lookup [OF wf, of nm ep nm]
          by (simp add: names_register_def)
      qed
    qed
  qed (use wf in \<open>simp add: names_register_def\<close>)
  then show "names_wf (names_register nm ep ns)"
    and "names_lookup (names_register nm ep ns) k =
      (if length nm > NAME_MAX then names_lookup ns k
       else if k = nm then
         (if names_lookup ns nm \<noteq> None \<or> list_ex (\<lambda>e. \<not> valid e) ?n1 then Some ep else None)
       else if names_lookup ns k = Some ep then None
       else names_lookup ns k)"
    using evict_lookup [OF wf, of nm ep k] by simp_all
qed

section \<open>Removal\<close>

lemma find_idx_None_lookup:
  "names_wf ns \<Longrightarrow> find_idx (entry_is nm) ns = None \<Longrightarrow> names_lookup ns nm = None"
  by (simp add: lookup_None_iff find_idx_None all_set_conv_all_nth)

lemma too_long_lookup: "NAME_MAX < length nm \<Longrightarrow> names_lookup ns nm = None"
  by (simp add: names_lookup_def)

lemma unregister_spec:
  assumes "names_wf ns"
  shows "names_wf (names_unregister nm ns)"
    and "names_lookup (names_unregister nm ns) k = (if k = nm then None else names_lookup ns k)"
proof -
  have "names_wf (names_unregister nm ns) \<and>
    names_lookup (names_unregister nm ns) k = (if k = nm then None else names_lookup ns k)"
  proof (cases "find_idx (entry_is nm) ns")
    case None
    then show ?thesis using assms find_idx_None_lookup [OF assms None] by (simp add: names_unregister_def)
  next
    case (Some i)
    then have i: "i < length ns" "entry_is nm (ns ! i)" by (auto dest: find_idx_SomeD)
    show ?thesis
      using assms invalidate_wf [OF assms] invalidate_lookup [OF assms i] Some too_long_lookup [of nm ns]
      by (simp add: names_unregister_def)
  qed
  then show "names_wf (names_unregister nm ns)"
    and "names_lookup (names_unregister nm ns) k = (if k = nm then None else names_lookup ns k)"
    by simp_all
qed

lemma unregister_endpoint_wf [inv_rules]: "names_wf ns \<Longrightarrow> names_wf (snd (unregister_endpoint nm ep ns))"
  using invalidate_wf by (auto simp: unregister_endpoint_def split: option.splits)

interpretation name_dir: directory names_wf names_lookup names_register names_unregister names_room
proof unfold_locales
  fix ns nm ep
  assume wf: "names_wf ns"
  show "names_wf (names_register nm ep ns)" by (rule register_spec(1) [OF wf])
  show "names_wf (names_unregister nm ns)" by (rule unregister_spec(1) [OF wf])
  show "names_lookup (names_unregister nm ns) nm = None" by (simp add: unregister_spec(2) [OF wf])
  show "k' \<noteq> nm \<Longrightarrow> names_lookup (names_unregister nm ns) k' = names_lookup ns k'" for k'
    by (simp add: unregister_spec(2) [OF wf])
  assume room: "names_room ns nm"
  have "list_ex (\<lambda>e. \<not> valid e) (evict_stale nm ep ns)" if "list_ex (\<lambda>e. \<not> valid e) ns"
    using that by (auto simp: list_ex_length evict_valid)
  then show "names_lookup (names_register nm ep ns) nm = Some ep"
    using room by (auto simp: register_spec(2) [OF wf] names_room_def)
qed

section \<open>Properties of the name directory\<close>

text \<open>
  C28: the directory keeps one name per endpoint and one endpoint per name, and after a
  registration the new name resolves to its endpoint, a different name that still pointed at
  that endpoint resolves to nothing, and every other name resolves as before.
\<close>

theorem register_lookup:
  assumes "names_wf ns" and "names_room ns nm"
  shows "names_wf (names_register nm ep ns)
    \<and> names_lookup (names_register nm ep ns) nm = Some ep
    \<and> (\<forall>k. k \<noteq> nm \<longrightarrow> names_lookup (names_register nm ep ns) k =
         (if names_lookup ns k = Some ep then None else names_lookup ns k))
    \<and> (\<forall>k. names_lookup (names_register nm ep ns) k = Some ep \<longrightarrow> k = nm)"
proof -
  have "names_lookup (names_register nm ep ns) nm = Some ep"
    by (rule name_dir.put_same [OF assms])
  then show ?thesis
    using register_spec [OF assms(1)] assms(2) by (auto simp: names_room_def)
qed

definition wit_names :: names where
  "wit_names = NAMES_init[0 := \<lparr>valid = True, name = [116], endpoint_id = 100\<rparr>]"

lemma wit_names_wf: "names_wf wit_names" "names_lookup wit_names [116] = Some 100"
proof -
  have "names_wf (NAMES_init[0 := \<lparr>valid = True, name = [116], endpoint_id = 100\<rparr>])"
    "names_lookup (NAMES_init[0 := \<lparr>valid = True, name = [116], endpoint_id = 100\<rparr>]) [116] = Some 100"
    using put_entry(1) [OF NAMES_init_wf, of 0 "[116]" 100]
      put_entry(2) [OF NAMES_init_wf, of 0 "[116]" 100 "[116]"]
    by (simp_all add: NAMES_init_def NameEntry_empty_def MAX_ENTRIES_def NAME_MAX_def entry_is_def)
  then show "names_wf wit_names" "names_lookup wit_names [116] = Some 100"
    by (simp_all add: wit_names_def)
qed

lemma wit_names_room: "names_room wit_names [102, 115]"
proof -
  have "\<not> valid (wit_names ! 1)" "1 < length wit_names"
    by (simp_all add: wit_names_def NAMES_init_def NameEntry_empty_def MAX_ENTRIES_def)
  then show ?thesis by (auto simp: names_room_def NAME_MAX_def list_ex_length)
qed

theorem register_lookup_witness:
  "names_lookup (names_register [102, 115] 100 wit_names) [102, 115] = Some 100
    \<and> names_lookup (names_register [102, 115] 100 wit_names) [116] = None"
  using register_lookup [OF wit_names_wf(1) wit_names_room, of 100] wit_names_wf(2) by simp

text \<open>
  A dying instance can only clear its own entry: the name is removed exactly when it still
  maps to the dying endpoint, and when a newer instance holds the name the directory is
  unchanged and the outcome names that instance.
\<close>

theorem unregister_endpoint_guard:
  assumes "names_wf ns" and "unregister_endpoint nm ep ns = (out, ns')"
  shows "out = (case names_lookup ns nm of
                  None \<Rightarrow> NotFound
                | Some e \<Rightarrow> if e = ep then Cleared else KeptNewer e)
    \<and> (\<forall>k. names_lookup ns' k =
         (if k = nm \<and> names_lookup ns nm = Some ep then None else names_lookup ns k))
    \<and> (out \<noteq> Cleared \<longrightarrow> ns' = ns)"
proof (cases "length nm > NAME_MAX \<or> find_idx (entry_is nm) ns = None")
  case True
  then show ?thesis
    using assms find_idx_None_lookup too_long_lookup
    by (auto simp: unregister_endpoint_def split: if_splits)
next
  case False
  then obtain i where fi: "find_idx (entry_is nm) ns = Some i" by auto
  then have i: "i < length ns" "entry_is nm (ns ! i)" by (auto dest: find_idx_SomeD)
  have lk: "names_lookup ns nm = Some (endpoint_id (ns ! i))" using lookup_iff [OF assms(1)] i by auto
  show ?thesis
    using assms(2) False fi lk invalidate_lookup [OF assms(1) i]
    by (auto simp: unregister_endpoint_def split: if_splits)
qed

theorem unregister_endpoint_guard_witness:
  "unregister_endpoint [116] 200 wit_names = (KeptNewer 100, wit_names)"
proof -
  obtain out ns' where "unregister_endpoint [116] 200 wit_names = (out, ns')" by fastforce
  then show ?thesis
    using unregister_endpoint_guard [OF wit_names_wf(1), of "[116]" 200 out ns'] wit_names_wf(2) by simp
qed

end
