(* ===== verification/Task_Table.thy ===== *)
theory Task_Table
  imports Routing Names
begin

text \<open>
  The flat task table of \<open>kernel/src/task/scheduler.rs\<close>: the per-task statics (\<open>TASK_STATE\<close>,
  \<open>TASK_CAP\<close>, \<open>TASK_ENDPOINT\<close>, ...) as one record per slot, the per-core statics as functions of the
  core number, and the operations on one slot: reservation, commit, release, the capability
  accessors of the running task, its pending received capabilities, badge and memory budget, and
  the restart counters by service name. The core an operation runs on (\<open>current_core_id\<close>) is the
  argument \<open>cid\<close>. Names are byte strings of at most 128 bytes, hence stored whole.
\<close>

unbundle bit_operations_syntax

section \<open>State\<close>

definition IDLE :: nat where "IDLE = MAX_TASKS"
definition TASK_NAME_MAX :: nat where "TASK_NAME_MAX = 128"
definition MAX_SEND_PEERS :: nat where "MAX_SEND_PEERS = 6"
definition MAX_PENDING_RECV_CAPS :: nat where "MAX_PENDING_RECV_CAPS = 4"
definition NAME_RESTART_MAX :: nat where "NAME_RESTART_MAX = 64"
definition TASK_HEAP_VA_START :: u64 where "TASK_HEAP_VA_START = 0x1000000000"
definition NO_BDF :: nat where "NO_BDF = 0xFFFF"

record Task =
  t_valid :: bool
  t_state :: TaskState
  t_name :: name_bytes
  t_caps :: CapTable
  t_core :: nat
  t_wakeup_err :: int
  t_wake_pending :: bool
  t_recv_buf :: "Message option"
  t_is_user :: bool
  t_kstack_top :: u64
  t_cr3 :: u64
  t_endpoint :: nat
  t_reply_endpoint :: nat
  t_wake_deadline :: u64
  t_pending_caps :: "nat list"
  t_pending_count :: nat
  t_last_badge :: u64
  t_hw_bdf :: nat
  t_watched :: bool
  t_hw_kind :: nat
  t_peers :: "name_bytes list"
  t_alloc_bytes :: u64
  t_limit_bytes :: u64
  t_next_alloc_va :: u64

record NameRestart =
  nr_name :: name_bytes
  nr_count :: u64

text \<open>The scheduler's statics. \<open>ipis\<close> records the cores a \<open>WAKE_RECEIVER\<close> interrupt was sent to, in
  order. \<open>name_restart\<close> holds the used entries of \<open>NAME_RESTART\<close>.\<close>

record Sched =
  tasks :: "slot \<Rightarrow> Task"
  num_cores :: nat
  core_current :: "nat \<Rightarrow> nat"
  core_leaving :: "nat \<Rightarrow> nat"
  core_rr_slot :: "nat \<Rightarrow> nat"
  core_wake_hint :: "nat \<Rightarrow> nat"
  monotonic_ticks :: u64
  power_word :: u64
  name_restart :: "NameRestart list"
  ipis :: "nat list"

definition upd_task :: "slot \<Rightarrow> (Task \<Rightarrow> Task) \<Rightarrow> Sched \<Rightarrow> Sched" where
  "upd_task i f s = s\<lparr>tasks := (tasks s)(i := f (tasks s i))\<rparr>"

section \<open>Cores\<close>

definition core_still_using :: "Sched \<Rightarrow> nat \<Rightarrow> slot \<Rightarrow> bool" where
  "core_still_using s cid i \<longleftrightarrow> core_current s cid = i \<or> core_leaving s cid = i"

definition core_release_current :: "nat \<Rightarrow> nat \<Rightarrow> Sched \<Rightarrow> Sched" where
  "core_release_current cid to s =
    s\<lparr>core_leaving := (core_leaving s)(cid := core_current s cid),
      core_current := (core_current s)(cid := to)\<rparr>"

definition core_finished_leaving :: "nat \<Rightarrow> Sched \<Rightarrow> Sched" where
  "core_finished_leaving cid s = s\<lparr>core_leaving := (core_leaving s)(cid := IDLE)\<rparr>"

section \<open>Declared peers\<close>

text \<open>\<open>AtomicNameSet::set\<close> truncates to its row length.\<close>

definition set_task_peers :: "slot \<Rightarrow> name_bytes list \<Rightarrow> Sched \<Rightarrow> Sched" where
  "set_task_peers i peers s =
    (if i \<ge> MAX_TASKS then s
     else upd_task i (\<lambda>t. t\<lparr>t_peers :=
       map (\<lambda>k. take TASK_NAME_MAX (if k < length peers then peers ! k else [])) [0..<MAX_SEND_PEERS]\<rparr>) s)"

definition task_declares_peer :: "Sched \<Rightarrow> slot \<Rightarrow> name_bytes \<Rightarrow> bool" where
  "task_declares_peer s i peer \<longleftrightarrow>
    \<not> (i \<ge> MAX_TASKS \<or> peer = []) \<and> list_ex (\<lambda>p. p = peer) (t_peers (tasks s i))"

section \<open>Restart counters\<close>

definition next_restart_count :: "Sched \<Rightarrow> name_bytes \<Rightarrow> u64" where
  "next_restart_count s nm =
    (if nm = [] then 0
     else case find (\<lambda>e. nr_name e = nm) (name_restart s) of Some e \<Rightarrow> nr_count e | None \<Rightarrow> 0)"

definition bump_name_restart :: "name_bytes \<Rightarrow> Sched \<Rightarrow> Sched" where
  "bump_name_restart nm s =
    (if nm = [] then s
     else case find_idx (\<lambda>e. nr_name e = nm) (name_restart s) of
       Some k \<Rightarrow> s\<lparr>name_restart := (name_restart s)
          [k := (name_restart s ! k)\<lparr>nr_count := saturating_add (nr_count (name_restart s ! k)) 1\<rparr>]\<rparr>
     | None \<Rightarrow>
        if length (name_restart s) < NAME_RESTART_MAX
        then s\<lparr>name_restart := name_restart s @ [\<lparr>nr_name = take TASK_NAME_MAX nm, nr_count = 1\<rparr>]\<rparr>
        else s)"

section \<open>Endpoints of a task\<close>

definition ep_to_u64 :: "EndpointId option \<Rightarrow> nat" where
  "ep_to_u64 e = (case e of Some i \<Rightarrow> i | None \<Rightarrow> 0)"

definition ep_from_u64 :: "nat \<Rightarrow> EndpointId option" where
  "ep_from_u64 v = (if v = 0 then None else Some v)"

definition take_task_reply_endpoint :: "slot \<Rightarrow> Sched \<Rightarrow> EndpointId option \<times> Sched" where
  "take_task_reply_endpoint i s =
    (if i \<ge> MAX_TASKS then (None, s)
     else (ep_from_u64 (t_reply_endpoint (tasks s i)), upd_task i (\<lambda>t. t\<lparr>t_reply_endpoint := 0\<rparr>) s))"

definition set_task_reply_endpoint :: "slot \<Rightarrow> EndpointId option \<Rightarrow> Sched \<Rightarrow> Sched" where
  "set_task_reply_endpoint i ep s =
    (if i < MAX_TASKS then upd_task i (\<lambda>t. t\<lparr>t_reply_endpoint := ep_to_u64 ep\<rparr>) s else s)"

section \<open>Device records\<close>

definition set_task_hw_bdf :: "slot \<Rightarrow> nat \<Rightarrow> Sched \<Rightarrow> Sched" where
  "set_task_hw_bdf i bdf s = (if i < MAX_TASKS then upd_task i (\<lambda>t. t\<lparr>t_hw_bdf := bdf\<rparr>) s else s)"

definition task_hw_bdf :: "Sched \<Rightarrow> slot \<Rightarrow> nat" where
  "task_hw_bdf s i = (if i < MAX_TASKS then t_hw_bdf (tasks s i) else NO_BDF)"

definition take_task_hw_bdf :: "slot \<Rightarrow> Sched \<Rightarrow> nat \<times> Sched" where
  "take_task_hw_bdf i s =
    (if i < MAX_TASKS then (t_hw_bdf (tasks s i), upd_task i (\<lambda>t. t\<lparr>t_hw_bdf := NO_BDF\<rparr>) s)
     else (NO_BDF, s))"

definition set_task_watched :: "slot \<Rightarrow> bool \<Rightarrow> Sched \<Rightarrow> Sched" where
  "set_task_watched i w s = (if i < MAX_TASKS then upd_task i (\<lambda>t. t\<lparr>t_watched := w\<rparr>) s else s)"

definition task_watched :: "Sched \<Rightarrow> slot \<Rightarrow> bool" where
  "task_watched s i \<longleftrightarrow> i < MAX_TASKS \<and> t_watched (tasks s i)"

definition set_task_hw_kind :: "slot \<Rightarrow> nat \<Rightarrow> Sched \<Rightarrow> Sched" where
  "set_task_hw_kind i k s = (if i < MAX_TASKS then upd_task i (\<lambda>t. t\<lparr>t_hw_kind := k\<rparr>) s else s)"

definition task_hw_kind :: "Sched \<Rightarrow> slot \<Rightarrow> nat" where
  "task_hw_kind s i = (if i < MAX_TASKS then t_hw_kind (tasks s i) else 0)"

definition live_task :: "Sched \<Rightarrow> slot \<Rightarrow> bool" where
  "live_task s i \<longleftrightarrow> t_valid (tasks s i) \<and> t_state (tasks s i) \<noteq> TaskDead"

definition live_endpoint_of_kind :: "Sched \<Rightarrow> nat \<Rightarrow> EndpointId option" where
  "live_endpoint_of_kind s kind =
    (case scan (\<lambda>i. live_task s i \<and> t_hw_kind (tasks s i) = kind) 0 MAX_TASKS of
       Some i \<Rightarrow> ep_from_u64 (t_endpoint (tasks s i))
     | None \<Rightarrow> None)"

section \<open>Slots\<close>

definition reserve_task_slot :: "nat \<Rightarrow> Sched \<Rightarrow> (slot \<times> Sched) option" where
  "reserve_task_slot core_id s =
    (case scan (\<lambda>i. \<not> t_valid (tasks s i)) 0 MAX_TASKS of
       None \<Rightarrow> None
     | Some i \<Rightarrow> Some (i, upd_task i (\<lambda>t. t\<lparr>t_core := core_id, t_pending_count := 0, t_valid := True\<rparr>) s))"

definition task_cap_init_empty :: "slot \<Rightarrow> Sched \<Rightarrow> Sched" where
  "task_cap_init_empty i s = upd_task i (\<lambda>t. t\<lparr>t_caps := CapTable_empty\<rparr>) s"

definition release_task_slot :: "slot \<Rightarrow> Sched \<Rightarrow> Sched" where
  "release_task_slot i s = upd_task i (\<lambda>t. t\<lparr>t_valid := False\<rparr>) s"

text \<open>The saved context is reduced to the page-table root it names.\<close>

definition commit_task ::
  "slot \<Rightarrow> name_bytes \<Rightarrow> u64 \<Rightarrow> bool \<Rightarrow> u64 \<Rightarrow> EndpointId option \<Rightarrow> Sched \<Rightarrow> Sched" where
  "commit_task i nm cr3 is_user kernel_stack_top ep s =
    upd_task i (\<lambda>t. t\<lparr>t_cr3 := cr3, t_name := take TASK_NAME_MAX nm, t_is_user := is_user,
       t_kstack_top := kernel_stack_top, t_endpoint := ep_to_u64 ep, t_state := Ready\<rparr>) s"

definition find_task_by_name_excluding :: "Sched \<Rightarrow> name_bytes \<Rightarrow> nat \<Rightarrow> slot option" where
  "find_task_by_name_excluding s nm exclude =
    scan (\<lambda>i. i \<noteq> exclude \<and> t_valid (tasks s i) \<and> t_name (tasks s i) = nm
      \<and> t_state (tasks s i) \<noteq> TaskDead) 0 MAX_TASKS"

definition find_task_by_name :: "Sched \<Rightarrow> name_bytes \<Rightarrow> slot option" where
  "find_task_by_name s nm = find_task_by_name_excluding s nm (2 ^ 64 - 1)"

section \<open>The running task\<close>

definition current_valid :: "nat \<Rightarrow> Sched \<Rightarrow> bool" where
  "current_valid cid s \<longleftrightarrow> core_current s cid < MAX_TASKS \<and> t_valid (tasks s (core_current s cid))"

definition current_task_lookup_cap ::
  "GlobalResourceTable \<Rightarrow> nat \<Rightarrow> slot \<Rightarrow> Rights \<Rightarrow> Sched \<Rightarrow> CapError + Capability" where
  "current_task_lookup_cap g cid k right s =
    (if current_valid cid s then CapTable_get g (t_caps (tasks s (core_current s cid))) k right
     else Inl CapNotHeld)"

definition current_task_holds_resource :: "nat \<Rightarrow> ResourceId \<Rightarrow> Rights \<Rightarrow> Sched \<Rightarrow> bool" where
  "current_task_holds_resource cid rid right s \<longleftrightarrow>
    current_valid cid s \<and> holds_resource (t_caps (tasks s (core_current s cid))) rid right"

definition current_task_endpoint :: "nat \<Rightarrow> Sched \<Rightarrow> EndpointId option" where
  "current_task_endpoint cid s =
    (if current_valid cid s then ep_from_u64 (t_endpoint (tasks s (core_current s cid))) else None)"

definition current_task_remove_cap :: "nat \<Rightarrow> slot \<Rightarrow> Sched \<Rightarrow> Capability option \<times> Sched" where
  "current_task_remove_cap cid k s =
    (if current_valid cid s then
       (let cur = core_current s cid; (c, tbl) = CapTable_remove k (t_caps (tasks s cur)) in
        (c, upd_task cur (\<lambda>t. t\<lparr>t_caps := tbl\<rparr>) s))
     else (None, s))"

definition current_task_insert_cap :: "nat \<Rightarrow> Capability \<Rightarrow> Sched \<Rightarrow> CapError + (slot \<times> Sched)" where
  "current_task_insert_cap cid c s =
    (if current_valid cid s then
       (let cur = core_current s cid in
        case CapTable_insert c (t_caps (tasks s cur)) of
          Inl e \<Rightarrow> Inl e
        | Inr (k, tbl) \<Rightarrow> Inr (k, upd_task cur (\<lambda>t. t\<lparr>t_caps := tbl\<rparr>) s))
     else Inl CapNotHeld)"

definition current_task_read_cap_rights :: "nat \<Rightarrow> slot \<Rightarrow> Sched \<Rightarrow> Rights option" where
  "current_task_read_cap_rights cid k s =
    (if current_valid cid s then cap_read_rights (t_caps (tasks s (core_current s cid))) k else None)"

definition for_each_cap_of :: "Sched \<Rightarrow> slot \<Rightarrow> Capability list" where
  "for_each_cap_of s i =
    (if i \<ge> MAX_TASKS then [] else if \<not> t_valid (tasks s i) then [] else for_each_slot (t_caps (tasks s i)))"

definition for_each_active_cap :: "Sched \<Rightarrow> Capability list" where
  "for_each_active_cap s = concat (map (for_each_cap_of s) [0..<MAX_TASKS])"

section \<open>Badges and received capabilities\<close>

definition pack_badge :: "ResourceId \<Rightarrow> u8 \<Rightarrow> u64" where
  "pack_badge bid right = (if bid = 0 then 0 else push_bit 32 (ucast right) OR of_nat bid)"

definition set_last_recv_badge :: "nat \<Rightarrow> ResourceId \<Rightarrow> u8 \<Rightarrow> Sched \<Rightarrow> Sched" where
  "set_last_recv_badge cid bid right s =
    (let cur = core_current s cid in
     if cur < MAX_TASKS then upd_task cur (\<lambda>t. t\<lparr>t_last_badge := pack_badge bid right\<rparr>) s else s)"

definition take_last_recv_badge :: "nat \<Rightarrow> Sched \<Rightarrow> u64 \<times> Sched" where
  "take_last_recv_badge cid s =
    (let cur = core_current s cid in
     if cur < MAX_TASKS then (t_last_badge (tasks s cur), upd_task cur (\<lambda>t. t\<lparr>t_last_badge := 0\<rparr>) s)
     else (0, s))"

definition push_pending_recv_cap :: "nat \<Rightarrow> nat \<Rightarrow> Sched \<Rightarrow> bool \<times> Sched" where
  "push_pending_recv_cap cid cap_slot s =
    (let cur = core_current s cid; count = t_pending_count (tasks s cur) in
     if cur < MAX_TASKS \<and> count < MAX_PENDING_RECV_CAPS
     then (True, upd_task cur (\<lambda>t. t\<lparr>t_pending_caps := (t_pending_caps t)[count := cap_slot],
                                       t_pending_count := count + 1\<rparr>) s)
     else (False, s))"

text \<open>Reading the first entry and shifting the others down by one.\<close>

definition pop_pending_recv_cap :: "nat \<Rightarrow> Sched \<Rightarrow> nat option \<times> Sched" where
  "pop_pending_recv_cap cid s =
    (let cur = core_current s cid; count = t_pending_count (tasks s cur) in
     if cur < MAX_TASKS \<and> count > 0
     then (Some (t_pending_caps (tasks s cur) ! 0),
           upd_task cur (\<lambda>t. t\<lparr>t_pending_caps :=
               fold (\<lambda>i xs. xs[i := xs ! (i + 1)]) [0..<count - 1] (t_pending_caps t),
             t_pending_count := count - 1\<rparr>) s)
     else (None, s))"

definition store_recv_message :: "nat \<Rightarrow> Message \<Rightarrow> Sched \<Rightarrow> Sched" where
  "store_recv_message cid msg s =
    (let cur = core_current s cid in
     if cur < MAX_TASKS then upd_task cur (\<lambda>t. t\<lparr>t_recv_buf := Some msg\<rparr>) s else s)"

definition take_recv_message :: "nat \<Rightarrow> Sched \<Rightarrow> Message option \<times> Sched" where
  "take_recv_message cid s =
    (let cur = core_current s cid in
     if cur < MAX_TASKS then (t_recv_buf (tasks s cur), upd_task cur (\<lambda>t. t\<lparr>t_recv_buf := None\<rparr>) s)
     else (None, s))"

section \<open>Memory budget\<close>

definition set_task_memory_budget :: "slot \<Rightarrow> u64 \<Rightarrow> u64 \<Rightarrow> Sched \<Rightarrow> Sched" where
  "set_task_memory_budget i limit base_bytes s =
    (if i \<ge> MAX_TASKS then s
     else upd_task i (\<lambda>t. t\<lparr>t_alloc_bytes := base_bytes, t_limit_bytes := limit,
                            t_next_alloc_va := TASK_HEAP_VA_START\<rparr>) s)"

definition page_round :: "u64 \<Rightarrow> u64" where
  "page_round sz = (case checked_add sz 4095 of Some v \<Rightarrow> v AND NOT 4095 | None \<Rightarrow> - 1)"

definition current_task_claim_alloc :: "nat \<Rightarrow> u64 \<Rightarrow> Sched \<Rightarrow> u64 option \<times> Sched" where
  "current_task_claim_alloc cid sz s =
    (if \<not> current_valid cid s then (None, s)
     else
       (let cur = core_current s cid; aligned = page_round sz;
            already = t_alloc_bytes (tasks s cur); limit = t_limit_bytes (tasks s cur);
            va = t_next_alloc_va (tasks s cur) in
        if saturating_add already aligned > limit then (None, s)
        else (Some va, upd_task cur (\<lambda>t. t\<lparr>t_alloc_bytes := saturating_add already aligned,
                                            t_next_alloc_va := saturating_add va aligned\<rparr>) s)))"

definition current_task_alloc_bytes :: "nat \<Rightarrow> Sched \<Rightarrow> u64" where
  "current_task_alloc_bytes cid s =
    (if current_valid cid s then t_alloc_bytes (tasks s (core_current s cid)) else 0)"

end
