(* ===== verification/Sched.thy ===== *)
theory Sched
  imports Task_Table
begin

text \<open>
  Scheduling (\<open>kernel/src/task/scheduler.rs\<close>): waking, blocking, the round-robin choice of the next
  task, the switch into it, the timed wakes driven by the boot core's tick, and the machine's pending
  power action. Each function is the effect of the code on the scheduler's statics when no other core interferes;
  where the code allows for one (the compare-exchange loops, the claim of a task being killed), the
  failing branch is kept and the interleavings are the subject of the proofs.
\<close>

unbundle bit_operations_syntax

section \<open>Waking\<close>

definition task_is :: "Sched \<Rightarrow> slot \<Rightarrow> TaskState \<Rightarrow> bool" where
  "task_is s i st \<longleftrightarrow> t_state (tasks s i) = st"

text \<open>\<open>compare_exchange\<close> on a task's state: success, and the state after.\<close>

definition state_cas :: "slot \<Rightarrow> TaskState \<Rightarrow> TaskState \<Rightarrow> Sched \<Rightarrow> bool \<times> Sched" where
  "state_cas i old new s =
    (if task_is s i old then (True, upd_task i (\<lambda>t. t\<lparr>t_state := new\<rparr>) s) else (False, s))"

text \<open>The compare-exchange loop of \<open>wake_by_slot\<close>, against another core that may change the state
  between two attempts: \<open>seen\<close> is what the loop believes, \<open>others\<close> what the state is found to be at each
  further attempt. The result is the state written, if any, and whether the loop ended.\<close>

fun wake_loop :: "TaskState \<Rightarrow> TaskState list \<Rightarrow> TaskState option option" where
  "wake_loop seen others =
    (if seen = TaskDead then Some None
     else if seen = Ready then Some (Some Ready)
     else case others of
       [] \<Rightarrow> None
     | actual # rest \<Rightarrow> if actual = seen then Some (Some Ready) else wake_loop actual rest)"

text \<open>\<open>wake_by_slot\<close> on core \<open>my_core\<close>.\<close>

definition wake_by_slot :: "nat \<Rightarrow> slot \<Rightarrow> int \<Rightarrow> Sched \<Rightarrow> Sched" where
  "wake_by_slot my_core i result s =
    (if \<not> (i < MAX_TASKS \<and> t_valid (tasks s i)) then s
     else if task_is s i TaskDead then s
     else
       (let s1 = upd_task i (\<lambda>t. t\<lparr>t_wakeup_err := result, t_wake_pending := True, t_state := Ready\<rparr>) s;
            task_core = t_core (tasks s i) in
        if task_core \<noteq> my_core then
          s1\<lparr>core_wake_hint := (if core_wake_hint s1 task_core = MAX_TASKS
                then (core_wake_hint s1)(task_core := i) else core_wake_hint s1),
             ipis := ipis s1 @ [task_core]\<rparr>
        else s1))"

section \<open>Choosing and entering the next task\<close>

definition ready_on :: "Sched \<Rightarrow> nat \<Rightarrow> slot \<Rightarrow> bool" where
  "ready_on s cid i \<longleftrightarrow> t_valid (tasks s i) \<and> task_is s i Ready \<and> t_core (tasks s i) = cid"

definition pick_next :: "nat \<Rightarrow> Sched \<Rightarrow> slot option \<times> Sched" where
  "pick_next cid s =
    (let hint = core_wake_hint s cid;
         s1 = (if hint < MAX_TASKS then s\<lparr>core_wake_hint := (core_wake_hint s)(cid := MAX_TASKS)\<rparr> else s) in
     if hint < MAX_TASKS \<and> ready_on s1 cid hint then (Some hint, s1)
     else
       (let start = core_rr_slot s1 cid in
        case scan (\<lambda>k. ready_on s1 cid ((start + k) mod MAX_TASKS)) 0 MAX_TASKS of
          Some k \<Rightarrow>
            (let idx = (start + k) mod MAX_TASKS in
             (Some idx, s1\<lparr>core_rr_slot := (core_rr_slot s1)(cid := (idx + 1) mod MAX_TASKS)\<rparr>))
        | None \<Rightarrow> (None, s1)))"

text \<open>The handshake that claims the chosen task: compare-exchange \<open>Ready\<close> to \<open>Running\<close>, publish it as
  the core's current task, read its state again. The result says whether the core enters \<open>next\<close>; if
  not, the core's current task is \<open>IDLE\<close>.\<close>

definition claim_cas :: "slot \<Rightarrow> Sched \<Rightarrow> bool \<times> Sched" where
  "claim_cas nxt s = state_cas nxt Ready Running s"

definition claim_publish :: "nat \<Rightarrow> slot \<Rightarrow> Sched \<Rightarrow> Sched" where
  "claim_publish cid nxt s = core_release_current cid nxt s"

definition claim_recheck :: "nat \<Rightarrow> slot \<Rightarrow> Sched \<Rightarrow> bool \<times> Sched" where
  "claim_recheck cid nxt s =
    (if task_is s nxt Running then (True, s) else (False, core_release_current cid IDLE s))"

definition claim_next :: "nat \<Rightarrow> slot \<Rightarrow> Sched \<Rightarrow> bool \<times> Sched" where
  "claim_next cid nxt s =
    (case claim_cas nxt s of
       (False, s1) \<Rightarrow> (False, core_release_current cid IDLE s1)
     | (True, s1) \<Rightarrow> claim_recheck cid nxt (claim_publish cid nxt s1))"

section \<open>Blocking and yielding\<close>

text \<open>\<open>block_and_reschedule\<close> up to the switch away from the task. \<open>Some r\<close>: it returns \<open>r\<close> at once;
  \<open>None\<close>: the task is blocked and the core runs another task or its idle loop. Running with no current
  task is a panic.\<close>

definition block_and_reschedule :: "nat \<Rightarrow> TaskState \<Rightarrow> Sched \<Rightarrow> (int option \<times> Sched) panics" where
  "block_and_reschedule cid st s =
    (let s0 = core_finished_leaving cid s; i = core_current s0 cid in
     if \<not> (i < MAX_TASKS \<and> t_valid (tasks s0 i)) then None
     else if st = BlockedOnRecv \<and> t_wake_pending (tasks s0 i)
     then Some (Some 0, upd_task i (\<lambda>t. t\<lparr>t_wake_pending := False\<rparr>) s0)
     else
       (case state_cas i Running st s0 of
          (False, s1) \<Rightarrow> Some (Some (t_wakeup_err (tasks s1 i)), s1)
        | (True, s1) \<Rightarrow>
            (case pick_next cid s1 of
               (Some nxt, s2) \<Rightarrow> Some (None, snd (claim_next cid nxt s2))
             | (None, s2) \<Rightarrow> Some (None, core_release_current cid IDLE s2))))"

definition park_current :: "nat \<Rightarrow> Sched \<Rightarrow> (int option \<times> Sched) panics" where
  "park_current cid s = block_and_reschedule cid BlockedOnRecv s"

text \<open>\<open>yield_current\<close>, without the counters of quanta. \<open>respawn\<close> is
  \<open>supervisor_respawn_pending()\<close>; the result is the task the core runs afterwards.\<close>

definition yield_current :: "nat \<Rightarrow> bool \<Rightarrow> Sched \<Rightarrow> Sched" where
  "yield_current cid respawn s =
    (let s0 = core_finished_leaving cid s; prev = core_current s0 cid;
         s1 = (if prev < MAX_TASKS \<and> t_valid (tasks s0 prev) then snd (state_cas prev Running Ready s0) else s0) in
     case pick_next cid s1 of
       (None, s2) \<Rightarrow>
         if prev < MAX_TASKS \<and> task_is s2 prev TaskDead then core_release_current cid IDLE s2
         else if prev < MAX_TASKS \<and> t_valid (tasks s2 prev) then snd (state_cas prev Ready Running s2)
         else s2
     | (Some nxt, s2) \<Rightarrow>
         if cid = 0 \<and> prev < MAX_TASKS \<and> respawn then core_release_current cid IDLE s2
         else if nxt = prev then snd (state_cas prev Ready Running s2)
         else snd (claim_next cid nxt s2))"

section \<open>Time\<close>

text \<open>Conversions of cycle counts; \<open>q\<close> is the calibrated number of cycles per quantum, 0 when unknown.\<close>

definition saturating_mul :: "u64 \<Rightarrow> u64 \<Rightarrow> u64" where
  "saturating_mul x y = (if unat x * unat y < 2 ^ 64 then x * y else - 1)"

definition saturating_sub :: "u64 \<Rightarrow> u64 \<Rightarrow> u64" where
  "saturating_sub x y = (if y \<le> x then x - y else 0)"

definition cycles_to_ticks :: "u64 \<Rightarrow> u64 \<Rightarrow> u64" where
  "cycles_to_ticks q cycles = (if q = 0 then 1 else max (cycles div q) 1)"

definition cycles_to_us :: "u64 \<Rightarrow> u64 \<Rightarrow> u64" where
  "cycles_to_us q cycles = (if q = 0 then 0 else saturating_mul cycles 10000 div q)"

definition set_wake_deadline :: "slot \<Rightarrow> u64 \<Rightarrow> Sched \<Rightarrow> Sched" where
  "set_wake_deadline i deadline s =
    (if i < MAX_TASKS then upd_task i (\<lambda>t. t\<lparr>t_wake_deadline := deadline\<rparr>) s else s)"

definition clear_wake_deadline :: "slot \<Rightarrow> Sched \<Rightarrow> Sched" where
  "clear_wake_deadline i s =
    (if i < MAX_TASKS then upd_task i (\<lambda>t. t\<lparr>t_wake_deadline := 0\<rparr>) s else s)"

section \<open>The pending power action\<close>

definition POWER_OFF_MAX_SECS :: u64 where "POWER_OFF_MAX_SECS = 24 * 3600"
definition POWER_OFF_TICKS_PER_SEC :: u64 where "POWER_OFF_TICKS_PER_SEC = 100"

datatype PowerChange = PowerDone | PowerUnchanged | PowerOtherKind

definition power_word_of :: "u64 \<Rightarrow> bool \<Rightarrow> u64" where
  "power_word_of at reboot = push_bit 1 at OR (if reboot then 1 else 0)"

definition power_arm :: "u64 \<Rightarrow> bool \<Rightarrow> Sched \<Rightarrow> PowerChange \<times> Sched" where
  "power_arm secs reboot s =
    (let at = max (saturating_add (monotonic_ticks s) (saturating_mul secs POWER_OFF_TICKS_PER_SEC)) 1;
         cur = power_word s in
     if cur \<noteq> 0 \<and> (cur AND 1 = 1) \<noteq> reboot then (PowerOtherKind, s)
     else if cur \<noteq> 0 \<and> drop_bit 1 cur \<le> at then (PowerUnchanged, s)
     else (PowerDone, s\<lparr>power_word := power_word_of at reboot\<rparr>))"

definition power_disarm :: "bool \<Rightarrow> Sched \<Rightarrow> PowerChange \<times> Sched" where
  "power_disarm reboot s =
    (let cur = power_word s in
     if cur = 0 then (PowerUnchanged, s)
     else if (cur AND 1 = 1) \<noteq> reboot then (PowerOtherKind, s)
     else (PowerDone, s\<lparr>power_word := 0\<rparr>))"

definition power_pending :: "Sched \<Rightarrow> (u64 \<times> bool) option" where
  "power_pending s =
    (let w = power_word s in
     if w = 0 then None
     else
       (let left = saturating_sub (drop_bit 1 w) (monotonic_ticks s) in
        Some ((left + POWER_OFF_TICKS_PER_SEC - 1) div POWER_OFF_TICKS_PER_SEC, w AND 1 = 1)))"

datatype MachineEnd = PowerOffNow | RebootNow

text \<open>The boot core's tick: either the machine ends, or every task whose deadline has passed is woken.\<close>

definition timed_wake :: "nat \<Rightarrow> u64 \<Rightarrow> slot \<Rightarrow> Sched \<Rightarrow> Sched" where
  "timed_wake my_core now i s =
    (let deadline = t_wake_deadline (tasks s i) in
     if deadline \<noteq> 0 \<and> now \<ge> deadline \<and> task_is s i BlockedOnRecv
     then wake_by_slot my_core i 0 (upd_task i (\<lambda>t. t\<lparr>t_wake_deadline := 0\<rparr>) s)
     else s)"

definition scan_timed_wakes :: "nat \<Rightarrow> Sched \<Rightarrow> (MachineEnd + Sched)" where
  "scan_timed_wakes my_core s =
    (let now = monotonic_ticks s + 1; s1 = s\<lparr>monotonic_ticks := now\<rparr>; w = power_word s1 in
     if w \<noteq> 0 \<and> now \<ge> drop_bit 1 w then Inl (if w AND 1 = 1 then RebootNow else PowerOffNow)
     else Inr (fold (timed_wake my_core now) [0..<MAX_TASKS] s1))"

end
