(* ===== verification/Sched_Props.thy ===== *)
theory Sched_Props
  imports Sched
begin

text \<open>
  Properties of the scheduler and the task table: slots are a pool of identifiers, the pending received
  capabilities a bounded queue, the next task is chosen fairly, a wake is never lost, the memory
  budget is respected, and the pending power action can only be brought forward.
\<close>

unbundle bit_operations_syntax

section \<open>Updates of one task\<close>

lemma tasks_upd_task [simp]: "tasks (upd_task i f s) = (tasks s)(i := f (tasks s i))"
  by (simp add: upd_task_def)

lemma upd_task_fields [simp]:
  "num_cores (upd_task i f s) = num_cores s" "core_current (upd_task i f s) = core_current s"
  "core_leaving (upd_task i f s) = core_leaving s" "core_rr_slot (upd_task i f s) = core_rr_slot s"
  "core_wake_hint (upd_task i f s) = core_wake_hint s"
  "monotonic_ticks (upd_task i f s) = monotonic_ticks s" "power_word (upd_task i f s) = power_word s"
  "name_restart (upd_task i f s) = name_restart s" "ipis (upd_task i f s) = ipis s"
  by (simp_all add: upd_task_def)

lemma core_release_fields [simp]:
  "tasks (core_release_current cid to s) = tasks s"
  "core_current (core_release_current cid to s) = (core_current s)(cid := to)"
  "core_leaving (core_release_current cid to s) = (core_leaving s)(cid := core_current s cid)"
  "core_rr_slot (core_release_current cid to s) = core_rr_slot s"
  "core_wake_hint (core_release_current cid to s) = core_wake_hint s"
  by (simp_all add: core_release_current_def)

lemma core_finished_fields [simp]:
  "tasks (core_finished_leaving cid s) = tasks s"
  "core_current (core_finished_leaving cid s) = core_current s"
  "core_leaving (core_finished_leaving cid s) = (core_leaving s)(cid := IDLE)"
  by (simp_all add: core_finished_leaving_def)

section \<open>Task slots are a pool\<close>

definition slots_live :: "Sched \<Rightarrow> slot set" where
  "slots_live s = {i. i < MAX_TASKS \<and> t_valid (tasks s i)}"

lemma reserve_SomeD:
  assumes "reserve_task_slot core s = Some (i, s')"
  shows "i < MAX_TASKS" "\<not> t_valid (tasks s i)"
    "s' = upd_task i (\<lambda>t. t\<lparr>t_core := core, t_pending_count := 0, t_valid := True\<rparr>) s"
  using assms scan_SomeD [of "\<lambda>i. \<not> t_valid (tasks s i)" 0 MAX_TASKS i]
  by (auto simp: reserve_task_slot_def split: option.splits)

lemma reserve_None_iff: "reserve_task_slot core s = None \<longleftrightarrow> (\<forall>i<MAX_TASKS. t_valid (tasks s i))"
  by (auto simp: reserve_task_slot_def scan_None split: option.splits)

interpretation task_slots: id_pool "\<lambda>_. True" slots_live "reserve_task_slot core" release_task_slot
  for core
proof unfold_locales
  fix s s' :: Sched and i
  assume "reserve_task_slot core s = Some (i, s')"
  note r = reserve_SomeD [OF this]
  show "i \<notin> slots_live s" using r by (simp add: slots_live_def)
  show "slots_live s' = insert i (slots_live s)" using r by (auto simp: slots_live_def)
next
  fix s :: Sched and i
  show "slots_live (release_task_slot i s) = slots_live s - {i}"
    by (auto simp: slots_live_def release_task_slot_def)
qed auto

section \<open>Pending received capabilities\<close>

lemma shift_down:
  "n < length xs \<Longrightarrow> fold (\<lambda>i ys. ys[i := ys ! (i + 1)]) [0..<n] xs = take n (tl xs) @ drop n xs"
proof (induction n)
  case (Suc n)
  let ?f = "fold (\<lambda>i ys. ys[i := ys ! (i + 1)]) [0..<n] xs"
  have f: "?f = take n (tl xs) @ drop n xs" using Suc by simp
  have l: "length (take n (tl xs)) = n" using Suc.prems by simp
  have d: "drop n xs = xs ! n # drop (Suc n) xs" using Suc.prems by (simp add: Cons_nth_drop_Suc)
  have d2: "drop (Suc n) xs = xs ! Suc n # drop (Suc (Suc n)) xs"
    using Suc.prems by (simp add: Cons_nth_drop_Suc)
  have "fold (\<lambda>i ys. ys[i := ys ! (i + 1)]) [0..<Suc n] xs = ?f[n := ?f ! (n + 1)]" by simp
  also have "\<dots> = take n (tl xs) @ xs ! Suc n # drop (Suc n) xs"
    unfolding f d using l d2 by (simp add: list_update_append nth_append)
  also have "take n (tl xs) @ [xs ! Suc n] = take (Suc n) (tl xs)"
    using Suc.prems by (simp add: take_Suc_conv_app_nth nth_tl)
  then have "take n (tl xs) @ xs ! Suc n # drop (Suc n) xs = take (Suc n) (tl xs) @ drop (Suc n) xs"
    by (metis append.assoc append_Cons append_Nil)
  finally show ?case .
qed simp

definition pending_inv :: "nat \<Rightarrow> Sched \<Rightarrow> bool" where
  "pending_inv cid s \<longleftrightarrow> core_current s cid < MAX_TASKS \<and>
    length (t_pending_caps (tasks s (core_current s cid))) = MAX_PENDING_RECV_CAPS \<and>
    t_pending_count (tasks s (core_current s cid)) \<le> MAX_PENDING_RECV_CAPS"

definition pending_list :: "nat \<Rightarrow> Sched \<Rightarrow> nat list" where
  "pending_list cid s =
    take (t_pending_count (tasks s (core_current s cid))) (t_pending_caps (tasks s (core_current s cid)))"

lemma pop_pending:
  assumes "pending_inv cid s" "pending_list cid s = m # ms"
  shows "\<exists>s'. pop_pending_recv_cap cid s = (Some m, s') \<and> pending_inv cid s' \<and> pending_list cid s' = ms"
proof -
  let ?t = "tasks s (core_current s cid)"
  let ?n = "t_pending_count ?t" and ?xs = "t_pending_caps ?t"
  have n: "?n > 0" "?n \<le> length ?xs"
    using assms by (auto simp: pending_inv_def pending_list_def intro: gr0I)
  then obtain x xs where xs: "?xs = x # xs" by (cases ?xs) auto
  then have m: "x = m" "take (?n - 1) xs = ms"
    using assms(2) n by (auto simp: pending_list_def take_Cons' split: if_splits)
  have sh: "fold (\<lambda>i ys. ys[i := ys ! (i + 1)]) [0..<?n - 1] ?xs = take (?n - 1) xs @ drop (?n - 1) (x # xs)"
    using shift_down [of "?n - 1" ?xs] n xs by simp
  define s' where "s' = snd (pop_pending_recv_cap cid s)"
  have p: "pop_pending_recv_cap cid s = (Some m, s')"
    using assms(1) n xs m by (simp add: pop_pending_recv_cap_def pending_inv_def s'_def Let_def)
  have "t_pending_caps (tasks s' (core_current s cid)) = take (?n - 1) xs @ drop (?n - 1) (x # xs)"
    "t_pending_count (tasks s' (core_current s cid)) = ?n - 1" "core_current s' = core_current s"
    using assms(1) n sh by (simp_all add: s'_def pop_pending_recv_cap_def pending_inv_def Let_def)
  moreover have "length (take (?n - 1) xs) = ?n - 1" using n xs by simp
  ultimately show ?thesis using p assms(1) m n xs
    by (auto simp: pending_inv_def pending_list_def)
qed

interpretation pending_caps: bounded_fifo "pending_inv cid" "pending_list cid" MAX_PENDING_RECV_CAPS
  "\<lambda>m s. case push_pending_recv_cap cid m s of (True, s') \<Rightarrow> Inr s' | (False, _) \<Rightarrow> Inl m"
  "pop_pending_recv_cap cid" for cid
proof unfold_locales
  fix s :: Sched and m ms
  assume inv: "pending_inv cid s"
  show "length (pending_list cid s) \<le> MAX_PENDING_RECV_CAPS"
    using inv by (simp add: pending_inv_def pending_list_def)
  have len: "length (pending_list cid s) = t_pending_count (tasks s (core_current s cid))"
    using inv by (simp add: pending_inv_def pending_list_def)
  show "(case push_pending_recv_cap cid m s of (True, s') \<Rightarrow> Inr s' | (False, _) \<Rightarrow> Inl m) = Inl m"
    if "length (pending_list cid s) = MAX_PENDING_RECV_CAPS"
    using that len by (simp add: push_pending_recv_cap_def Let_def)
  show "\<exists>s'. (case push_pending_recv_cap cid m s of (True, s') \<Rightarrow> Inr s' | (False, _) \<Rightarrow> Inl m) = Inr s'
      \<and> pending_inv cid s' \<and> pending_list cid s' = pending_list cid s @ [m]"
    if "length (pending_list cid s) < MAX_PENDING_RECV_CAPS"
    using that len inv
    by (auto simp: push_pending_recv_cap_def Let_def pending_inv_def pending_list_def
        take_Suc_conv_app_nth)
  show "pending_list cid s = [] \<Longrightarrow> pop_pending_recv_cap cid s = (None, s)"
    using inv len by (simp add: pop_pending_recv_cap_def Let_def)
  show "\<exists>s'. pop_pending_recv_cap cid s = (Some m, s') \<and> pending_inv cid s' \<and> pending_list cid s' = ms"
    if "pending_list cid s = m # ms" using pop_pending [OF inv that] .
qed

section \<open>The choice of the next task\<close>

lemma pick_next_tasks [simp]: "tasks (snd (pick_next cid s)) = tasks s"
  and pick_next_current [simp]: "core_current (snd (pick_next cid s)) = core_current s"
  by (auto simp: pick_next_def Let_def split: option.splits)

lemma rr_cover:
  assumes "start < MAX_TASKS" "i < MAX_TASKS"
  shows "\<exists>k<MAX_TASKS. (start + k) mod MAX_TASKS = i"
proof (cases "start \<le> i")
  case True
  then show ?thesis using assms by (intro exI [of _ "i - start"]) simp
next
  case False
  then show ?thesis using assms by (intro exI [of _ "MAX_TASKS - start + i"]) (simp add: MAX_TASKS_def)
qed

lemma ready_on_cong: "tasks s' = tasks s \<Longrightarrow> ready_on s' cid i = ready_on s cid i"
  by (simp add: ready_on_def task_is_def)

lemma pick_next_Some:
  assumes "pick_next cid s = (Some j, s')"
  shows "ready_on s cid j \<and> j < MAX_TASKS"
proof -
  have m: "MAX_TASKS > 0" by (simp add: MAX_TASKS_def)
  show ?thesis using assms
    by (auto simp: pick_next_def Let_def ready_on_def task_is_def m
        dest!: scan_SomeD split: if_splits option.splits)
qed

lemma pick_next_None:
  assumes "pick_next cid s = (None, s')" "core_rr_slot s cid < MAX_TASKS" "i < MAX_TASKS"
  shows "\<not> ready_on s cid i"
proof -
  define s1 where "s1 = (if core_wake_hint s cid < MAX_TASKS
    then s\<lparr>core_wake_hint := (core_wake_hint s)(cid := MAX_TASKS)\<rparr> else s)"
  have t: "tasks s1 = tasks s" "core_rr_slot s1 = core_rr_slot s" by (simp_all add: s1_def)
  have "scan (\<lambda>k. ready_on s1 cid ((core_rr_slot s1 cid + k) mod MAX_TASKS)) 0 MAX_TASKS = None"
    using assms(1) unfolding pick_next_def Let_def s1_def [symmetric]
    by (auto split: if_splits option.splits)
  then have "\<forall>k<MAX_TASKS. \<not> ready_on s cid ((core_rr_slot s cid + k) mod MAX_TASKS)"
    using ready_on_cong [OF t(1)] by (simp add: scan_None t(2))
  then show ?thesis using rr_cover [OF assms(2,3)] by metis
qed

text \<open>How many slots the round-robin pointer has to pass before it reaches a slot.\<close>

definition rr_dist :: "nat \<Rightarrow> slot \<Rightarrow> nat" where
  "rr_dist start i = (if start \<le> i then i - start else MAX_TASKS - start + i)"

lemma rr_dist_hit: "k < MAX_TASKS \<Longrightarrow> start < MAX_TASKS \<Longrightarrow> rr_dist start ((start + k) mod MAX_TASKS) = k"
proof (cases "start + k < MAX_TASKS")
  case False
  assume "k < MAX_TASKS" "start < MAX_TASKS"
  then have "(start + k) mod MAX_TASKS = start + k - MAX_TASKS"
    using False by (simp add: le_mod_geq)
  then show ?thesis using False \<open>k < MAX_TASKS\<close> \<open>start < MAX_TASKS\<close> by (simp add: rr_dist_def)
qed (simp add: rr_dist_def)

lemma rr_dist_of: "start < MAX_TASKS \<Longrightarrow> i < MAX_TASKS \<Longrightarrow> (start + rr_dist start i) mod MAX_TASKS = i"
  by (auto simp: rr_dist_def)

lemma rr_dist_next:
  assumes "start < MAX_TASKS" "i < MAX_TASKS" "k < rr_dist start i"
  shows "rr_dist (((start + k) mod MAX_TASKS + 1) mod MAX_TASKS) i = rr_dist start i - k - 1"
proof -
  have "((start + k) mod MAX_TASKS + 1) mod MAX_TASKS = (start + (k + 1)) mod MAX_TASKS"
    by (simp add: mod_simps)
  moreover have "rr_dist start i < MAX_TASKS" using assms(1,2) by (auto simp: rr_dist_def)
  ultimately show ?thesis using assms
    by (cases "start + (k + 1) < MAX_TASKS"; cases "start \<le> i")
       (auto simp: rr_dist_def le_mod_geq)
qed

section \<open>Waking\<close>

lemma wake_tasks:
  "tasks (wake_by_slot c i r s) = (if i < MAX_TASKS \<and> t_valid (tasks s i) \<and> t_state (tasks s i) \<noteq> TaskDead
     then (tasks s)(i := (tasks s i)\<lparr>t_wakeup_err := r, t_wake_pending := True, t_state := Ready\<rparr>)
     else tasks s)"
  by (simp add: wake_by_slot_def Let_def task_is_def)

lemma wake_fields [simp]:
  "core_current (wake_by_slot c i r s) = core_current s"
  "core_leaving (wake_by_slot c i r s) = core_leaving s"
  "core_rr_slot (wake_by_slot c i r s) = core_rr_slot s"
  "power_word (wake_by_slot c i r s) = power_word s"
  "num_cores (wake_by_slot c i r s) = num_cores s"
  by (simp_all add: wake_by_slot_def Let_def)

text \<open>The fields of a slot that scheduling steps of other tasks leave alone.\<close>

definition keeps_wake :: "slot \<Rightarrow> Sched \<Rightarrow> Sched \<Rightarrow> bool" where
  "keeps_wake i s s' \<longleftrightarrow> t_valid (tasks s' i) = t_valid (tasks s i)
    \<and> (t_wake_pending (tasks s i) \<longrightarrow> t_wake_pending (tasks s' i))"

lemma keeps_wake_refl [simp]: "keeps_wake i s s" by (simp add: keeps_wake_def)

lemma keeps_wake_trans: "keeps_wake i s t \<Longrightarrow> keeps_wake i t u \<Longrightarrow> keeps_wake i s u"
  by (simp add: keeps_wake_def)

lemma keeps_wake_tasks: "tasks s' = tasks s \<Longrightarrow> keeps_wake i s s'"
  by (simp add: keeps_wake_def)

lemma keeps_wake_wake: "keeps_wake i s (wake_by_slot c j r s)"
  by (auto simp: keeps_wake_def wake_tasks)

lemma keeps_wake_cas: "keeps_wake i s (snd (state_cas j a b s))"
  by (auto simp: keeps_wake_def state_cas_def)

lemma keeps_wake_claim: "keeps_wake i s (snd (claim_next c j s))"
  by (auto simp: keeps_wake_def claim_next_def claim_cas_def state_cas_def claim_recheck_def
      claim_publish_def split: if_splits)

lemma keeps_wake_yield: "keeps_wake i s (yield_current c b s)"
proof -
  define s0 where "s0 = core_finished_leaving c s"
  define prev where "prev = core_current s0 c"
  define s1 where "s1 = (if prev < MAX_TASKS \<and> t_valid (tasks s0 prev)
    then snd (state_cas prev Running Ready s0) else s0)"
  have k1: "keeps_wake i s s1"
    using keeps_wake_cas [of i s0] by (auto simp: s1_def keeps_wake_def s0_def)
  obtain n s2 where p: "pick_next c s1 = (n, s2)" by (cases "pick_next c s1")
  have "tasks s2 = tasks s1" using pick_next_tasks [of c s1] p by simp
  then have k2: "keeps_wake i s s2" using k1 by (simp add: keeps_wake_def)
  have r: "keeps_wake i s2 (core_release_current d IDLE s2)" for d by (rule keeps_wake_tasks) simp
  have "keeps_wake i s2 (yield_current c b s)"
    unfolding yield_current_def Let_def s0_def [symmetric] prev_def [symmetric] s1_def [symmetric] p
    using r keeps_wake_cas keeps_wake_claim by (simp split: option.splits)
  then show ?thesis using k2 keeps_wake_trans by blast
qed

lemma keeps_wake_block:
  assumes "block_and_reschedule c st s = Some (r, s')" "core_current s c \<noteq> i"
  shows "keeps_wake i s s'"
proof -
  define s0 where "s0 = core_finished_leaving c s"
  have c: "core_current s0 c \<noteq> i" "keeps_wake i s s0"
    using assms(2) by (simp_all add: s0_def keeps_wake_def)
  have "keeps_wake i s0 s'"
  proof (cases "st = BlockedOnRecv \<and> t_wake_pending (tasks s0 (core_current s0 c))")
    case True
    then show ?thesis using assms(1) c(1) unfolding block_and_reschedule_def Let_def s0_def [symmetric]
      by (auto simp: keeps_wake_def split: if_splits)
  next
    case False
    obtain ok s1 where cas: "state_cas (core_current s0 c) Running st s0 = (ok, s1)"
      by (cases "state_cas (core_current s0 c) Running st s0")
    have k1: "keeps_wake i s0 s1" using keeps_wake_cas [of i s0 "core_current s0 c" Running st] cas by simp
    obtain n s2 where p: "pick_next c s1 = (n, s2)" by (cases "pick_next c s1")
    have "tasks s2 = tasks s1" using pick_next_tasks [of c s1] p by simp
    then have k2: "keeps_wake i s0 s2" using k1 by (simp add: keeps_wake_def)
    have r: "keeps_wake i s2 (core_release_current c IDLE s2)" by (rule keeps_wake_tasks) simp
    have "s' = s1 \<or> s' = core_release_current c IDLE s2 \<or> (\<exists>j. s' = snd (claim_next c j s2))"
      using assms(1) False
      unfolding block_and_reschedule_def Let_def s0_def [symmetric] cas
      by (auto simp: p split: if_splits bool.splits option.splits)
    then show ?thesis using k1 k2 r keeps_wake_claim keeps_wake_trans by blast
  qed
  then show ?thesis using c(2) keeps_wake_trans by blast
qed

lemma keeps_wake_timed: "keeps_wake i s (timed_wake c now j s)"
  using keeps_wake_wake [of i "upd_task j (\<lambda>t. t\<lparr>t_wake_deadline := 0\<rparr>) s" c j 0]
  by (auto simp: timed_wake_def Let_def keeps_wake_def)

lemma keeps_wake_fold: "(\<And>j s. keeps_wake i s (f j s)) \<Longrightarrow> keeps_wake i s (fold f xs s)"
  by (induction xs arbitrary: s) (auto intro: keeps_wake_trans)

section \<open>Memory budget\<close>

definition heap_ok :: "Task \<Rightarrow> bool" where
  "heap_ok t \<longleftrightarrow> t_alloc_bytes t \<le> t_limit_bytes t \<and> unat (t_limit_bytes t) < 2 ^ 64 - 1 \<and>
    unat (t_next_alloc_va t) + (unat (t_limit_bytes t) - unat (t_alloc_bytes t)) < 2 ^ 64"

lemma page_round_spec:
  assumes "unat sz + 4095 < 2 ^ 64"
  shows "unat (page_round sz) = (unat sz + 4095) div 4096 * 4096"
proof -
  have "checked_add sz 4095 = Some (sz + 4095)" using assms by (simp add: checked_add_def)
  then have p: "page_round sz = (sz + 4095) AND NOT 4095" by (simp only: page_round_def option.case)
  have "unat (sz + 4095) = unat sz + 4095" using assms by (simp add: unat_word_ariths)
  then show ?thesis unfolding p by (simp only: unat_page_down)
qed

lemma page_round_over: "\<not> unat sz + 4095 < 2 ^ 64 \<Longrightarrow> unat (page_round sz) = 2 ^ 64 - 1"
  by (simp add: page_round_def checked_add_def unat_minus_one_eq)

lemma round_up_bounds: "n \<le> (n + 4095) div 4096 * 4096" "4096 dvd (n + 4095) div 4096 * (4096::nat)"
  by linarith simp

lemma claim_granted:
  fixes sz :: u64
  assumes "heap_ok t" "\<not> saturating_add (t_alloc_bytes t) (page_round sz) > t_limit_bytes t"
  shows "unat sz \<le> unat (page_round sz)" "4096 dvd unat (page_round sz)"
    "unat (saturating_add (t_alloc_bytes t) (page_round sz)) = unat (t_alloc_bytes t) + unat (page_round sz)"
    "unat (t_alloc_bytes t) + unat (page_round sz) \<le> unat (t_limit_bytes t)"
    "unat (saturating_add (t_next_alloc_va t) (page_round sz)) = unat (t_next_alloc_va t) + unat (page_round sz)"
proof -
  have le: "min (unat (t_alloc_bytes t) + unat (page_round sz)) (2 ^ 64 - 1) \<le> unat (t_limit_bytes t)"
    using assms(2) by (simp add: not_less word_le_nat_alt unat_saturating_add)
  then have le2: "unat (t_alloc_bytes t) + unat (page_round sz) \<le> unat (t_limit_bytes t)"
    using assms(1) by (auto simp: heap_ok_def min_def split: if_splits)
  have "unat sz + 4095 < 2 ^ 64"
  proof (rule ccontr)
    assume "\<not> unat sz + 4095 < 2 ^ 64"
    then show False using page_round_over [of sz] le2 assms(1) by (simp add: heap_ok_def)
  qed
  then show "unat sz \<le> unat (page_round sz)" "4096 dvd unat (page_round sz)"
    using page_round_spec round_up_bounds by simp_all
  show "unat (saturating_add (t_alloc_bytes t) (page_round sz)) = unat (t_alloc_bytes t) + unat (page_round sz)"
    using le2 assms(1) by (simp add: unat_saturating_add heap_ok_def)
  show "unat (t_alloc_bytes t) + unat (page_round sz) \<le> unat (t_limit_bytes t)" by (rule le2)
  show "unat (saturating_add (t_next_alloc_va t) (page_round sz)) = unat (t_next_alloc_va t) + unat (page_round sz)"
    using le2 assms(1) by (auto simp: unat_saturating_add heap_ok_def)
qed

section \<open>The power word\<close>

lemma power_word_decode:
  assumes "unat at < 2 ^ 63"
  shows "drop_bit 1 (power_word_of at r) = at" "power_word_of at r AND 1 = 1 \<longleftrightarrow> r"
proof -
  have "unat (push_bit 1 at) = 2 * unat at"
    using assms by (simp add: push_bit_eq_mult unat_word_ariths)
  then have "unat (drop_bit 1 (push_bit 1 at)) = unat at"
    by (simp only: drop_bit_eq_div unat_div) simp
  then have "drop_bit 1 (push_bit 1 at) = at" by (rule unsigned_word_eqI)
  moreover have "drop_bit 1 (if r then 1 else 0 :: u64) = 0" by (simp add: drop_bit_eq_div)
  ultimately show "drop_bit 1 (power_word_of at r) = at"
    unfolding power_word_of_def drop_bit_or by (simp only: or.right_neutral)
  show "power_word_of at r AND 1 = 1 \<longleftrightarrow> r"
    by (simp add: power_word_of_def and_one_eq mod_2_eq_odd even_or_iff)
qed

section \<open>Properties\<close>


definition wit_task :: Task where
  "wit_task = \<lparr>t_valid = True, t_state = Running, t_name = [], t_caps = CapTable_empty, t_core = 0,
     t_wakeup_err = 0, t_wake_pending = False, t_recv_buf = None, t_is_user = True, t_kstack_top = 0,
     t_cr3 = 0, t_endpoint = 100, t_reply_endpoint = 0, t_wake_deadline = 0,
     t_pending_caps = replicate 4 0, t_pending_count = 0, t_last_badge = 0, t_hw_bdf = NO_BDF,
     t_watched = False, t_hw_kind = 0, t_peers = [], t_alloc_bytes = 0, t_limit_bytes = 0x10000,
     t_next_alloc_va = TASK_HEAP_VA_START\<rparr>"

definition wit_sched :: Sched where
  "wit_sched = \<lparr>tasks = (\<lambda>i. if i = 0 then wit_task else if i = 3 then wit_task\<lparr>t_state := Ready\<rparr>
       else wit_task\<lparr>t_valid := False, t_state := TaskDead\<rparr>),
     num_cores = 2, core_current = (\<lambda>c. if c = 0 then 0 else IDLE), core_leaving = (\<lambda>_. IDLE),
     core_rr_slot = (\<lambda>_. 0), core_wake_hint = (\<lambda>_. MAX_TASKS), monotonic_ticks = 500, power_word = 0,
     name_restart = [], ipis = []\<rparr>"


text \<open>Scheduling steps that do not end a task and are not the blocking of slot \<open>i\<close> itself.\<close>

inductive sched_step :: "slot \<Rightarrow> Sched \<Rightarrow> Sched \<Rightarrow> bool" for i where
  step_wake: "sched_step i s (wake_by_slot c j r s)"
| step_yield: "sched_step i s (yield_current c b s)"
| step_block: "core_current s c \<noteq> i \<Longrightarrow> block_and_reschedule c st s = Some (r, s') \<Longrightarrow> sched_step i s s'"
| step_tick: "scan_timed_wakes c s = Inr s' \<Longrightarrow> sched_step i s s'"

lemma sched_step_keeps: "sched_step i s s' \<Longrightarrow> keeps_wake i s s'"
proof (induction rule: sched_step.induct)
  case (step_tick c s s')
  define now where "now = monotonic_ticks s + 1"
  have "s' = fold (timed_wake c now) [0..<MAX_TASKS] (s\<lparr>monotonic_ticks := now\<rparr>)"
    using step_tick by (auto simp: scan_timed_wakes_def Let_def now_def split: if_splits)
  moreover have "keeps_wake i s (s\<lparr>monotonic_ticks := now\<rparr>)" by (rule keeps_wake_tasks) simp
  ultimately show ?case
    using keeps_wake_fold [where f = "timed_wake c now", OF keeps_wake_timed] keeps_wake_trans by blast
qed (auto intro: keeps_wake_wake keeps_wake_yield keeps_wake_block)

interpretation sched_runs: inv_system "sched_step i" "\<lambda>s. t_valid (tasks s i) \<and> t_wake_pending (tasks s i)"
  for i
  by unfold_locales (use sched_step_keeps in \<open>auto simp: keeps_wake_def\<close>)





section \<open>The pending power action\<close>

lemma power_due:
  assumes "secs \<le> POWER_OFF_MAX_SECS" "unat (monotonic_ticks s) < 2 ^ 62"
  defines "at \<equiv> max (saturating_add (monotonic_ticks s) (saturating_mul secs POWER_OFF_TICKS_PER_SEC)) 1"
  shows "unat at = max (unat (monotonic_ticks s) + unat secs * 100) 1" "unat at < 2 ^ 63"
proof -
  have s: "unat secs \<le> 86400" using assms(1) by (simp add: POWER_OFF_MAX_SECS_def word_le_nat_alt)
  then have m: "unat (saturating_mul secs POWER_OFF_TICKS_PER_SEC) = unat secs * 100"
    by (simp add: saturating_mul_def POWER_OFF_TICKS_PER_SEC_def unat_word_ariths)
  have "unat (max x 1) = max (unat x) 1" for x :: u64
    by (simp add: max_def word_le_nat_alt)
  then show u: "unat at = max (unat (monotonic_ticks s) + unat secs * 100) 1"
    using s assms(2) by (simp add: at_def unat_saturating_add m)
  show "unat at < 2 ^ 63" unfolding u using s assms(2) by simp
qed

text \<open>The tick at which the pending action falls due and its kind.\<close>

definition pending_action :: "Sched \<Rightarrow> (u64 \<times> bool) option" where
  "pending_action s = (if power_word s = 0 then None else Some (drop_bit 1 (power_word s), power_word s AND 1 = 1))"

text \<open>Earliest wins. Arming a power action at most a day ahead either installs it, due at the
  requested tick, or changes nothing. It is installed exactly when nothing is pending or the pending
  action is of the same kind and due later: no request postpones an earlier one, and none replaces an action of the other
  kind. While armed, the remaining time reads back as the seconds requested.\<close>

theorem power_arm_earliest:
  assumes "secs \<le> POWER_OFF_MAX_SECS" "unat (monotonic_ticks s) < 2 ^ 62" "monotonic_ticks s \<noteq> 0"
    and "power_arm secs reboot s = (ch, s')"
  shows "(ch = PowerDone \<longleftrightarrow> (\<forall>at k. pending_action s = Some (at, k) \<longrightarrow>
        k = reboot \<and> unat (monotonic_ticks s) + unat secs * 100 < unat at)) \<and>
    (ch = PowerOtherKind \<longleftrightarrow> (\<exists>at. pending_action s = Some (at, \<not> reboot))) \<and>
    (ch \<noteq> PowerDone \<longrightarrow> s' = s) \<and>
    (ch = PowerDone \<longrightarrow> power_pending s' = Some (secs, reboot) \<and>
      (\<exists>at. pending_action s' = Some (at, reboot) \<and> unat at = unat (monotonic_ticks s) + unat secs * 100))"
proof -
  define at where "at = max (saturating_add (monotonic_ticks s) (saturating_mul secs POWER_OFF_TICKS_PER_SEC)) 1"
  have t0: "unat (monotonic_ticks s) > 0" using assms(3) by (simp add: unat_gt_0)
  have at: "unat at = unat (monotonic_ticks s) + unat secs * 100" "unat at < 2 ^ 63"
    using power_due [OF assms(1,2)] t0 by (simp_all add: at_def)
  note dec = power_word_decode [OF at(2)]
  have "at \<noteq> 0" using at(1) t0 by auto
  then have nz: "power_word_of at reboot \<noteq> 0" using dec(1) [of reboot] by auto
  have arm: "(ch, s') = (if power_word s \<noteq> 0 \<and> (power_word s AND 1 = 1) \<noteq> reboot then (PowerOtherKind, s)
      else if power_word s \<noteq> 0 \<and> drop_bit 1 (power_word s) \<le> at then (PowerUnchanged, s)
      else (PowerDone, s\<lparr>power_word := power_word_of at reboot\<rparr>))"
    unfolding at_def using assms(4) [unfolded power_arm_def Let_def] by (rule sym)
  have le: "drop_bit 1 (power_word s) \<le> at \<longleftrightarrow>
      \<not> unat (monotonic_ticks s) + unat secs * 100 < unat (drop_bit 1 (power_word s))"
    using at(1) by (simp only: word_le_nat_alt not_less)
  have armed: "power_pending s' = Some (secs, reboot) \<and> pending_action s' = Some (at, reboot)" if "ch = PowerDone"
  proof -
    have w: "power_word s' = power_word_of at reboot" "monotonic_ticks s' = monotonic_ticks s"
      using arm that by (simp_all split: if_splits)
    have sec: "unat secs \<le> 86400" using assms(1) by (simp add: POWER_OFF_MAX_SECS_def word_le_nat_alt)
    have left: "unat (saturating_sub at (monotonic_ticks s)) = unat secs * 100"
      using at(1) by (simp add: saturating_sub_def word_le_nat_alt unat_sub)
    have "unat ((saturating_sub at (monotonic_ticks s) + 100 - 1) div 100) = unat secs"
    proof -
      have "unat (saturating_sub at (monotonic_ticks s) + 99) = unat secs * 100 + 99"
        using left sec by (simp add: unat_word_ariths)
      moreover have "saturating_sub at (monotonic_ticks s) + 100 - 1 = saturating_sub at (monotonic_ticks s) + 99"
        by simp
      ultimately have "unat (saturating_sub at (monotonic_ticks s) + 100 - 1) = unat secs * 100 + 99"
        by (simp only:)
      then show ?thesis by (simp add: unat_div)
    qed
    then have "(saturating_sub at (monotonic_ticks s) + 100 - 1) div 100 = secs"
      by (rule unsigned_word_eqI)
    then show ?thesis using w nz dec [of reboot]
      by (simp add: power_pending_def pending_action_def Let_def POWER_OFF_TICKS_PER_SEC_def)
  qed
  show ?thesis
  proof (intro conjI impI)
    show "ch = PowerDone \<longleftrightarrow> (\<forall>at k. pending_action s = Some (at, k) \<longrightarrow>
        k = reboot \<and> unat (monotonic_ticks s) + unat secs * 100 < unat at)"
      using arm le by (auto simp: pending_action_def split: if_splits)
    show "ch = PowerOtherKind \<longleftrightarrow> (\<exists>at. pending_action s = Some (at, \<not> reboot))"
      using arm by (auto simp: pending_action_def split: if_splits)
    show "ch \<noteq> PowerDone \<Longrightarrow> s' = s" using arm by (auto split: if_splits)
    show "ch = PowerDone \<Longrightarrow> power_pending s' = Some (secs, reboot)" using armed by blast
    show "ch = PowerDone \<Longrightarrow> \<exists>at. pending_action s' = Some (at, reboot)
        \<and> unat at = unat (monotonic_ticks s) + unat secs * 100" using armed at(1) by blast
  qed
qed

theorem power_arm_earliest_witness:
  "fst (power_arm 60 True wit_sched) = PowerDone"
  using power_arm_earliest [of 60 wit_sched True "fst (power_arm 60 True wit_sched)"
      "snd (power_arm 60 True wit_sched)"]
  by (simp add: wit_sched_def POWER_OFF_MAX_SECS_def pending_action_def)

section \<open>Timed wakes\<close>

lemma fold_timed_frame:
  "j \<notin> set xs \<Longrightarrow> tasks (fold (timed_wake c now) xs s) j = tasks s j"
proof (induction xs arbitrary: s)
  case (Cons x xs)
  have "tasks (timed_wake c now x s) j = tasks s j"
    using Cons.prems by (simp add: timed_wake_def Let_def wake_tasks)
  then show ?case using Cons by simp
qed simp

lemma timed_wake_self:
  assumes "i < MAX_TASKS" "t_valid (tasks s i)"
  shows "tasks (timed_wake c now i s) i =
    (if t_wake_deadline (tasks s i) \<noteq> 0 \<and> t_wake_deadline (tasks s i) \<le> now \<and> t_state (tasks s i) = BlockedOnRecv
     then (tasks s i)\<lparr>t_wake_deadline := 0, t_wakeup_err := 0, t_wake_pending := True, t_state := Ready\<rparr>
     else tasks s i)"
  using assms by (simp add: timed_wake_def Let_def wake_tasks task_is_def)

lemma fold_timed_self:
  assumes "i < MAX_TASKS" "t_valid (tasks s i)"
  shows "tasks (fold (timed_wake c now) [0..<MAX_TASKS] s) i = tasks (timed_wake c now i s) i"
proof -
  have split: "[0..<MAX_TASKS] = [0..<i] @ i # [Suc i..<MAX_TASKS]"
    using assms(1) upt_add_eq_append [of 0 i "MAX_TASKS - i"] upt_conv_Cons [of i MAX_TASKS] by simp
  have pre: "tasks (fold (timed_wake c now) [0..<i] s) i = tasks s i" by (rule fold_timed_frame) simp
  have "tasks (timed_wake c now i (fold (timed_wake c now) [0..<i] s)) i = tasks (timed_wake c now i s) i"
    using timed_wake_self [of i s c now] timed_wake_self [of i "fold (timed_wake c now) [0..<i] s" c now]
      assms pre by simp
  then show ?thesis unfolding split by (simp add: fold_timed_frame)
qed

text \<open>C35: Timed wakes. When the tick does not end the machine, exactly the tasks that wait for a message
  with a deadline that has passed become ready, with result 0 and the deadline cleared; every other task keeps
  its state and deadline.\<close>

theorem timed_wakes_exact:
  assumes "scan_timed_wakes c s = Inr s'" "i < MAX_TASKS" "t_valid (tasks s i)"
  shows "tasks s' i =
    (if t_wake_deadline (tasks s i) \<noteq> 0 \<and> t_wake_deadline (tasks s i) \<le> monotonic_ticks s + 1
        \<and> t_state (tasks s i) = BlockedOnRecv
     then (tasks s i)\<lparr>t_wake_deadline := 0, t_wakeup_err := 0, t_wake_pending := True, t_state := Ready\<rparr>
     else tasks s i)"
proof -
  define now where "now = monotonic_ticks s + 1"
  have s': "s' = fold (timed_wake c now) [0..<MAX_TASKS] (s\<lparr>monotonic_ticks := now\<rparr>)"
    using assms(1) by (auto simp: scan_timed_wakes_def Let_def now_def split: if_splits)
  show ?thesis
    unfolding s' using fold_timed_self [of i "s\<lparr>monotonic_ticks := now\<rparr>" c now]
      timed_wake_self [of i "s\<lparr>monotonic_ticks := now\<rparr>" c now] assms(2,3)
    by (simp add: now_def)
qed

theorem timed_wakes_exact_witness:
  "\<exists>s'. scan_timed_wakes 0 wit_sched = Inr s' \<and> tasks s' 3 = tasks wit_sched 3"
proof -
  obtain s' where s': "scan_timed_wakes 0 wit_sched = Inr s'"
    by (simp add: scan_timed_wakes_def Let_def wit_sched_def)
  then show ?thesis using timed_wakes_exact [OF s', of 3]
    by (simp add: MAX_TASKS_def wit_sched_def wit_task_def)
qed

end
