(* ===== verification/Handshake.thy ===== *)
theory Handshake
  imports Sched_Props
begin

text \<open>
  The handshake between a core that switches into a task and another core that kills it
  (\<open>kernel/src/task/scheduler.rs\<close>, \<open>kill_task_by_slot\<close>, \<open>yield_current\<close>, \<open>block_and_reschedule\<close>).
  The switching core's steps and the killer's steps interleave freely, under sequential
  consistency, which the code obtains by making the four accesses \<open>SeqCst\<close>. The steps are the
  functions of the scheduler model; \<open>hs_on\<close> is the task whose stack and address space a core is
  really using, which the code does not record.
\<close>

datatype CorePc = Executing | InSched | Picked slot | Claimed slot | Published slot | Switching slot

datatype KillerPc = KNotStarted | KWaiting nat | KReclaim

record HS =
  hs_s :: Sched
  hs_pc :: "nat \<Rightarrow> CorePc"
  hs_on :: "nat \<Rightarrow> slot"
  hs_kill :: KillerPc

text \<open>One step. \<open>v\<close> is the task being killed, \<open>k\<close> the killer's core. A step of core \<open>c\<close> is a step of the
  scheduler; \<open>env\<close> covers every other transition of a task's state (waking, preemption, blocking,
  and the killing of other tasks).\<close>

inductive hs_step :: "slot \<Rightarrow> nat \<Rightarrow> HS \<Rightarrow> HS \<Rightarrow> bool" for v k where
  reenter: "hs_pc h c = Executing \<Longrightarrow> hs_step v k h
     (h\<lparr>hs_s := core_finished_leaving c (hs_s h), hs_pc := (hs_pc h)(c := InSched)\<rparr>)"
| stay: "hs_pc h c = InSched \<Longrightarrow> hs_step v k h (h\<lparr>hs_pc := (hs_pc h)(c := Executing)\<rparr>)"
| pick: "hs_pc h c = InSched \<Longrightarrow> j < MAX_TASKS \<Longrightarrow> ready_on (hs_s h) c j \<Longrightarrow>
     hs_step v k h (h\<lparr>hs_pc := (hs_pc h)(c := Picked j)\<rparr>)"
| idle: "hs_pc h c = InSched \<Longrightarrow> hs_step v k h
     (h\<lparr>hs_s := core_release_current c IDLE (hs_s h), hs_pc := (hs_pc h)(c := Switching IDLE)\<rparr>)"
| cas_ok: "hs_pc h c = Picked j \<Longrightarrow> claim_cas j (hs_s h) = (True, s') \<Longrightarrow> hs_step v k h
     (h\<lparr>hs_s := s', hs_pc := (hs_pc h)(c := Claimed j)\<rparr>)"
| cas_fail: "hs_pc h c = Picked j \<Longrightarrow> claim_cas j (hs_s h) = (False, s') \<Longrightarrow> hs_step v k h
     (h\<lparr>hs_s := core_release_current c IDLE s', hs_pc := (hs_pc h)(c := Switching IDLE)\<rparr>)"
| publish: "hs_pc h c = Claimed j \<Longrightarrow> hs_step v k h
     (h\<lparr>hs_s := claim_publish c j (hs_s h), hs_pc := (hs_pc h)(c := Published j)\<rparr>)"
| recheck_ok: "hs_pc h c = Published j \<Longrightarrow> claim_recheck c j (hs_s h) = (True, s') \<Longrightarrow> hs_step v k h
     (h\<lparr>hs_s := s', hs_pc := (hs_pc h)(c := Switching j)\<rparr>)"
| recheck_abort: "hs_pc h c = Published j \<Longrightarrow> claim_recheck c j (hs_s h) = (False, s') \<Longrightarrow> hs_step v k h
     (h\<lparr>hs_s := s', hs_pc := (hs_pc h)(c := Switching IDLE)\<rparr>)"
| switch: "hs_pc h c = Switching j \<Longrightarrow> hs_step v k h
     (h\<lparr>hs_pc := (hs_pc h)(c := Executing), hs_on := (hs_on h)(c := j)\<rparr>)"
| env: "t_state (tasks (hs_s h) j) \<noteq> TaskDead \<Longrightarrow> hs_step v k h
     (h\<lparr>hs_s := upd_task j (\<lambda>t. t\<lparr>t_state := st\<rparr>) (hs_s h)\<rparr>)"
| kill_mark: "hs_kill h = KNotStarted \<Longrightarrow> hs_step v k h
     (h\<lparr>hs_s := upd_task v (\<lambda>t. t\<lparr>t_state := TaskDead\<rparr>) (hs_s h), hs_kill := KWaiting 0\<rparr>)"
| kill_check: "hs_kill h = KWaiting n \<Longrightarrow> n < num_cores (hs_s h) \<Longrightarrow>
     n = k \<or> \<not> core_still_using (hs_s h) n v \<Longrightarrow> hs_step v k h (h\<lparr>hs_kill := KWaiting (Suc n)\<rparr>)"
| kill_done: "hs_kill h = KWaiting n \<Longrightarrow> n = num_cores (hs_s h) \<Longrightarrow> hs_step v k h (h\<lparr>hs_kill := KReclaim\<rparr>)"

section \<open>The invariant\<close>

text \<open>What the statics say about a core at each point of its switch.\<close>

definition core_ok :: "HS \<Rightarrow> nat \<Rightarrow> bool" where
  "core_ok h c \<longleftrightarrow> (case hs_pc h c of
     Published j \<Rightarrow> core_current (hs_s h) c = j \<and> core_leaving (hs_s h) c = hs_on h c
   | Switching j \<Rightarrow> core_current (hs_s h) c = j \<and> (j \<noteq> IDLE \<longrightarrow> core_leaving (hs_s h) c = hs_on h c)
   | _ \<Rightarrow> core_current (hs_s h) c = hs_on h c)"

definition checked :: "HS \<Rightarrow> nat \<Rightarrow> bool" where
  "checked h c \<longleftrightarrow> (case hs_kill h of KNotStarted \<Rightarrow> False | KWaiting n \<Rightarrow> c < n
     | KReclaim \<Rightarrow> c < num_cores (hs_s h))"

definition released :: "slot \<Rightarrow> HS \<Rightarrow> nat \<Rightarrow> bool" where
  "released v h c \<longleftrightarrow> (case hs_pc h c of
     Published j \<Rightarrow> hs_on h c \<noteq> v
   | Switching j \<Rightarrow> j \<noteq> v \<and> (hs_on h c = v \<longrightarrow> j = IDLE)
   | _ \<Rightarrow> hs_on h c \<noteq> v)"

definition hs_inv :: "slot \<Rightarrow> nat \<Rightarrow> HS \<Rightarrow> bool" where
  "hs_inv v k h \<longleftrightarrow> v < MAX_TASKS \<and> (\<forall>c. core_ok h c) \<and>
    (hs_kill h \<noteq> KNotStarted \<longrightarrow> t_state (tasks (hs_s h) v) = TaskDead) \<and>
    (\<forall>n. hs_kill h = KWaiting n \<longrightarrow> n \<le> num_cores (hs_s h)) \<and>
    (\<forall>c. checked h c \<and> c \<noteq> k \<longrightarrow> released v h c)"

lemma core_ok_upd [simp]:
  "core_ok (h\<lparr>hs_kill := x\<rparr>) c = core_ok h c"
  "core_ok (h\<lparr>hs_s := upd_task j f (hs_s h), hs_kill := x\<rparr>) c = core_ok h c"
  "core_ok (h\<lparr>hs_s := upd_task j f (hs_s h)\<rparr>) c = core_ok h c"
  by (auto simp: core_ok_def split: CorePc.splits)

lemma released_upd [simp]:
  "released v (h\<lparr>hs_kill := x\<rparr>) c = released v h c"
  "released v (h\<lparr>hs_s := s\<rparr>) c = released v h c"
  by (auto simp: released_def split: CorePc.splits)

lemma hs_invI:
  assumes "hs_inv v k h" "\<And>d. d \<noteq> c \<Longrightarrow> hs_pc h' d = hs_pc h d \<and> hs_on h' d = hs_on h d
      \<and> core_current (hs_s h') d = core_current (hs_s h) d \<and> core_leaving (hs_s h') d = core_leaving (hs_s h) d"
    "core_ok h' c" "hs_kill h' = hs_kill h" "num_cores (hs_s h') = num_cores (hs_s h)"
    "t_state (tasks (hs_s h) v) = TaskDead \<Longrightarrow> t_state (tasks (hs_s h') v) = TaskDead"
    "checked h c \<Longrightarrow> c \<noteq> k \<Longrightarrow> t_state (tasks (hs_s h) v) = TaskDead \<Longrightarrow> released v h c \<Longrightarrow> released v h' c"
  shows "hs_inv v k h'"
proof -
  have ok: "core_ok h' d" for d
  proof (cases "d = c")
    case False
    have "core_ok h d" using assms(1) by (simp add: hs_inv_def)
    then show ?thesis using assms(2) [OF False] by (auto simp: core_ok_def split: CorePc.splits)
  qed (simp add: assms(3))
  have ck: "checked h' d = checked h d" for d using assms(4,5) by (auto simp: checked_def split: KillerPc.splits)
  have dead: "checked h d \<Longrightarrow> t_state (tasks (hs_s h) v) = TaskDead" for d
    using assms(1) by (auto simp: hs_inv_def checked_def split: KillerPc.splits)
  have rel: "released v h' d" if "checked h d" "d \<noteq> k" for d
  proof (cases "d = c")
    case True
    then show ?thesis using that assms(1,7) dead by (auto simp: hs_inv_def)
  next
    case False
    then have "released v h d" using that assms(1) by (simp add: hs_inv_def)
    then show ?thesis using assms(2) [OF False] by (auto simp: released_def split: CorePc.splits)
  qed
  show ?thesis using assms(1,4-6) ok rel by (auto simp: hs_inv_def ck)
qed

lemma claim_cas_Some:
  "claim_cas j s = (True, s') \<Longrightarrow> t_state (tasks s j) = Ready \<and> s' = upd_task j (\<lambda>t. t\<lparr>t_state := Running\<rparr>) s"
  "claim_cas j s = (False, s') \<Longrightarrow> s' = s"
  by (auto simp: claim_cas_def state_cas_def task_is_def split: if_splits)

lemma recheck_SomeD:
  "claim_recheck c j s = (True, s') \<Longrightarrow> t_state (tasks s j) = Running \<and> s' = s"
  "claim_recheck c j s = (False, s') \<Longrightarrow> s' = core_release_current c IDLE s"
  by (auto simp: claim_recheck_def task_is_def split: if_splits)

lemma release_num_cores [simp]:
  "num_cores (core_release_current c j s) = num_cores s"
  "num_cores (core_finished_leaving c s) = num_cores s"
  by (simp_all add: core_release_current_def core_finished_leaving_def)

lemma hs_step_inv: "hs_step v k h h' \<Longrightarrow> hs_inv v k h \<Longrightarrow> hs_inv v k h'"
proof (induction rule: hs_step.induct)
  case (reenter h c)
  then have "core_ok h c" by (simp add: hs_inv_def)
  then show ?case using reenter by - (rule hs_invI [of v k h c], auto simp: core_ok_def released_def)
next
  case (stay h c)
  then have "core_ok h c" by (simp add: hs_inv_def)
  then show ?case using stay by - (rule hs_invI [of v k h c], auto simp: core_ok_def released_def)
next
  case (pick h c j)
  then have "core_ok h c" by (simp add: hs_inv_def)
  then show ?case using pick by - (rule hs_invI [of v k h c], auto simp: core_ok_def released_def)
next
  case (idle h c)
  then have "core_ok h c" "IDLE \<noteq> v" by (auto simp: hs_inv_def IDLE_def)
  then show ?case using idle by - (rule hs_invI [of v k h c], auto simp: core_ok_def released_def)
next
  case (cas_ok h c j s')
  note d = claim_cas_Some(1) [OF cas_ok(2)]
  have "core_ok h c" using cas_ok by (simp add: hs_inv_def)
  then show ?case using cas_ok(1,3) d
    by - (rule hs_invI [of v k h c], auto simp: core_ok_def released_def)
next
  case (cas_fail h c j s')
  note d = claim_cas_Some(2) [OF cas_fail(2)]
  have "core_ok h c" "IDLE \<noteq> v" using cas_fail by (auto simp: hs_inv_def IDLE_def)
  then show ?case using cas_fail(1,3) d
    by - (rule hs_invI [of v k h c], auto simp: core_ok_def released_def)
next
  case (publish h c j)
  have "core_ok h c" using publish by (simp add: hs_inv_def)
  then show ?case using publish
    by - (rule hs_invI [of v k h c], auto simp: core_ok_def released_def claim_publish_def)
next
  case (recheck_ok h c j s')
  note d = recheck_SomeD(1) [OF recheck_ok(2)]
  have "core_ok h c" using recheck_ok by (simp add: hs_inv_def)
  then show ?case using recheck_ok(1,3) d
    by - (rule hs_invI [of v k h c], auto simp: core_ok_def released_def)
next
  case (recheck_abort h c j s')
  note d = recheck_SomeD(2) [OF recheck_abort(2)]
  have "core_ok h c" "IDLE \<noteq> v" using recheck_abort by (auto simp: hs_inv_def IDLE_def)
  then show ?case using recheck_abort(1,3) d
    by - (rule hs_invI [of v k h c], auto simp: core_ok_def released_def)
next
  case (switch h c j)
  then have "core_ok h c" by (simp add: hs_inv_def)
  then show ?case using switch by - (rule hs_invI [of v k h c], auto simp: core_ok_def released_def)
next
  case (env h j st)
  then have "core_ok h 0" by (simp add: hs_inv_def)
  then show ?case using env by - (rule hs_invI [of v k h 0], auto)
next
  case (kill_mark h)
  then show ?case by (auto simp: hs_inv_def checked_def)
next
  case (kill_check h n)
  have "released v h n" if "n \<noteq> k"
  proof -
    have nu: "core_current (hs_s h) n \<noteq> v" "core_leaving (hs_s h) n \<noteq> v"
      using kill_check(3) that by (auto simp: core_still_using_def)
    have "core_ok h n" using kill_check by (simp add: hs_inv_def)
    then show ?thesis using nu by (auto simp: core_ok_def released_def split: CorePc.splits)
  qed
  then show ?case using kill_check
    by (auto simp: hs_inv_def checked_def less_Suc_eq)
next
  case (kill_done h n)
  then show ?case by (auto simp: hs_inv_def checked_def)
qed

interpretation handshake_runs: inv_system "hs_step v k" "hs_inv v k" for v k
  by unfold_locales (rule hs_step_inv)

section \<open>Properties of the handshake\<close>

lemma hs_inv_start:
  assumes "v < MAX_TASKS" "hs_kill h = KNotStarted" "\<And>c. hs_pc h c = Executing"
    "\<And>c. core_current (hs_s h) c = hs_on h c"
  shows "hs_inv v k h"
  using assms by (simp add: hs_inv_def core_ok_def checked_def)


text \<open>A run through the aborted claim: core 0 leaves task 0 for task 3, task 3 is killed between the claim
  and the second look, and core 0 aborts to its scheduler context; meanwhile core 1 kills task 0.\<close>

definition wit_hs :: HS where
  "wit_hs = \<lparr>hs_s = wit_sched, hs_pc = (\<lambda>_. Executing), hs_on = core_current wit_sched, hs_kill = KNotStarted\<rparr>"

definition abort_sched :: Sched where
  "abort_sched = core_release_current 0 IDLE (upd_task 3 (\<lambda>t. t\<lparr>t_state := TaskDead\<rparr>)
     (claim_publish 0 3 (upd_task 3 (\<lambda>t. t\<lparr>t_state := Running\<rparr>) (core_finished_leaving 0 wit_sched))))"

definition abort_hs :: HS where
  "abort_hs = wit_hs\<lparr>hs_s := abort_sched, hs_pc := (\<lambda>_. Executing)(0 := Switching IDLE)\<rparr>"

lemma abort_run: "(hs_step 0 1)\<^sup>*\<^sup>* wit_hs abort_hs"
proof -
  let ?st = "\<lambda>s p. wit_hs\<lparr>hs_s := s, hs_pc := (\<lambda>_. Executing)(0 := p)\<rparr>"
  define s1 where "s1 = core_finished_leaving 0 wit_sched"
  define s2 where "s2 = upd_task 3 (\<lambda>t. t\<lparr>t_state := Running\<rparr>) s1"
  define s3 where "s3 = claim_publish 0 3 s2"
  define s4 where "s4 = upd_task 3 (\<lambda>t. t\<lparr>t_state := TaskDead\<rparr>) s3"
  note defs = s1_def wit_hs_def wit_sched_def wit_task_def
  have st3: "t_state (tasks s1 3) = Ready" by (simp add: defs)
  have rd: "ready_on s1 0 3" by (simp add: defs ready_on_def task_is_def)
  have "hs_step 0 1 wit_hs (?st s1 InSched)"
    using hs_step.reenter [of wit_hs 0 0 1] by (simp add: s1_def wit_hs_def)
  moreover have "hs_step 0 1 (?st s1 InSched) (?st s1 (Picked 3))"
    using hs_step.pick [of "?st s1 InSched" 0 3 0 1] rd by (simp add: MAX_TASKS_def)
  moreover have "hs_step 0 1 (?st s1 (Picked 3)) (?st s2 (Claimed 3))"
    using hs_step.cas_ok [of "?st s1 (Picked 3)" 0 3 s2 0 1] st3
    by (simp add: claim_cas_def state_cas_def task_is_def s2_def)
  moreover have "hs_step 0 1 (?st s2 (Claimed 3)) (?st s3 (Published 3))"
    using hs_step.publish [of "?st s2 (Claimed 3)" 0 3 0 1] by (simp add: s3_def)
  moreover have "hs_step 0 1 (?st s3 (Published 3)) (?st s4 (Published 3))"
    using hs_step.env [of "?st s3 (Published 3)" 3 0 1 TaskDead] st3
    by (simp add: s4_def s3_def s2_def claim_publish_def wit_hs_def)
  moreover have "hs_step 0 1 (?st s4 (Published 3)) abort_hs"
    using hs_step.recheck_abort [of "?st s4 (Published 3)" 0 3 abort_sched 0 1]
    by (simp add: abort_hs_def abort_sched_def claim_recheck_def task_is_def s4_def s3_def s2_def s1_def)
  ultimately show ?thesis by (meson rtranclp.rtrancl_refl converse_rtranclp_into_rtranclp)
qed

definition reclaim_hs :: HS where
  "reclaim_hs = abort_hs\<lparr>hs_s := upd_task 0 (\<lambda>t. t\<lparr>t_state := TaskDead\<rparr>) abort_sched, hs_kill := KReclaim\<rparr>"

lemma abort_core: "core_current abort_sched 0 = IDLE" "core_leaving abort_sched 0 = 3" "num_cores abort_sched = 2"
  by (simp_all add: abort_sched_def claim_publish_def core_release_current_def wit_sched_def)

lemma reclaim_run: "(hs_step 0 1)\<^sup>*\<^sup>* wit_hs reclaim_hs"
proof -
  let ?st = "\<lambda>k. reclaim_hs\<lparr>hs_kill := k\<rparr>"
  have "hs_step 0 1 abort_hs (?st (KWaiting 0))"
    using hs_step.kill_mark [of abort_hs 0 1] by (simp add: reclaim_hs_def abort_hs_def wit_hs_def)
  moreover have "hs_step 0 1 (?st (KWaiting 0)) (?st (KWaiting 1))"
    using hs_step.kill_check [of "?st (KWaiting 0)" 0 1 0]
    by (simp add: reclaim_hs_def abort_hs_def abort_core core_still_using_def IDLE_def MAX_TASKS_def)
  moreover have "hs_step 0 1 (?st (KWaiting 1)) (?st (KWaiting 2))"
    using hs_step.kill_check [of "?st (KWaiting 1)" 1 1 0]
    by (simp add: reclaim_hs_def abort_hs_def abort_core numeral_2_eq_2)
  moreover have "hs_step 0 1 (?st (KWaiting 2)) reclaim_hs"
    using hs_step.kill_done [of "?st (KWaiting 2)" 2 0 1]
    by (simp add: reclaim_hs_def abort_hs_def abort_core)
  ultimately have "(hs_step 0 1)\<^sup>*\<^sup>* abort_hs reclaim_hs"
    by (meson rtranclp.rtrancl_refl converse_rtranclp_into_rtranclp)
  then show ?thesis using abort_run by (rule rtranclp_trans [rotated])
qed


text \<open>C36: the exception is real. When a core aborts a claim after it has published the new task, the second
  \<open>core_release_current\<close> overwrites the record of the task it is leaving. There is a run in which the
  killer then gets past its wait and reclaims a task on whose stack another core still is.\<close>

theorem abort_path_loses_leaving_task:
  "\<exists>h. (hs_step 0 1)\<^sup>*\<^sup>* wit_hs h \<and> hs_kill h = KReclaim \<and> hs_on h 0 = 0 \<and>
     hs_pc h 0 = Switching IDLE \<and> \<not> core_still_using (hs_s h) 0 0"
  using reclaim_run
  by (intro exI [of _ reclaim_hs])
    (simp add: reclaim_hs_def abort_hs_def wit_hs_def wit_sched_def abort_core core_still_using_def IDLE_def MAX_TASKS_def)

end
