(* ===== verification/Delegated.thy ===== *)
theory Delegated
  imports Cap_Table
begin

text \<open>
  Delegated resources, the band \<open>[4096, 6144)\<close> of identifiers that services mint for their
  clients (\<open>kernel/src/capability/delegated.rs\<close>). The owner array of the band is a function,
  read only below \<open>DELEGATED_CAP\<close>. The module functions take the two locked statics, the
  band and the global resource table, as explicit state. The lemmas show that an identifier
  is handed out again only at a strictly higher generation, that only its owner can revoke it,
  and that the death of an owner reclaims everything it owned and nothing else.
\<close>

type_synonym OwnerId = nat

definition DELEGATED_BASE :: nat where "DELEGATED_BASE = 4096"
definition DELEGATED_CAP :: nat where "DELEGATED_CAP = 2048"

record Band =
  owner :: "nat \<Rightarrow> OwnerId option"
  next_slot :: nat

definition Band_new :: Band where
  "Band_new = \<lparr>owner = (\<lambda>_. None), next_slot = 0\<rparr>"

definition Band_claim :: "OwnerId \<Rightarrow> Band \<Rightarrow> (nat \<times> Band) option" where
  "Band_claim who b =
    (case scan (\<lambda>off. owner b ((next_slot b + off) mod DELEGATED_CAP) = None) 0 DELEGATED_CAP of
       None \<Rightarrow> None
     | Some off \<Rightarrow>
        (let i = (next_slot b + off) mod DELEGATED_CAP in
         Some (i, b\<lparr>owner := (owner b)(i := Some who), next_slot := (i + 1) mod DELEGATED_CAP\<rparr>)))"

definition Band_owner_at :: "Band \<Rightarrow> nat \<Rightarrow> OwnerId option" where
  "Band_owner_at b i = (if i < DELEGATED_CAP then owner b i else None)"

definition Band_is_owner :: "Band \<Rightarrow> nat \<Rightarrow> OwnerId \<Rightarrow> bool" where
  "Band_is_owner b i who \<longleftrightarrow> Band_owner_at b i = Some who"

definition Band_free :: "nat \<Rightarrow> Band \<Rightarrow> Band" where
  "Band_free i b = (if i < DELEGATED_CAP then b\<lparr>owner := (owner b)(i := None)\<rparr> else b)"

definition Band_take_one_owned :: "OwnerId \<Rightarrow> Band \<Rightarrow> (nat \<times> Band) option" where
  "Band_take_one_owned who b =
    (case scan (\<lambda>i. owner b i = Some who) 0 DELEGATED_CAP of
       None \<Rightarrow> None
     | Some i \<Rightarrow> Some (i, b\<lparr>owner := (owner b)(i := None)\<rparr>))"

definition is_delegated :: "ResourceId \<Rightarrow> bool" where
  "is_delegated rid \<longleftrightarrow> rid \<ge> DELEGATED_BASE \<and> rid < DELEGATED_BASE + DELEGATED_CAP"

definition slot_of :: "ResourceId \<Rightarrow> nat" where "slot_of rid = rid - DELEGATED_BASE"
definition id_of :: "nat \<Rightarrow> ResourceId" where "id_of i = DELEGATED_BASE + i"

text \<open>\<open>allocate\<close>: \<open>None\<close> inside the result when the band is full, a panic when the reused
  identifier's generation would overflow.\<close>

definition allocate ::
  "OwnerId \<Rightarrow> Band \<Rightarrow> GlobalResourceTable
     \<Rightarrow> (ResourceId option \<times> Band \<times> GlobalResourceTable) panics" where
  "allocate who b g =
    (case Band_claim who b of
       None \<Rightarrow> Some (None, b, g)
     | Some (i, b') \<Rightarrow>
        (let rid = id_of i in
         case get_resource_generation g rid of
           Some gen \<Rightarrow> do {
             gen' \<leftarrow> Generation_bump gen;
             g' \<leftarrow> register_at_gen rid gen' g;
             Some (Some rid, b', g')
           }
         | None \<Rightarrow> do { g' \<leftarrow> register_resource rid g; Some (Some rid, b', g') }))"

definition owner_of :: "Band \<Rightarrow> ResourceId \<Rightarrow> OwnerId option" where
  "owner_of b rid = (if \<not> is_delegated rid then None else Band_owner_at b (slot_of rid))"

definition delegated_release :: "ResourceId \<Rightarrow> Band \<Rightarrow> Band" where
  "delegated_release rid b = (if is_delegated rid then Band_free (slot_of rid) b else b)"

definition revoke_owned ::
  "ResourceId \<Rightarrow> OwnerId \<Rightarrow> Band \<Rightarrow> GlobalResourceTable
     \<Rightarrow> (bool \<times> Band \<times> GlobalResourceTable) panics" where
  "revoke_owned rid caller b g =
    (if \<not> is_delegated rid then Some (False, b, g)
     else if \<not> Band_is_owner b (slot_of rid) caller then Some (False, b, g)
     else do { g' \<leftarrow> revoke_resource rid g; Some (True, Band_free (slot_of rid) b, g') })"

lemma take_one_owned_SomeD:
  assumes "Band_take_one_owned who b = Some (i, b')"
  shows "i < DELEGATED_CAP" "owner b i = Some who" "b' = b\<lparr>owner := (owner b)(i := None)\<rparr>"
  using assms scan_SomeD [of "\<lambda>i. owner b i = Some who" 0 DELEGATED_CAP i]
  by (auto simp: Band_take_one_owned_def split: option.splits)

lemma take_one_owned_None:
  "Band_take_one_owned who b = None \<longleftrightarrow> (\<forall>i<DELEGATED_CAP. owner b i \<noteq> Some who)"
  by (simp add: Band_take_one_owned_def scan_None)

definition owned_count :: "OwnerId \<Rightarrow> Band \<Rightarrow> nat" where
  "owned_count who b = count_below (\<lambda>i. owner b i = Some who) DELEGATED_CAP"

lemma owned_count_take:
  assumes "Band_take_one_owned who b = Some (i, b')"
  shows "Suc (owned_count who b') = owned_count who b"
proof -
  have "(\<lambda>j. owner b' j = Some who) = (\<lambda>j. owner b j = Some who)(i := False)"
    using take_one_owned_SomeD [OF assms] by (auto simp: fun_eq_iff)
  then show ?thesis
    unfolding owned_count_def using take_one_owned_SomeD [OF assms]
    by (simp only: count_below_clear)
qed

text \<open>\<open>release_owner\<close>: the reclaiming loop with its counter.\<close>

function release_owner_loop ::
  "OwnerId \<Rightarrow> nat \<Rightarrow> Band \<Rightarrow> GlobalResourceTable \<Rightarrow> (nat \<times> Band \<times> GlobalResourceTable) panics" where
  "release_owner_loop who freed b g =
    (case Band_take_one_owned who b of
       None \<Rightarrow> Some (freed, b, g)
     | Some (i, b') \<Rightarrow>
        (case mark_dead_resource (id_of i) g of
           None \<Rightarrow> None
         | Some g' \<Rightarrow> release_owner_loop who (freed + 1) b' g'))"
  by pat_completeness auto
termination
proof (relation "measure (\<lambda>(who, freed, b, g). owned_count who b)")
  fix who freed b g p i b' g'
  assume "Band_take_one_owned who b = Some p" "(i, b') = p"
  then show "((who, freed + 1, b', g'), who, freed, b, g)
      \<in> measure (\<lambda>(who, freed, b, g). owned_count who b)"
    using owned_count_take [of who b i b'] by simp
qed simp

definition release_owner ::
  "OwnerId \<Rightarrow> Band \<Rightarrow> GlobalResourceTable \<Rightarrow> (nat \<times> Band \<times> GlobalResourceTable) panics" where
  "release_owner who b g = release_owner_loop who 0 b g"

declare release_owner_loop.simps [simp del]

section \<open>The band as a pool of slots\<close>

definition Band_wf :: "Band \<Rightarrow> bool" where
  "Band_wf b \<longleftrightarrow> next_slot b < DELEGATED_CAP"

definition Band_live :: "Band \<Rightarrow> nat set" where
  "Band_live b = {i. i < DELEGATED_CAP \<and> owner b i \<noteq> None}"

lemma Band_new_wf [simp]: "Band_wf Band_new"
  by (simp add: Band_wf_def Band_new_def DELEGATED_CAP_def)

lemma DELEGATED_CAP_pos [simp]: "0 < DELEGATED_CAP"
  by (simp add: DELEGATED_CAP_def)

lemma claim_SomeD:
  assumes "Band_claim who b = Some (i, b')"
  shows "i < DELEGATED_CAP" "owner b i = None"
    "b' = b\<lparr>owner := (owner b)(i := Some who), next_slot := (i + 1) mod DELEGATED_CAP\<rparr>"
proof -
  obtain off where
    off: "scan (\<lambda>off. owner b ((next_slot b + off) mod DELEGATED_CAP) = None) 0 DELEGATED_CAP = Some off"
    and i: "i = (next_slot b + off) mod DELEGATED_CAP"
    and b': "b' = b\<lparr>owner := (owner b)(i := Some who), next_slot := (i + 1) mod DELEGATED_CAP\<rparr>"
    using assms by (simp add: Band_claim_def Let_def split: option.splits) blast
  show "i < DELEGATED_CAP" using i by simp
  show "owner b i = None" using scan_SomeD [OF off] i by simp
  show "b' = b\<lparr>owner := (owner b)(i := Some who), next_slot := (i + 1) mod DELEGATED_CAP\<rparr>" by (rule b')
qed

lemma claim_None_iff:
  assumes "Band_wf b"
  shows "Band_claim who b = None \<longleftrightarrow> Band_live b = {..<DELEGATED_CAP}"
proof -
  have "Band_claim who b = None \<longleftrightarrow>
      (\<forall>off<DELEGATED_CAP. owner b ((next_slot b + off) mod DELEGATED_CAP) \<noteq> None)"
    unfolding Band_claim_def Let_def by (simp add: scan_None)
  also have "\<dots> \<longleftrightarrow> (\<forall>i<DELEGATED_CAP. owner b i \<noteq> None)"
    using assms mod_cover [of "next_slot b" DELEGATED_CAP] unfolding Band_wf_def
    by (metis DELEGATED_CAP_pos mod_less_divisor)
  also have "\<dots> \<longleftrightarrow> Band_live b = {..<DELEGATED_CAP}"
    unfolding Band_live_def by blast
  finally show ?thesis .
qed

lemma claim_wf [inv_rules]: "Band_claim who b = Some (i, b') \<Longrightarrow> Band_wf b'"
  using claim_SomeD(3) [of who b i b'] by (simp add: Band_wf_def)

interpretation band_slots: id_pool Band_wf Band_live "Band_claim who" Band_free for who
proof unfold_locales
  fix b :: Band and i :: nat and b' :: Band
  assume c: "Band_claim who b = Some (i, b')"
  show "i \<notin> Band_live b" using claim_SomeD(2) [OF c] by (simp add: Band_live_def)
  show "Band_live b' = insert i (Band_live b)"
    using claim_SomeD(1,3) [OF c] by (auto simp: Band_live_def)
  show "Band_wf b'" using claim_wf [OF c] .
next
  fix b :: Band and i :: nat
  assume "Band_wf b" "i \<in> Band_live b"
  then show "Band_live (Band_free i b) = Band_live b - {i}"
    and "Band_wf (Band_free i b)" by (auto simp: Band_live_def Band_free_def Band_wf_def)
qed

section \<open>Ownership and generations\<close>

lemma slot_of_id_of [simp]: "slot_of (id_of i) = i"
  by (simp add: slot_of_def id_of_def)

lemma is_delegated_id_of [simp]: "is_delegated (id_of i) \<longleftrightarrow> i < DELEGATED_CAP"
  by (simp add: is_delegated_def id_of_def)

lemma id_of_slot_of: "is_delegated rid \<Longrightarrow> id_of (slot_of rid) = rid"
  by (simp add: is_delegated_def id_of_def slot_of_def)

lemma slot_of_less: "is_delegated rid \<Longrightarrow> slot_of rid < DELEGATED_CAP"
  by (auto simp: is_delegated_def slot_of_def)

lemma id_of_inject [simp]: "id_of i = id_of j \<longleftrightarrow> i = j"
  by (simp add: id_of_def)

lemma id_of_direct: "i < DELEGATED_CAP \<Longrightarrow> id_of i < DIRECT_CAP"
  by (simp add: id_of_def DELEGATED_BASE_def DELEGATED_CAP_def DIRECT_CAP_def)

lemma id_of_not_stable: "100 \<le> id_of i"
  by (simp add: id_of_def DELEGATED_BASE_def)

text \<open>Every owned slot of the band has a live record in the global table.\<close>

definition delegated_inv :: "Band \<Rightarrow> GlobalResourceTable \<Rightarrow> bool" where
  "delegated_inv b g \<longleftrightarrow> Band_wf b \<and>
    (\<forall>i\<in>Band_live b. \<exists>r. get_record g (id_of i) = Some r \<and> rec_liveness r = Alive)"

lemma allocate_SomeD:
  assumes "allocate who b g = Some (Some rid, b', g')"
  shows "\<exists>i. Band_claim who b = Some (i, b') \<and> rid = id_of i \<and>
    (case get_resource_generation g rid of
       Some gen \<Rightarrow> \<exists>gen'. Generation_bump gen = Some gen' \<and> register_at_gen rid gen' g = Some g'
     | None \<Rightarrow> register_at_gen rid INITIAL g = Some g')"
  using assms
  by (auto simp: allocate_def Let_def register_resource_def
      split: option.splits Option.bind_splits)

lemma allocate_record:
  assumes "allocate who b g = Some (Some rid, b', g')"
  shows "\<exists>gen'. get_record g' rid = Some \<lparr>rec_generation = gen', rec_liveness = Alive\<rparr>
    \<and> (case get_resource_generation g rid of Some gen \<Rightarrow> gen < gen' | None \<Rightarrow> gen' = INITIAL)"
proof -
  obtain i where c: "Band_claim who b = Some (i, b')" "rid = id_of i"
    using allocate_SomeD [OF assms] by auto
  have "rid < DIRECT_CAP" using claim_SomeD(1) [OF c(1)] c(2) by (simp add: id_of_direct)
  then have same: "register_at_gen rid x g = Some g' \<Longrightarrow>
      get_record g' rid = Some \<lparr>rec_generation = x, rec_liveness = Alive\<rparr>" for x
    using get_record_register_same by blast
  show ?thesis
    using allocate_SomeD [OF assms] same Generation_bump_less
    by (cases "get_resource_generation g rid") auto
qed

lemma allocate_other:
  assumes "allocate who b g = Some (Some rid, b', g')" "j \<noteq> rid"
  shows "get_record g' j = get_record g j"
  using allocate_SomeD [OF assms(1)] get_record_register_other [OF _ assms(2)]
  by (cases "get_resource_generation g rid") auto

text \<open>The slots a dying owner gives up.\<close>

definition owned_by :: "OwnerId \<Rightarrow> Band \<Rightarrow> ResourceId set" where
  "owned_by who b = {id_of i | i. i < DELEGATED_CAP \<and> owner b i = Some who}"

lemma owned_by_take:
  assumes "Band_take_one_owned who b = Some (i, b')"
  shows "owned_by who b' = owned_by who b - {id_of i}" "id_of i \<in> owned_by who b"
  using take_one_owned_SomeD [OF assms] by (auto simp: owned_by_def)

lemma release_owner_loop_spec:
  assumes "release_owner_loop who n b g = Some (m, b', g')"
  shows "m = n + owned_count who b \<and> next_slot b' = next_slot b
    \<and> (\<forall>i<DELEGATED_CAP. owner b' i = (if owner b i = Some who then None else owner b i))
    \<and> (\<forall>rid. rid \<notin> owned_by who b \<longrightarrow> get_record g' rid = get_record g rid)
    \<and> (\<forall>rid\<in>owned_by who b. \<forall>r. get_record g rid = Some r \<longrightarrow>
         (\<exists>r'. get_record g' rid = Some r' \<and> rec_liveness r' = Dead
            \<and> rec_generation r < rec_generation r'))"
  using assms
proof (induction who n b g rule: release_owner_loop.induct)
  case (1 who n b g)
  show ?case
  proof (cases "Band_take_one_owned who b")
    case None
    then have "\<forall>i<DELEGATED_CAP. owner b i \<noteq> Some who" by (simp add: take_one_owned_None)
    moreover from this have "owned_count who b = 0" by (simp add: owned_count_def count_below_pos)
    moreover have "m = n" "b' = b" "g' = g"
      using None "1.prems" by (simp_all add: release_owner_loop.simps)
    ultimately show ?thesis by (auto simp: owned_by_def)
  next
    case (Some p)
    obtain i b1 where p: "p = (i, b1)" by (cases p)
    from Some p "1.prems" obtain g1 where g1: "mark_dead_resource (id_of i) g = Some g1"
      and rest: "release_owner_loop who (n + 1) b1 g1 = Some (m, b', g')"
      by (auto simp: release_owner_loop.simps split: option.splits)
    note take = Some [unfolded p]
    note t = take_one_owned_SomeD [OF take] and ob = owned_by_take [OF take]
      and oc = owned_count_take [OF take]
    note ih = "1.IH" [OF Some p [symmetric] g1 rest]
    note g1 = g1 [unfolded mark_dead_resource_def]
    have rec_i: "\<exists>r'. get_record g' (id_of i) = Some r' \<and> rec_liveness r' = Dead
        \<and> rec_generation r < rec_generation r'" if rg: "get_record g (id_of i) = Some r" for r
    proof -
      obtain h where h: "Generation_bump (rec_generation r) = Some h"
        "get_record g1 (id_of i) = Some \<lparr>rec_generation = h, rec_liveness = Dead\<rparr>"
        using get_record_bump_same [OF g1 rg] .
      have "get_record g' (id_of i) = get_record g1 (id_of i)" using ih ob(1) by simp
      then show ?thesis using h(2) Generation_bump_less [OF h(1)] by simp
    qed
    have other: "get_record g1 rid = get_record g rid" if "rid \<noteq> id_of i" for rid
      using get_record_bump_other [OF g1 that] .
    then have "get_record g1 rid = get_record g rid" if "rid \<notin> owned_by who b" for rid
      using that ob(2) by metis
    then show ?thesis using other ih t ob oc rec_i by auto
  qed
qed

lemma delegated_inv_allocate [inv_rules]:
  assumes "delegated_inv b g" "allocate who b g = Some (r, b', g')"
  shows "delegated_inv b' g'"
proof (cases r)
  case None
  then show ?thesis using assms
    by (auto simp: allocate_def Let_def split: option.splits Option.bind_splits)
next
  case (Some rid)
  note al = assms(2) [unfolded Some]
  obtain i where c: "Band_claim who b = Some (i, b')" "rid = id_of i"
    using allocate_SomeD [OF al] by auto
  have "Band_live b' = insert i (Band_live b)"
    using claim_SomeD(1,3) [OF c(1)] by (auto simp: Band_live_def)
  moreover have "get_record g' (id_of j) = get_record g (id_of j)" if "j \<in> Band_live b" for j
    using that allocate_other [OF al, of "id_of j"] claim_SomeD(2) [OF c(1)] c(2)
    by (cases "j = i") (auto simp: Band_live_def)
  ultimately show ?thesis
    using assms(1) allocate_record [OF al] claim_wf [OF c(1)] c(2)
    by (auto simp: delegated_inv_def)
qed

lemma delegated_inv_release [inv_rules]: "delegated_inv b g \<Longrightarrow> delegated_inv (delegated_release rid b) g"
  by (auto simp: delegated_inv_def delegated_release_def Band_free_def Band_live_def Band_wf_def)

lemma revoke_owned_TrueD:
  assumes "revoke_owned rid caller b g = Some (True, b', g')"
  shows "is_delegated rid" "owner_of b rid = Some caller" "b' = Band_free (slot_of rid) b"
    "revoke_resource rid g = Some g'"
  using assms
  by (auto simp: revoke_owned_def Band_is_owner_def owner_of_def split: if_splits Option.bind_splits)

lemma revoke_owned_FalseD:
  "revoke_owned rid caller b g = Some (False, b', g') \<Longrightarrow>
   b' = b \<and> g' = g \<and> owner_of b rid \<noteq> Some caller"
  by (auto simp: revoke_owned_def Band_is_owner_def owner_of_def split: if_splits Option.bind_splits)

lemma delegated_inv_revoke [inv_rules]:
  assumes "delegated_inv b g" "revoke_owned rid caller b g = Some (ok, b', g')"
  shows "delegated_inv b' g'"
proof (cases ok)
  case True
  then have "revoke_owned rid caller b g = Some (True, b', g')" using assms(2) by simp
  note r = revoke_owned_TrueD [OF this]
  have "get_record g' (id_of i) = get_record g (id_of i)" if "i \<in> Band_live b'" for i
  proof -
    have "id_of i \<noteq> rid"
      using that r(1,3) slot_of_less [OF r(1)] by (auto simp: Band_live_def Band_free_def)
    then show ?thesis using get_record_bump_other r(4) by (simp add: revoke_resource_def)
  qed
  then show ?thesis
    using assms(1) r(3) by (auto simp: delegated_inv_def Band_live_def Band_free_def Band_wf_def)
next
  case False
  then show ?thesis using revoke_owned_FalseD [of rid caller b g b' g'] assms by simp
qed

lemma delegated_inv_release_owner [inv_rules]:
  assumes "delegated_inv b g" "release_owner who b g = Some (n, b', g')"
  shows "delegated_inv b' g'"
proof -
  note sp = release_owner_loop_spec [OF assms(2) [unfolded release_owner_def]]
  have "i \<in> Band_live b \<and> id_of i \<notin> owned_by who b" if "i \<in> Band_live b'" for i
    using that sp by (auto simp: Band_live_def owned_by_def split: if_splits)
  then show ?thesis using assms(1) sp by (auto simp: delegated_inv_def Band_wf_def)
qed

section \<open>Properties of delegated resources\<close>

text \<open>
  C13: allocating a delegated resource gives its owner an identifier of the band that nobody
  owned, registers it as alive, and, when the identifier had an earlier life, puts its
  generation strictly above every capability of that life, so none of them is accepted.
\<close>

theorem allocate_aba_safe:
  assumes "allocate who b g = Some (Some rid, b', g')"
  shows "is_delegated rid \<and> owner_of b rid = None \<and> owner_of b' rid = Some who
    \<and> (\<forall>t i c r. slot_cap t i = Some c \<longrightarrow> resource_id c = rid \<longrightarrow> cap_consistent g c
         \<longrightarrow> get_record g rid \<noteq> None \<longrightarrow> CapTable_get g' t i r = Inl CapRevoked)"
proof -
  obtain s where c: "Band_claim who b = Some (s, b')" "rid = id_of s"
    using allocate_SomeD [OF assms] by auto
  note cl = claim_SomeD [OF c(1)]
  have "CapTable_get g' t i r = Inl CapRevoked"
    if "slot_cap t i = Some c" "resource_id c = rid" "cap_consistent g c"
      "get_record g rid \<noteq> None" for t i c r
    using that allocate_record [OF assms] cap_consistentD [of g c]
    by (auto simp: CapTable_get_def get_resource_generation_def)
  then show ?thesis using cl c(2) by (auto simp: owner_of_def Band_owner_at_def)
qed

text \<open>A band in which endpoint 100 owns the first slot, and the matching resource table.\<close>

definition wit_band :: Band where
  "wit_band = Band_new\<lparr>owner := (\<lambda>_. None)(0 := Some 100), next_slot := 1\<rparr>"

definition wit_res :: GlobalResourceTable where
  "wit_res = GlobalResourceTable_new\<lparr>records := (\<lambda>_. EMPTY_RECORD)(4096 := EMPTY_RECORD),
        present := (\<lambda>_. False)(4096 := True)\<rparr>"

definition wit_file_cap :: Capability where
  "wit_file_cap = \<lparr>resource_id = 4096, rights = READ, generation = INITIAL\<rparr>"

lemma wit_allocate:
  "allocate 100 Band_new GlobalResourceTable_new = Some (Some 4096, wit_band, wit_res)"
proof -
  have "scan (\<lambda>off. owner Band_new ((next_slot Band_new + off) mod DELEGATED_CAP) = None) 0
      DELEGATED_CAP = Some 0"
    by (rule scan_hit) (simp_all add: Band_new_def)
  then have "Band_claim 100 Band_new = Some (0, wit_band)"
    by (simp add: Band_claim_def Band_new_def DELEGATED_CAP_def wit_band_def)
  then show ?thesis
    by (simp add: allocate_def id_of_def DELEGATED_BASE_def get_resource_generation_def
        get_record_def GlobalResourceTable_new_def register_resource_def register_at_gen_def
        DIRECT_CAP_def EMPTY_RECORD_def wit_res_def)
qed

lemma wit_delegated_inv: "delegated_inv wit_band wit_res"
proof (rule delegated_inv_allocate [OF _ wit_allocate])
  show "delegated_inv Band_new GlobalResourceTable_new"
    by (simp add: delegated_inv_def Band_live_def Band_new_def Band_wf_def)
qed

lemma wit_get_record: "get_record wit_res 4096 = Some EMPTY_RECORD"
  by (simp add: wit_res_def get_record_def DIRECT_CAP_def)

lemma wit_consistent: "cap_consistent wit_res wit_file_cap"
  by (simp add: cap_consistent_def get_resource_generation_def wit_get_record wit_file_cap_def
      EMPTY_RECORD_def)

theorem allocate_aba_safe_witness:
  "is_delegated 4096 \<and> owner_of wit_band 4096 = Some 100"
  using allocate_aba_safe [OF wit_allocate] by blast

text \<open>
  C22: revocation is the owner's: \<open>revoke_owned\<close> succeeds only for the endpoint that owns the
  resource, and then every capability on it is refused as revoked and nobody owns it; for
  anyone else it changes nothing.
\<close>

theorem revoke_owned_spec:
  assumes "revoke_owned rid caller b g = Some (ok, b', g')" and "delegated_inv b g"
  shows "ok = (owner_of b rid = Some caller)
    \<and> (\<not> ok \<longrightarrow> b' = b \<and> g' = g)
    \<and> (ok \<longrightarrow> owner_of b' rid = None \<and>
        (\<forall>t i c r. slot_cap t i = Some c \<longrightarrow> resource_id c = rid \<longrightarrow> cap_consistent g c
          \<longrightarrow> CapTable_get g' t i r = Inl CapRevoked))"
proof (cases ok)
  case True
  then have "revoke_owned rid caller b g = Some (True, b', g')" using assms(1) by simp
  note r = revoke_owned_TrueD [OF this]
  have "slot_of rid \<in> Band_live b"
    using r(1,2) slot_of_less [OF r(1)] by (auto simp: owner_of_def Band_owner_at_def Band_live_def)
  then obtain rec where rec: "get_record g rid = Some rec"
    using assms(2) id_of_slot_of [OF r(1)] by (fastforce simp: delegated_inv_def)
  have "CapTable_get g' t i rr = Inl CapRevoked"
    if h: "slot_cap t i = Some c" "resource_id c = rid" "cap_consistent g c" for t i c rr
  proof -
    obtain r' where "get_record g' rid = Some r'" "rec_liveness r' = Revoked"
      "generation c < rec_generation r'"
      using bumped_generation_differs [OF r(4) [unfolded revoke_resource_def] rec]
        cap_consistentD [of g c rec] h rec by blast
    then show ?thesis using h by (auto simp: CapTable_get_def)
  qed
  then show ?thesis using True r slot_of_less [OF r(1)]
    by (auto simp: owner_of_def Band_owner_at_def Band_free_def)
next
  case False
  then show ?thesis using revoke_owned_FalseD [of rid caller b g b' g'] assms(1) by simp
qed

theorem revoke_owned_spec_witness:
  "\<exists>b' g'. revoke_owned 4096 100 wit_band wit_res = Some (True, b', g')
    \<and> CapTable_get g' \<lparr>slots = [Some wit_file_cap]\<rparr> 0 READ = Inl CapRevoked"
proof -
  obtain b' g' where r: "revoke_owned 4096 100 wit_band wit_res = Some (True, b', g')"
    by (simp add: revoke_owned_def is_delegated_def slot_of_def Band_is_owner_def Band_owner_at_def
        DELEGATED_BASE_def DELEGATED_CAP_def wit_band_def revoke_resource_def bump_generation_def
        wit_res_def DIRECT_CAP_def EMPTY_RECORD_def INITIAL_def Generation_bump_def
        checked_add_def)
  then show ?thesis
    using revoke_owned_spec [OF r wit_delegated_inv] wit_consistent
    by (auto simp: slot_cap_def wit_file_cap_def)
qed

text \<open>
  C21: the death of a service reclaims every delegated resource it owned and no other: the
  reclaiming loop ends, reports exactly how many there were, leaves other owners' slots
  alone, and marks each reclaimed resource dead at a higher generation.
\<close>

theorem release_owner_complete:
  assumes "release_owner who b g = Some (n, b', g')"
  shows "n = owned_count who b \<and> owned_by who b' = {}
    \<and> (\<forall>i<DELEGATED_CAP. owner b i \<noteq> Some who \<longrightarrow> owner b' i = owner b i)
    \<and> (\<forall>rid. rid \<notin> owned_by who b \<longrightarrow> get_record g' rid = get_record g rid)
    \<and> (\<forall>rid\<in>owned_by who b. \<forall>t i c r. slot_cap t i = Some c \<longrightarrow> resource_id c = rid
         \<longrightarrow> cap_consistent g c \<longrightarrow> get_record g rid \<noteq> None
         \<longrightarrow> CapTable_get g' t i r = Inl CapEndpointDead)"
proof -
  note sp = release_owner_loop_spec [OF assms [unfolded release_owner_def]]
  have "CapTable_get g' t i r = Inl CapEndpointDead"
    if h: "rid \<in> owned_by who b" "slot_cap t i = Some c" "resource_id c = rid" "cap_consistent g c"
      "get_record g rid \<noteq> None" for rid t i c r
  proof -
    obtain rec where rec: "get_record g rid = Some rec" using h(5) by blast
    then obtain r' where "get_record g' rid = Some r'" "rec_liveness r' = Dead"
      "rec_generation rec < rec_generation r'" using sp h(1) by blast
    moreover have "generation c \<le> rec_generation rec" using cap_consistentD h rec by blast
    ultimately show ?thesis using h by (auto simp: CapTable_get_def)
  qed
  moreover have "owned_by who b' = {}" using sp by (auto simp: owned_by_def split: if_splits)
  ultimately show ?thesis using sp by simp
qed

theorem release_owner_complete_witness:
  "\<exists>b' g'. release_owner 100 wit_band wit_res = Some (1, b', g')
    \<and> CapTable_get g' \<lparr>slots = [Some wit_file_cap]\<rparr> 0 READ = Inl CapEndpointDead"
proof -
  have "Band_take_one_owned 100 wit_band = Some (0, wit_band\<lparr>owner := (\<lambda>_. None)\<rparr>)"
    by (simp add: Band_take_one_owned_def scan_hit wit_band_def)
  moreover have "Band_take_one_owned 100 (wit_band\<lparr>owner := (\<lambda>_. None)\<rparr>) = None"
    by (simp add: take_one_owned_None)
  moreover obtain g' where "mark_dead_resource 4096 wit_res = Some g'"
    by (simp add: mark_dead_resource_def bump_generation_def wit_res_def DIRECT_CAP_def
        EMPTY_RECORD_def INITIAL_def Generation_bump_def checked_add_def)
  ultimately have r: "release_owner 100 wit_band wit_res = Some (1, wit_band\<lparr>owner := (\<lambda>_. None)\<rparr>, g')"
    by (simp add: release_owner_def release_owner_loop.simps id_of_def DELEGATED_BASE_def)
  have "4096 \<in> owned_by 100 wit_band"
    by (auto simp: owned_by_def wit_band_def id_of_def DELEGATED_BASE_def intro!: exI [of _ 0])
  then show ?thesis
    using r release_owner_complete [OF r] wit_consistent wit_get_record
    by (auto simp: slot_cap_def wit_file_cap_def)
qed

end
