(* ===== verification/Bytes.thy ===== *)
theory Bytes
  imports Prelude
begin

text \<open>
  Little-endian encodings: \<open>to_le_bytes\<close> and \<open>from_le_bytes\<close> of Rust's fixed-width integers, at any width,
  and reading a field of a byte record (\<open>data[o..o+n]\<close>).
\<close>

unbundle bit_operations_syntax

definition to_le_bytes :: "nat \<Rightarrow> 'a::len word \<Rightarrow> u8 list" where
  "to_le_bytes n w = map (\<lambda>i. ucast (drop_bit (8 * i) w)) [0..<n]"

primrec from_le_bytes :: "u8 list \<Rightarrow> 'a::len word" where
  "from_le_bytes [] = 0"
| "from_le_bytes (b # bs) = ucast b OR push_bit 8 (from_le_bytes bs)"

definition bytes_at :: "nat \<Rightarrow> nat \<Rightarrow> u8 list \<Rightarrow> u8 list" where
  "bytes_at off n d = take n (drop off d)"

lemma to_le_bytes_length [simp]: "length (to_le_bytes n w) = n"
  by (simp add: to_le_bytes_def)

lemma to_le_bytes_Suc: "to_le_bytes (Suc n) w = ucast w # to_le_bytes n (drop_bit 8 w)"
proof -
  have "[0..<Suc n] = 0 # map Suc [0..<n]" by (simp add: upt_conv_Cons map_Suc_upt del: upt_Suc)
  then show ?thesis
    by (simp add: to_le_bytes_def o_def add.commute [of "8 * _" 8] del: upt_Suc)
qed

lemma from_to_le_bits:
  fixes w :: "'a::len word"
  shows "bit (from_le_bytes (to_le_bytes n w) :: 'a word) k \<longleftrightarrow> bit w k \<and> k < 8 * n"
proof (induction n arbitrary: w k)
  case 0
  then show ?case by (simp add: to_le_bytes_def)
next
  case (Suc n)
  show ?case
    using bit_imp_le_length [of w k]
    by (auto simp: to_le_bytes_Suc bit_or_iff bit_push_bit_iff Suc bit_drop_bit_eq bit_unsigned_iff not_less)
qed

text \<open>Decoding an encoding gives the value back when the byte count covers its width.\<close>

lemma from_to_le_bytes [simp]:
  fixes w :: "'a::len word"
  assumes "LENGTH('a) \<le> 8 * n"
  shows "(from_le_bytes (to_le_bytes n w) :: 'a word) = w"
proof (rule bit_word_eqI)
  fix k assume "k < LENGTH('a)"
  then show "bit (from_le_bytes (to_le_bytes n w) :: 'a word) k = bit w k"
    using assms by (simp add: from_to_le_bits)
qed

lemma bytes_at_app [simp]:
  "bytes_at (length xs) n (xs @ ys) = take n ys"
  by (simp add: bytes_at_def)

lemma bytes_at_length: "off + n \<le> length d \<Longrightarrow> length (bytes_at off n d) = n"
  by (simp add: bytes_at_def)

end
