(* ===== verification/Kernel_State.thy ===== *)
theory Kernel_State
  imports Sched Delegated Endpoint_Ids Bytes Frame_Alloc
begin

text \<open>
  The statics of the kernel's parts as one record (with the counters and per-device records of the spawn path), and the operations that cross parts at the
  hardware boundary: interrupt routing (\<open>kernel/src/interrupt/route.rs\<close>) and the freeing of what a task that
  killed itself left behind. What the kernel asks of the hardware and of the code under
  \<open>arch/\<close> is recorded in \<open>hw\<close>, in order; it has no effect on the kernel's own state.
\<close>

section \<open>State\<close>

datatype HwOp =
    MaskVector nat
  | UnmaskVector nat
  | SendEoi
  | ReleaseForeground slot
  | ReclaimScreen
  | ClearBusMaster nat
  | ReleaseDevice nat
  | ReclaimUserFrames u64
  | FreePageTableRoot u64
  | FreeKstack u64
  | WriteUser u64 "u8 list"
  | LogBytes "u8 list"
  | ConsoleBytes "u8 list" bool
  | RxDrain
  | SetReadWaiter "slot option"
  | ReleaseConsoleForeground
  | ClaimConsoleForeground slot
  | ConsolePushByte u8
  | SetConsoleEcho bool
  | ConsoleBootDone
  | SetInputReady
  | FireTestIrq u8
  | HardwareReset
  | PowerOffMachine
  | SetDevicePower nat bool
  | SetCpuClock bool
  | PciCfgRead32 u32 nat
  | NetTx "u8 list"
  | NetRx nat
  | GpioOp nat nat
  | UsbDiskReadBlock u64
  | UsbDiskWriteBlock u64 "u8 list"
  | UsbDiskFlushCache
  | HiresArm slot nat
  | HiresRelease slot
  | MapPage u64 nat
  | EhciHandoff
  | ProgramEhciMsi nat
  | ProgramMsi u32 u8 nat
  | ReleaseScreen
  | ConfineDevice u32 nat nat
  | SetPowerD0 u32
  | SetBusMaster u32

record Kernel =
  sched :: Sched
  routing :: Routing
  res :: GlobalResourceTable
  band :: Band
  names_dir :: names
  ids :: EndpointIds
  irq_table :: "nat \<Rightarrow> EndpointId option"
  hw :: "HwOp list"
  respawn_flag :: bool
  death_unheard :: nat
  death_dropped :: nat
  pending_kstack :: "nat \<Rightarrow> u64 list"
  pending_pml4 :: "nat \<Rightarrow> u64"
  mem :: BitmapAllocator
  gen_counter :: u32
  spawn_rr :: u32
  dma_kept :: "nat \<Rightarrow> u64"
  msi_next :: nat
  msi_vec :: "nat \<Rightarrow> u8"

definition emit :: "HwOp list \<Rightarrow> Kernel \<Rightarrow> Kernel" where
  "emit ops k = k\<lparr>hw := hw k @ ops\<rparr>"

definition wake :: "nat \<Rightarrow> slot \<Rightarrow> int \<Rightarrow> Kernel \<Rightarrow> Kernel" where
  "wake cid i result k = k\<lparr>sched := wake_by_slot cid i result (sched k)\<rparr>"

section \<open>Interrupt routing\<close>

definition MAX_IRQ :: nat where "MAX_IRQ = 256"
definition IRQ_NOTIFY_RESERVE :: nat where "IRQ_NOTIFY_RESERVE = QUEUE_DEPTH div 2"

definition irq_register :: "u8 \<Rightarrow> EndpointId \<Rightarrow> Kernel \<Rightarrow> Kernel" where
  "irq_register irq ep k =
    emit [UnmaskVector (unat irq)] (k\<lparr>irq_table := (irq_table k)(unat irq := Some ep)\<rparr>)"

definition irq_unregister_endpoint :: "EndpointId \<Rightarrow> Kernel \<Rightarrow> nat \<times> Kernel" where
  "irq_unregister_endpoint ep k =
    (let irqs = filter (\<lambda>irq. irq_table k irq = Some ep) [0..<MAX_IRQ] in
     (length irqs,
      emit (map MaskVector irqs)
        (k\<lparr>irq_table := (\<lambda>irq. if irq < MAX_IRQ \<and> irq_table k irq = Some ep then None else irq_table k irq)\<rparr>)))"

definition registered_endpoint :: "Kernel \<Rightarrow> u8 \<Rightarrow> EndpointId option" where
  "registered_endpoint k irq = irq_table k (unat irq)"

definition irq_deliver :: "nat \<Rightarrow> u8 \<Rightarrow> Kernel \<Rightarrow> Kernel" where
  "irq_deliver cid irq k =
    (let k1 = emit [MaskVector (unat irq)] k;
         k2 = (case irq_table k1 (unat irq) of
                 None \<Rightarrow> k1
               | Some ep \<Rightarrow>
                  if endpoint_queue_depth (routing k1) ep < IRQ_NOTIFY_RESERVE then
                    (case enqueue_from_interrupt ep (interrupt_event irq) (routing k1) of
                       (Woke rx, r) \<Rightarrow> wake cid rx 0 (k1\<lparr>routing := r\<rparr>)
                     | (_, r) \<Rightarrow> k1\<lparr>routing := r\<rparr>)
                  else k1) in
     emit [SendEoi] k2)"

section \<open>Deferred frees\<close>

definition PENDING_KSTACK_CAP :: nat where "PENDING_KSTACK_CAP = 8"

definition drain_pending_kstack :: "nat \<Rightarrow> Kernel \<Rightarrow> Kernel" where
  "drain_pending_kstack cid k =
    (let stacks = filter (\<lambda>s. s \<noteq> 0) (pending_kstack k cid); root = pending_pml4 k cid in
     emit (map FreeKstack stacks @ (if root \<noteq> 0 then [FreePageTableRoot root] else []))
       (k\<lparr>pending_kstack := (pending_kstack k)(cid := []), pending_pml4 := (pending_pml4 k)(cid := 0)\<rparr>))"

section \<open>How a task ended\<close>

definition KILLED :: u8 where "KILLED = 0x4B"
definition FAULT :: u8 where "FAULT = 0x46"
definition EXITED :: u8 where "EXITED = 0x45"

datatype Cause = Killed slot | Fault u8 u64 | Exited u32

definition task_name :: "Sched \<Rightarrow> slot \<Rightarrow> name_bytes" where
  "task_name s i = (if i < MAX_TASKS then t_name (tasks s i) else [])"

definition DEATH_NOTE_MAX :: nat where "DEATH_NOTE_MAX = 2 * TASK_NAME_MAX + 16"

definition death_note :: "Sched \<Rightarrow> name_bytes \<Rightarrow> Cause \<Rightarrow> u8 list" where
  "death_note s nm cause =
    take TASK_NAME_MAX nm @ [0] @
    (case cause of
       Killed killer \<Rightarrow> KILLED # take TASK_NAME_MAX (task_name s killer)
     | Fault kind addr \<Rightarrow> FAULT # kind # to_le_bytes 8 addr
     | Exited status \<Rightarrow> EXITED # to_le_bytes 4 status)"

end
