(* ===== verification/Kill.thy ===== *)
theory Kill
  imports Kernel_State
begin

text \<open>
  Ending a task (\<open>kernel/src/task/scheduler.rs\<close>, \<open>kill_task_by_slot\<close>; \<open>kernel/src/task/mod.rs\<close>,
  \<open>kill_by_name\<close>, \<open>kill_current\<close>), one definition per phase of the function in its order: claim the kill,
  tear down the reply mailbox, tear down the primary endpoint, count and report the death, quiesce
  the device, wait for the other cores, and give back the memory and the slot.
\<close>

definition SUPERVISOR :: name_bytes where
  "SUPERVISOR = [0x73, 0x75, 0x70, 0x65, 0x72, 0x76, 0x69, 0x73, 0x6F, 0x72]"

definition FRAMEBUFFER :: nat where "FRAMEBUFFER = 6"

text \<open>The first lines, under the slot lock: \<open>None\<close> when there is nothing to kill or another core is
  already killing the task.\<close>

definition kill_claim :: "slot \<Rightarrow> Kernel \<Rightarrow> Kernel option" where
  "kill_claim i k =
    (if i \<ge> MAX_TASKS \<or> \<not> t_valid (tasks (sched k) i) then None
     else if t_state (tasks (sched k) i) = TaskDead then None
     else Some (k\<lparr>sched := upd_task i (\<lambda>t. t\<lparr>t_state := TaskDead\<rparr>) (sched k)\<rparr>))"

definition wake_other :: "nat \<Rightarrow> slot \<Rightarrow> int \<Rightarrow> slot option \<Rightarrow> Kernel \<Rightarrow> Kernel" where
  "wake_other cid i result who k =
    (case who of Some s \<Rightarrow> (if s \<noteq> i then wake cid s result k else k) | None \<Rightarrow> k)"

text \<open>The task's records of waiting and of the screen, then its reply mailbox.\<close>

definition supervised :: "Kernel \<Rightarrow> slot \<Rightarrow> bool" where
  "supervised k i \<longleftrightarrow> task_watched (sched k) i \<or> task_name (sched k) i = SUPERVISOR"

definition kill_reply_mailbox :: "nat \<Rightarrow> slot \<Rightarrow> Kernel \<Rightarrow> Kernel panics" where
  "kill_reply_mailbox cid i k =
    (let k0 = emit [ReleaseForeground i] (k\<lparr>routing := clear_call_await i (routing k)\<rparr>) in
     case ep_from_u64 (t_reply_endpoint (tasks (sched k0) i)) of
       None \<Rightarrow> Some k0
     | Some rep \<Rightarrow> do {
         ((rx, tx), r) \<leftarrow> kill_endpoint rep (routing k0);
         let k1 = wake_other cid i (- 7) tx (wake_other cid i (- 7) rx (k0\<lparr>routing := r\<rparr>));
         g \<leftarrow> mark_dead_resource rep (res k1);
         let k2 = k1\<lparr>res := g, sched := upd_task i (\<lambda>t. t\<lparr>t_reply_endpoint := 0\<rparr>) (sched k1)\<rparr>;
         let k3 = (if supervised k2 i then k2\<lparr>routing := bank_mailbox_credit (routing k2)\<rparr> else k2);
         Some (k3\<lparr>ids := free_endpoint_id rep (ids k3)\<rparr>)
       })"

text \<open>The primary endpoint. \<open>reply\<close> is the reply mailbox found before it was torn down.\<close>

definition kill_primary_endpoint :: "nat \<Rightarrow> slot \<Rightarrow> EndpointId option \<Rightarrow> Kernel \<Rightarrow> Kernel panics" where
  "kill_primary_endpoint cid i reply k =
    (case ep_from_u64 (t_endpoint (tasks (sched k) i)) of
       None \<Rightarrow> Some k
     | Some ep \<Rightarrow> do {
         ((rx, tx), r) \<leftarrow> kill_endpoint ep (routing k);
         let k1 = wake_other cid i (- 7) tx (wake_other cid i (- 7) rx (k\<lparr>routing := r\<rparr>));
         (waiters, r2) \<leftarrow> drain_call_waiters ep (routing k1);
         let k2 = fold (\<lambda>w. wake_other cid i (- 12) (Some w)) waiters (k1\<lparr>routing := r2\<rparr>);
         g \<leftarrow> mark_dead_resource ep (res k2);
         (reclaimed, b, g2) \<leftarrow> release_owner ep (band k2) g;
         let (outcome, ns) = unregister_endpoint (task_name (sched k2) i) ep (names_dir k2);
         let k3 = k2\<lparr>res := g2, band := b, names_dir := ns\<rparr>;
         let (n1, k4) = irq_unregister_endpoint ep k3;
         let k5 = (case reply of Some rep \<Rightarrow> snd (irq_unregister_endpoint rep k4) | None \<Rightarrow> k4);
         Some (k5\<lparr>ids := free_endpoint_id ep (ids k5)\<rparr>)
       })"

text \<open>The restart counter, the screen, the notice to the supervisor, and the supervisor's own respawn.\<close>

definition send_death_note :: "nat \<Rightarrow> slot \<Rightarrow> Cause \<Rightarrow> Kernel \<Rightarrow> Kernel" where
  "send_death_note cid i cause k =
    (case (names_lookup (names_dir k) SUPERVISOR,
           Message_new (death_note (sched k) (task_name (sched k) i) cause)) of
       (Some sep, Inr msg) \<Rightarrow>
         (case enqueue_from_interrupt sep msg (routing k) of
            (Woke s, r) \<Rightarrow> wake cid s 0 (k\<lparr>routing := r\<rparr>)
          | (Queued, r) \<Rightarrow> k\<lparr>routing := r\<rparr>
          | (NoEndpoint, r) \<Rightarrow> k\<lparr>routing := r, death_unheard := death_unheard k + 1\<rparr>
          | (EnqueueFull, r) \<Rightarrow> k\<lparr>routing := r, death_dropped := death_dropped k + 1\<rparr>)
     | _ \<Rightarrow> k)"

definition kill_report :: "nat \<Rightarrow> slot \<Rightarrow> Cause \<Rightarrow> Kernel \<Rightarrow> Kernel" where
  "kill_report cid i cause k =
    (let k1 = (if supervised k i then k\<lparr>sched := bump_name_restart (task_name (sched k) i) (sched k)\<rparr> else k);
         k2 = (if task_hw_kind (sched k1) i = FRAMEBUFFER then emit [ReclaimScreen] k1 else k1);
         k3 = (if task_watched (sched k2) i then send_death_note cid i cause k2 else k2) in
     if task_name (sched k3) i = SUPERVISOR then k3\<lparr>respawn_flag := True\<rparr> else k3)"

definition kill_quiesce :: "slot \<Rightarrow> Kernel \<Rightarrow> Kernel" where
  "kill_quiesce i k =
    (let (bdf, s) = take_task_hw_bdf i (sched k); k1 = k\<lparr>sched := s\<rparr> in
     if bdf \<noteq> NO_BDF then emit [ClearBusMaster bdf, ReleaseDevice bdf] k1 else k1)"

section \<open>Waiting for the other cores\<close>

definition MAX_WAIT_EXTENSIONS :: nat where "MAX_WAIT_EXTENSIONS = 4"

text \<open>What one pass of the waiting loop reads of another core: whether it still uses the slot, whether
  the window is over, and whether it took an interrupt or wrote output during the window. The wake-up
  that the loop sends again every 4096 passes is left out.\<close>

record Sample =
  s_using :: bool
  s_over :: bool
  s_progress :: bool

datatype WaitResult = LetGo | Abandoned | StillWaiting

fun wait_core :: "nat \<Rightarrow> Sample list \<Rightarrow> WaitResult" where
  "wait_core ext [] = StillWaiting"
| "wait_core ext (x # xs) =
    (if \<not> s_using x then LetGo
     else if s_over x then
       (if s_progress x \<and> ext < MAX_WAIT_EXTENSIONS then wait_core (ext + 1) xs else Abandoned)
     else wait_core ext xs)"

text \<open>The wait for all cores but the caller's, in order; \<open>look c\<close> is what the loop reads of core \<open>c\<close>.\<close>

fun wait_cores :: "(nat \<Rightarrow> Sample list) \<Rightarrow> nat \<Rightarrow> nat list \<Rightarrow> WaitResult" where
  "wait_cores look my_core [] = LetGo"
| "wait_cores look my_core (c # cs) =
    (if c = my_core then wait_cores look my_core cs
     else case wait_core 0 (look c) of
       LetGo \<Rightarrow> wait_cores look my_core cs
     | other \<Rightarrow> other)"

definition kill_poke :: "nat \<Rightarrow> slot \<Rightarrow> Kernel \<Rightarrow> Kernel" where
  "kill_poke cid i k =
    k\<lparr>sched := (sched k)\<lparr>ipis := ipis (sched k) @
        filter (\<lambda>c. c \<noteq> cid \<and> core_still_using (sched k) c i) [0..<num_cores (sched k)]\<rparr>\<rparr>"

section \<open>Giving back the memory and the slot\<close>

definition pml4_of :: "u64 \<Rightarrow> u64" where "pml4_of cr3 = and cr3 (not 0xFFF)"

definition kill_reclaim :: "nat \<Rightarrow> slot \<Rightarrow> Kernel \<Rightarrow> Kernel" where
  "kill_reclaim cid i k =
    (let t = tasks (sched k) i; self = core_current (sched k) cid = i; cr3 = t_cr3 t; root = pml4_of cr3 in
     if t_is_user t \<and> cr3 \<noteq> 0 then
       (let k1 = emit [ReclaimUserFrames cr3] k in
        if self then (if root \<noteq> 0 then k1\<lparr>pending_pml4 := (pending_pml4 k1)(cid := root)\<rparr> else k1)
        else if root \<noteq> 0 then emit [FreePageTableRoot root] k1 else k1)
     else k)"

definition kill_release :: "nat \<Rightarrow> slot \<Rightarrow> Kernel \<Rightarrow> Kernel" where
  "kill_release cid i k =
    (let t = tasks (sched k) i; kstack = t_kstack_top t in
     if core_current (sched k) cid = i then
       (let k1 = (if t_is_user t \<and> kstack \<noteq> 0 then
                    (if length (pending_kstack k cid) < PENDING_KSTACK_CAP
                     then k\<lparr>pending_kstack := (pending_kstack k)(cid := pending_kstack k cid @ [kstack])\<rparr>
                     else emit [FreeKstack kstack] k)
                  else k) in
        k1\<lparr>sched := upd_task i (\<lambda>t. t\<lparr>t_valid := False\<rparr>) (sched k1)\<rparr>)
     else
       (let k1 = (if t_is_user t then emit [FreeKstack kstack] k else k) in
        k1\<lparr>sched := upd_task i (\<lambda>t. t\<lparr>t_state := TaskDead, t_valid := False\<rparr>) (sched k1)\<rparr>))"

definition kill_task_by_slot ::
  "(nat \<Rightarrow> Sample list) \<Rightarrow> nat \<Rightarrow> slot \<Rightarrow> Cause \<Rightarrow> Kernel \<Rightarrow> Kernel panics" where
  "kill_task_by_slot look cid i cause k =
    (case kill_claim i k of
       None \<Rightarrow> Some k
     | Some k0 \<Rightarrow> do {
         k1 \<leftarrow> kill_reply_mailbox cid i k0;
         k2 \<leftarrow> kill_primary_endpoint cid i (ep_from_u64 (t_reply_endpoint (tasks (sched k0) i))) k1;
         let k3 = kill_poke cid i (kill_quiesce i (kill_report cid i cause k2));
         Some (if wait_cores look cid [0..<num_cores (sched k3)] = LetGo
               then kill_release cid i (kill_reclaim cid i k3) else k3)
       })"

text \<open>\<open>kill_by_name\<close>: kill live tasks of this name until there is none; \<open>kill_current\<close> ends the running
  task for a fault and then yields.\<close>

partial_function (option) kill_by_name_loop ::
  "(nat \<Rightarrow> Sample list) \<Rightarrow> nat \<Rightarrow> name_bytes \<Rightarrow> Cause \<Rightarrow> bool \<Rightarrow> Kernel \<Rightarrow> (bool \<times> Kernel) option" where
  "kill_by_name_loop look cid nm cause found k =
    (case find_task_by_name (sched k) nm of
       None \<Rightarrow> Some (found, k)
     | Some i \<Rightarrow> do {
         k' \<leftarrow> kill_task_by_slot look cid i cause k;
         kill_by_name_loop look cid nm cause True k'
       })"

definition kill_by_name ::
  "(nat \<Rightarrow> Sample list) \<Rightarrow> nat \<Rightarrow> name_bytes \<Rightarrow> Cause \<Rightarrow> Kernel \<Rightarrow> (bool \<times> Kernel) option" where
  "kill_by_name look cid nm cause k = kill_by_name_loop look cid nm cause False k"

definition kill_current ::
  "(nat \<Rightarrow> Sample list) \<Rightarrow> nat \<Rightarrow> u8 \<Rightarrow> u64 \<Rightarrow> Kernel \<Rightarrow> Kernel panics" where
  "kill_current look cid kind addr k =
    (let i = core_current (sched k) cid in do {
       k' \<leftarrow> (if i < MAX_TASKS then kill_task_by_slot look cid i (Fault kind addr) k else Some k);
       Some (k'\<lparr>sched := yield_current cid (respawn_flag k') (sched k')\<rparr>)
     })"

end
