(* ===== verification/Syscall.thy ===== *)
theory Syscall
  imports Kill
begin

text \<open>
  The system-call handlers that move messages and capabilities (\<open>kernel/src/syscall/dispatch.rs\<close>), on the
  x86-64 port's copies to and from user memory (\<open>kernel/src/arch/x86_64/syscall_entry.rs\<close>).

  A handler is a function of the kernel state on core \<open>cid\<close>, for the task that runs there. Its result is an
  \<open>Outcome\<close>: it returns a value to the caller, blocks the caller (the core runs something else), goes round its loop
  again at once, or never comes back. A loop that blocks is given as one pass; \<open>resume\<close> functions say how it goes on
  when the task is switched in again. What user memory holds and what the devices answer is the argument \<open>Env\<close>; what the
  kernel writes to user memory is recorded in \<open>hw\<close>.
\<close>

unbundle bit_operations_syntax

section \<open>Outcomes and the environment\<close>

datatype Outcome = Return int | Blocked | Again | NoReturn

datatype Armed = Elapsed | ArmFull | Pending

record Env =
  user_mem :: "u64 \<Rightarrow> u8"
  ticks_per_quantum :: u64
  foreground_allows :: "slot \<Rightarrow> bool"
  rx_pop :: "u8 option"
  hires_arm :: "slot \<Rightarrow> nat \<Rightarrow> Armed"
  map_ok :: "u64 \<Rightarrow> bool"
  device_power :: "nat \<Rightarrow> bool \<Rightarrow> bool"
  cpu_clock :: "bool \<Rightarrow> u64 option"
  pci_cfg_read32 :: "u32 \<Rightarrow> nat \<Rightarrow> u32 option"
  net_tx :: "u8 list \<Rightarrow> bool"
  net_rx :: "nat \<Rightarrow> u8 list"
  net_info :: "(u8 list \<times> bool) option"
  gpio_op :: "nat \<Rightarrow> nat \<Rightarrow> int"
  usb_disk_sectors :: u32
  usb_disk_read :: "u64 \<Rightarrow> u8 list option"
  usb_disk_write :: "u64 \<Rightarrow> u8 list \<Rightarrow> bool"
  usb_disk_absent :: bool
  usb_disk_busy :: bool
  usb_disk_flush :: bool
  inspect_fact :: "nat \<Rightarrow> int"
  core_ticks :: "bool \<Rightarrow> nat \<Rightarrow> u64"
  boot_record :: "u8 list"
  run_ticks :: "slot \<Rightarrow> u64"
  uptime_secs :: "slot \<Rightarrow> u64"
  core_samples :: "nat \<Rightarrow> Sample list"

abbreviation me :: "nat \<Rightarrow> Kernel \<Rightarrow> slot" where
  "me cid k \<equiv> core_current (sched k) cid"

definition ret :: "int \<Rightarrow> Kernel \<Rightarrow> (Outcome \<times> Kernel) panics" where
  "ret v k = Some (Return v, k)"

section \<open>Error codes\<close>

definition cap_err_to_i64 :: "CapError \<Rightarrow> int" where
  "cap_err_to_i64 e = (case e of
     CapNotHeld \<Rightarrow> - 2 | CapInsufficientRights \<Rightarrow> - 3 | CapNotGrantable \<Rightarrow> - 4 | CapWrongScope \<Rightarrow> - 5
   | CapRevoked \<Rightarrow> - 6 | CapEndpointDead \<Rightarrow> - 7 | GenerationMismatch \<Rightarrow> - 6)"

definition ipc_err_to_i64 :: "IpcError \<Rightarrow> int" where
  "ipc_err_to_i64 e = (case e of
     IpcEndpointDead \<Rightarrow> - 7 | QueueFull \<Rightarrow> - 8 | QueueEmpty \<Rightarrow> - 9 | MessageTooLarge \<Rightarrow> - 10
   | ReplyDead \<Rightarrow> - 12 | IpcCap ce \<Rightarrow> cap_err_to_i64 ce)"

definition TRY_RECV_EMPTY :: int where "TRY_RECV_EMPTY = - 1000"
definition RECV_TIMED_OUT :: int where "RECV_TIMED_OUT = - 1001"
definition ACQUIRE_NAME_NOT_REGISTERED :: int where "ACQUIRE_NAME_NOT_REGISTERED = - 20"
definition ACQUIRE_CAP_TABLE_FULL :: int where "ACQUIRE_CAP_TABLE_FULL = - 21"

section \<open>User memory\<close>

definition USER_END :: u64 where "USER_END = 0x0000800000000000"

definition validate_user_ptr :: "u64 \<Rightarrow> nat \<Rightarrow> bool" where
  "validate_user_ptr ptr len \<longleftrightarrow>
    \<not> (ptr = 0 \<or> len = 0) \<and> \<not> ptr \<ge> USER_END \<and>
    (case checked_add ptr (of_nat len) of Some stop \<Rightarrow> stop \<le> USER_END | None \<Rightarrow> False)"

text \<open>A range that is valid but not mapped kills the caller in the page-fault handler; here every address has a byte.\<close>

definition read_user_bytes :: "Env \<Rightarrow> nat \<Rightarrow> Kernel \<Rightarrow> u64 \<Rightarrow> nat \<Rightarrow> u8 list option" where
  "read_user_bytes env cid k ptr len =
    (if \<not> validate_user_ptr ptr len then None
     else if len > MAX_MESSAGE_SIZE then None
     else if cid \<ge> num_cores (sched k) then None
     else Some (map (\<lambda>i. user_mem env (ptr + of_nat i)) [0..<len]))"

definition write_user_bytes :: "nat \<Rightarrow> u64 \<Rightarrow> u8 list \<Rightarrow> Kernel \<Rightarrow> bool \<times> Kernel" where
  "write_user_bytes cid dst src k =
    (if \<not> validate_user_ptr dst (length src) then (False, k)
     else if cid \<ge> num_cores (sched k) then (False, k)
     else (True, emit [WriteUser dst src] k))"

definition copy_out :: "nat \<Rightarrow> u64 \<Rightarrow> u8 list \<Rightarrow> Kernel \<Rightarrow> bool \<times> Kernel" where
  "copy_out cid dst bytes k = (if bytes = [] then (True, k) else write_user_bytes cid dst bytes k)"

text \<open>\<open>core::str::from_utf8\<close>: the well-formed byte sequences of Unicode.\<close>

definition utf8_cont :: "u8 \<Rightarrow> bool" where "utf8_cont b \<longleftrightarrow> 0x80 \<le> b \<and> b \<le> 0xBF"

definition utf8_second3 :: "u8 \<Rightarrow> u8 \<Rightarrow> bool" where
  "utf8_second3 a b \<longleftrightarrow>
    (if a = 0xE0 then 0xA0 \<le> b \<and> b \<le> 0xBF else if a = 0xED then 0x80 \<le> b \<and> b \<le> 0x9F else utf8_cont b)"

definition utf8_second4 :: "u8 \<Rightarrow> u8 \<Rightarrow> bool" where
  "utf8_second4 a b \<longleftrightarrow>
    (if a = 0xF0 then 0x90 \<le> b \<and> b \<le> 0xBF else if a = 0xF4 then 0x80 \<le> b \<and> b \<le> 0x8F else utf8_cont b)"

fun from_utf8 :: "u8 list \<Rightarrow> bool" where
  "from_utf8 [] = True"
| "from_utf8 (a # xs) =
    (if a < 0x80 then from_utf8 xs
     else case xs of
       [] \<Rightarrow> False
     | b # ys \<Rightarrow>
        if a < 0xC2 then False
        else if a \<le> 0xDF then utf8_cont b \<and> from_utf8 ys
        else (case ys of
          [] \<Rightarrow> False
        | c # zs \<Rightarrow>
           if a \<le> 0xEF then utf8_second3 a b \<and> utf8_cont c \<and> from_utf8 zs
           else (case zs of
             [] \<Rightarrow> False
           | d # ws \<Rightarrow> a \<le> 0xF4 \<and> utf8_second4 a b \<and> utf8_cont c \<and> utf8_cont d \<and> from_utf8 ws)))"

text \<open>The name arguments of the system calls: 1 to 128 readable bytes of UTF-8.\<close>

definition read_name :: "Env \<Rightarrow> nat \<Rightarrow> u64 \<Rightarrow> u64 \<Rightarrow> Kernel \<Rightarrow> name_bytes option" where
  "read_name env cid ptr len k =
    (if unat len = 0 \<or> unat len > TASK_NAME_MAX then None
     else case read_user_bytes env cid k ptr (unat len) of
       None \<Rightarrow> None
     | Some b \<Rightarrow> if from_utf8 b then Some b else None)"

section \<open>Messages\<close>

definition lookup_cap :: "nat \<Rightarrow> slot \<Rightarrow> Rights \<Rightarrow> Kernel \<Rightarrow> CapError + Capability" where
  "lookup_cap cid i right k = current_task_lookup_cap (res k) cid i right (sched k)"

definition holds :: "nat \<Rightarrow> ResourceId \<Rightarrow> Rights \<Rightarrow> Kernel \<Rightarrow> bool" where
  "holds cid rid right k \<longleftrightarrow> current_task_holds_resource cid rid right (sched k)"

text \<open>Removing a capability of the running task, its value dropped.\<close>

definition remove_cap :: "nat \<Rightarrow> slot \<Rightarrow> Kernel \<Rightarrow> Kernel" where
  "remove_cap cid i k = k\<lparr>sched := snd (current_task_remove_cap cid i (sched k))\<rparr>"

definition build_message :: "Env \<Rightarrow> nat \<Rightarrow> u64 \<Rightarrow> u64 \<Rightarrow> Kernel \<Rightarrow> int + Message" where
  "build_message env cid msg_ptr msg_len k =
    (let len = unat msg_len in
     if len > MAX_MESSAGE_SIZE then Inl (ipc_err_to_i64 MessageTooLarge)
     else
       (case (if len = 0 then Some [] else read_user_bytes env cid k msg_ptr len) of
          None \<Rightarrow> Inl (- 1)
        | Some bytes \<Rightarrow>
           (case Message_new bytes of
              Inl e \<Rightarrow> Inl (ipc_err_to_i64 e)
            | Inr msg \<Rightarrow>
               Inr (msg\<lparr>sender_ep := (case current_task_endpoint cid (sched k) of Some e \<Rightarrow> e | None \<Rightarrow> 0)\<rparr>))))"

definition narrow_embedded_for_receiver :: "Capability \<Rightarrow> Capability" where
  "narrow_embedded_for_receiver cap =
    (if is_delegated (resource_id cap) then Capability_without_grant cap else cap)"

text \<open>One capability of a received message: installed and queued for the receiver, or dropped.\<close>

definition install_cap :: "nat \<Rightarrow> Capability \<Rightarrow> Kernel \<Rightarrow> Kernel" where
  "install_cap cid cap k =
    (case current_task_insert_cap cid (narrow_embedded_for_receiver cap) (sched k) of
       Inl _ \<Rightarrow> k
     | Inr (new_slot, s) \<Rightarrow>
        (case push_pending_recv_cap cid new_slot s of
           (True, s') \<Rightarrow> k\<lparr>sched := s'\<rparr>
         | (False, s') \<Rightarrow> k\<lparr>sched := snd (current_task_remove_cap cid new_slot s')\<rparr>))"

definition install_received_caps :: "nat \<Rightarrow> Message \<Rightarrow> Kernel \<Rightarrow> Kernel" where
  "install_received_caps cid msg k =
    fold (\<lambda>c k. case c of Some cap \<Rightarrow> install_cap cid cap k | None \<Rightarrow> k)
      (take (min (cap_count msg) (length (caps msg))) (caps msg)) k"

definition refuse_oversized :: "nat \<Rightarrow> nat \<Rightarrow> int option" where
  "refuse_oversized len buf_len = (if len \<le> buf_len then None else Some (ipc_err_to_i64 MessageTooLarge))"

text \<open>What every receive path does with the message it took off the queue.\<close>

definition deliver_received ::
  "nat \<Rightarrow> u64 \<Rightarrow> nat \<Rightarrow> Message \<Rightarrow> slot option \<Rightarrow> Kernel \<Rightarrow> int \<times> Kernel" where
  "deliver_received cid out_buf buf_len msg tx k =
    (let k1 = (case tx of Some s \<Rightarrow> wake cid s 0 k | None \<Rightarrow> k);
         k2 = k1\<lparr>sched := set_last_recv_badge cid (badge_id msg) (badge_right msg) (sched k1)\<rparr>;
         k3 = install_received_caps cid msg k2;
         bytes = payload_bytes msg in
     case refuse_oversized (length bytes) buf_len of
       Some e \<Rightarrow> (e, k3)
     | None \<Rightarrow>
        (case copy_out cid out_buf bytes k3 of
           (False, k4) \<Rightarrow> (- 1, k4)
         | (True, k4) \<Rightarrow> (int (length bytes), k4)))"

section \<open>Blocking\<close>

definition block_current :: "nat \<Rightarrow> TaskState \<Rightarrow> Kernel \<Rightarrow> (int option \<times> Kernel) panics" where
  "block_current cid st k =
    map_option (\<lambda>(r, s). (r, k\<lparr>sched := s\<rparr>)) (block_and_reschedule cid st (sched k))"

text \<open>The value \<open>block_and_reschedule\<close> returns to a task that is switched in again.\<close>

definition resume_err :: "nat \<Rightarrow> Kernel \<Rightarrow> int" where
  "resume_err cid k = t_wakeup_err (tasks (sched k) (me cid k))"

text \<open>A sender that blocks returns what it is woken with.\<close>

definition block_sender :: "nat \<Rightarrow> Kernel \<Rightarrow> (Outcome \<times> Kernel) panics" where
  "block_sender cid k = do {
     (r, k') \<leftarrow> block_current cid BlockedOnSend k;
     Some (case r of Some v \<Rightarrow> Return v | None \<Rightarrow> Blocked, k')
   }"

text \<open>A receiver that blocks goes round its loop again when woken with 0 and leaves it with any other value.\<close>

definition block_receiver :: "nat \<Rightarrow> Kernel \<Rightarrow> (Outcome \<times> Kernel) panics" where
  "block_receiver cid k = do {
     (r, k') \<leftarrow> block_current cid BlockedOnRecv k;
     Some (case r of Some v \<Rightarrow> (if v \<noteq> 0 then Return v else Again) | None \<Rightarrow> Blocked, k')
   }"

definition send_resume :: "nat \<Rightarrow> Kernel \<Rightarrow> (Outcome \<times> Kernel) panics" where
  "send_resume cid k = ret (resume_err cid k) k"

section \<open>Sending\<close>

definition handle_send :: "Env \<Rightarrow> nat \<Rightarrow> u64 \<Rightarrow> u64 \<Rightarrow> u64 \<Rightarrow> Kernel \<Rightarrow> (Outcome \<times> Kernel) panics" where
  "handle_send env cid cap_slot msg_ptr msg_len k =
    (case lookup_cap cid (unat cap_slot) SEND k of
       Inl e \<Rightarrow> ret (cap_err_to_i64 e) k
     | Inr cap \<Rightarrow>
        (case build_message env cid msg_ptr msg_len k of
           Inl e \<Rightarrow> ret e k
         | Inr msg \<Rightarrow>
            (case routing_enqueue (resource_id cap) msg (generation cap) (Some (me cid k)) (routing k) of
               (Inr (Some rx), r) \<Rightarrow> ret 0 (wake cid rx 0 (k\<lparr>routing := r\<rparr>))
             | (Inr None, r) \<Rightarrow> ret 0 (k\<lparr>routing := r\<rparr>)
             | (Inl e, r) \<Rightarrow>
                if e = QueueFull then block_sender cid (k\<lparr>routing := r\<rparr>)
                else ret (ipc_err_to_i64 e) (k\<lparr>routing := r\<rparr>))))"

definition handle_try_send :: "Env \<Rightarrow> nat \<Rightarrow> u64 \<Rightarrow> u64 \<Rightarrow> u64 \<Rightarrow> Kernel \<Rightarrow> (Outcome \<times> Kernel) panics" where
  "handle_try_send env cid cap_slot msg_ptr msg_len k =
    (case lookup_cap cid (unat cap_slot) SEND k of
       Inl e \<Rightarrow> ret (cap_err_to_i64 e) k
     | Inr cap \<Rightarrow>
        (case build_message env cid msg_ptr msg_len k of
           Inl e \<Rightarrow> ret e k
         | Inr msg \<Rightarrow>
            (case routing_enqueue (resource_id cap) msg (generation cap) None (routing k) of
               (Inr (Some rx), r) \<Rightarrow> ret 0 (wake cid rx 0 (k\<lparr>routing := r\<rparr>))
             | (Inr None, r) \<Rightarrow> ret 0 (k\<lparr>routing := r\<rparr>)
             | (Inl e, r) \<Rightarrow> ret (ipc_err_to_i64 e) (k\<lparr>routing := r\<rparr>))))"

text \<open>The right to pass a capability on; lacking only \<open>GRANT\<close> has an error of its own.\<close>

definition lookup_grant :: "nat \<Rightarrow> slot \<Rightarrow> Kernel \<Rightarrow> CapError + Capability" where
  "lookup_grant cid i k =
    (case lookup_cap cid i GRANT k of
       Inl e \<Rightarrow> Inl (if e = CapInsufficientRights then CapNotGrantable else e)
     | Inr cap \<Rightarrow> Inr cap)"

definition embed_cap :: "Capability \<Rightarrow> Message \<Rightarrow> Message" where
  "embed_cap cap msg = msg\<lparr>caps := (caps msg)[0 := Some cap], cap_count := 1\<rparr>"

text \<open>
  The enqueue that \<open>handle_send_with_cap\<close>, \<open>do_call\<close> and \<open>handle_resource_invoke\<close> share: once the message is queued, or kept
  as the blocked sender's, the capability it carries leaves the sender's table.
\<close>

definition enqueue_moving ::
  "nat \<Rightarrow> EndpointId \<Rightarrow> Message \<Rightarrow> Generation \<Rightarrow> slot \<Rightarrow> Kernel \<Rightarrow> (Outcome \<times> Kernel) panics" where
  "enqueue_moving cid ep msg gen grant_slot k =
    (case routing_enqueue ep msg gen (Some (me cid k)) (routing k) of
       (Inr (Some rx), r) \<Rightarrow> ret 0 (wake cid rx 0 (remove_cap cid grant_slot (k\<lparr>routing := r\<rparr>)))
     | (Inr None, r) \<Rightarrow> ret 0 (remove_cap cid grant_slot (k\<lparr>routing := r\<rparr>))
     | (Inl e, r) \<Rightarrow>
        if e = QueueFull then block_sender cid (remove_cap cid grant_slot (k\<lparr>routing := r\<rparr>))
        else ret (ipc_err_to_i64 e) (k\<lparr>routing := r\<rparr>))"

definition handle_send_with_cap :: "Env \<Rightarrow> nat \<Rightarrow> u64 \<Rightarrow> u64 \<Rightarrow> u64 \<Rightarrow> Kernel \<Rightarrow> (Outcome \<times> Kernel) panics" where
  "handle_send_with_cap env cid packed msg_ptr msg_len k =
    (let endpoint_slot = unat (packed AND 0xFFFF); grant_slot = unat (drop_bit 16 packed AND 0xFFFF) in
     case lookup_cap cid endpoint_slot SEND k of
       Inl e \<Rightarrow> ret (cap_err_to_i64 e) k
     | Inr endpoint_cap \<Rightarrow>
        (case lookup_grant cid grant_slot k of
           Inl e \<Rightarrow> ret (cap_err_to_i64 e) k
         | Inr cap_to_grant \<Rightarrow>
            (case build_message env cid msg_ptr msg_len k of
               Inl e \<Rightarrow> ret e k
             | Inr msg \<Rightarrow>
                enqueue_moving cid (resource_id endpoint_cap) (embed_cap cap_to_grant msg)
                  (generation endpoint_cap) grant_slot k)))"

section \<open>Receiving\<close>

definition recv_args_ok :: "u64 \<Rightarrow> nat \<Rightarrow> bool" where
  "recv_args_ok out_buf buf_len \<longleftrightarrow>
    \<not> (buf_len = 0 \<or> buf_len > MAX_MESSAGE_SIZE) \<and> validate_user_ptr out_buf buf_len"

text \<open>One pass of the loop of \<open>handle_recv\<close>.\<close>

definition recv_pass :: "nat \<Rightarrow> Capability \<Rightarrow> u64 \<Rightarrow> nat \<Rightarrow> Kernel \<Rightarrow> (Outcome \<times> Kernel) panics" where
  "recv_pass cid cap out_buf buf_len k =
    (case routing_dequeue (resource_id cap) (generation cap) (Some (me cid k)) (routing k) of
       (Inr (msg, tx), r) \<Rightarrow>
         (let (v, k') = deliver_received cid out_buf buf_len msg tx (k\<lparr>routing := r\<rparr>) in ret v k')
     | (Inl e, r) \<Rightarrow>
        if e = QueueEmpty then block_receiver cid (k\<lparr>routing := r\<rparr>)
        else ret (ipc_err_to_i64 e) (k\<lparr>routing := r\<rparr>))"

definition recv_resume :: "nat \<Rightarrow> Capability \<Rightarrow> u64 \<Rightarrow> nat \<Rightarrow> Kernel \<Rightarrow> (Outcome \<times> Kernel) panics" where
  "recv_resume cid cap out_buf buf_len k =
    (if resume_err cid k \<noteq> 0 then ret (resume_err cid k) k else recv_pass cid cap out_buf buf_len k)"

definition handle_recv :: "nat \<Rightarrow> u64 \<Rightarrow> u64 \<Rightarrow> u64 \<Rightarrow> Kernel \<Rightarrow> (Outcome \<times> Kernel) panics" where
  "handle_recv cid cap_slot out_buf out_len k =
    (case lookup_cap cid (unat cap_slot) RECV k of
       Inl e \<Rightarrow> ret (cap_err_to_i64 e) k
     | Inr cap \<Rightarrow>
        if \<not> recv_args_ok out_buf (unat out_len) then ret (- 1) k
        else recv_pass cid cap out_buf (unat out_len) k)"

definition handle_try_recv :: "nat \<Rightarrow> u64 \<Rightarrow> u64 \<Rightarrow> u64 \<Rightarrow> Kernel \<Rightarrow> (Outcome \<times> Kernel) panics" where
  "handle_try_recv cid cap_slot out_buf out_len k =
    (case lookup_cap cid (unat cap_slot) RECV k of
       Inl e \<Rightarrow> ret (cap_err_to_i64 e) k
     | Inr cap \<Rightarrow>
        if \<not> recv_args_ok out_buf (unat out_len) then ret (- 1) k
        else
          (case routing_dequeue (resource_id cap) (generation cap) (Some (me cid k)) (routing k) of
             (Inr (msg, tx), r) \<Rightarrow>
               (let (v, k') = deliver_received cid out_buf (unat out_len) msg tx (k\<lparr>routing := r\<rparr>) in ret v k')
           | (Inl e, r) \<Rightarrow>
              ret (if e = QueueEmpty then TRY_RECV_EMPTY else ipc_err_to_i64 e) (k\<lparr>routing := r\<rparr>)))"

text \<open>Leaving a timed wait: the deadline is cleared on every exit from the loop.\<close>

definition clear_deadline :: "nat \<Rightarrow> Kernel \<Rightarrow> Kernel" where
  "clear_deadline cid k = k\<lparr>sched := clear_wake_deadline (me cid k) (sched k)\<rparr>"

definition leave_timed :: "nat \<Rightarrow> int \<Rightarrow> Kernel \<Rightarrow> (Outcome \<times> Kernel) panics" where
  "leave_timed cid v k = ret v (clear_deadline cid k)"

text \<open>The wait of one pass of a timed loop: give up at the deadline, else arm it and block.\<close>

definition timed_wait :: "nat \<Rightarrow> u64 \<Rightarrow> Kernel \<Rightarrow> (Outcome \<times> Kernel) panics" where
  "timed_wait cid deadline k =
    (if deadline \<noteq> 0 \<and> monotonic_ticks (sched k) \<ge> deadline then leave_timed cid RECV_TIMED_OUT k
     else
       (let k1 = (if deadline \<noteq> 0 then k\<lparr>sched := set_wake_deadline (me cid k) deadline (sched k)\<rparr> else k) in do {
          (out, k2) \<leftarrow> block_receiver cid k1;
          (case out of Return v \<Rightarrow> leave_timed cid v k2 | _ \<Rightarrow> Some (out, k2))
        }))"

definition recv_timeout_pass ::
  "nat \<Rightarrow> Capability \<Rightarrow> u64 \<Rightarrow> nat \<Rightarrow> u64 \<Rightarrow> Kernel \<Rightarrow> (Outcome \<times> Kernel) panics" where
  "recv_timeout_pass cid cap out_buf buf_len deadline k =
    (case routing_dequeue (resource_id cap) (generation cap) (Some (me cid k)) (routing k) of
       (Inr (msg, tx), r) \<Rightarrow>
         (let (v, k') = deliver_received cid out_buf buf_len msg tx (k\<lparr>routing := r\<rparr>) in leave_timed cid v k')
     | (Inl e, r) \<Rightarrow>
        if e = QueueEmpty then timed_wait cid deadline (k\<lparr>routing := r\<rparr>)
        else leave_timed cid (ipc_err_to_i64 e) (k\<lparr>routing := r\<rparr>))"

definition recv_timeout_resume ::
  "nat \<Rightarrow> Capability \<Rightarrow> u64 \<Rightarrow> nat \<Rightarrow> u64 \<Rightarrow> Kernel \<Rightarrow> (Outcome \<times> Kernel) panics" where
  "recv_timeout_resume cid cap out_buf buf_len deadline k =
    (if resume_err cid k \<noteq> 0 then leave_timed cid (resume_err cid k) k
     else recv_timeout_pass cid cap out_buf buf_len deadline k)"

definition handle_recv_timeout :: "Env \<Rightarrow> nat \<Rightarrow> u64 \<Rightarrow> u64 \<Rightarrow> u64 \<Rightarrow> Kernel \<Rightarrow> (Outcome \<times> Kernel) panics" where
  "handle_recv_timeout env cid packed out_buf timeout k =
    (let cap_slot = unat (packed AND 0xFFFF); buf_len = unat (drop_bit 16 packed) in
     case lookup_cap cid cap_slot RECV k of
       Inl e \<Rightarrow> ret (cap_err_to_i64 e) k
     | Inr cap \<Rightarrow>
        if \<not> recv_args_ok out_buf buf_len then ret (- 1) k
        else
          (let deadline = (if timeout = 0 then 0
                           else monotonic_ticks (sched k) + cycles_to_ticks (ticks_per_quantum env) timeout) in
           recv_timeout_pass cid cap out_buf buf_len deadline k))"

section \<open>Calling\<close>

text \<open>One pass of the loop in which a caller awaits its reply.\<close>

definition call_pass ::
  "nat \<Rightarrow> Capability \<Rightarrow> EndpointId \<Rightarrow> u64 \<Rightarrow> nat \<Rightarrow> u64 \<Rightarrow> Kernel \<Rightarrow> (Outcome \<times> Kernel) panics" where
  "call_pass cid recv_cap target_ep buf_ptr reply_buf_cap deadline k =
    (case call_dequeue (resource_id recv_cap) (generation recv_cap) target_ep (me cid k) (routing k) of
       (Inr (reply, tx), r) \<Rightarrow>
         (let (v, k') = deliver_received cid buf_ptr reply_buf_cap reply tx (k\<lparr>routing := r\<rparr>) in leave_timed cid v k')
     | (Inl e, r) \<Rightarrow>
        if e = QueueEmpty then timed_wait cid deadline (k\<lparr>routing := r\<rparr>)
        else leave_timed cid (ipc_err_to_i64 e) (k\<lparr>routing := r\<rparr>))"

definition call_resume ::
  "nat \<Rightarrow> Capability \<Rightarrow> EndpointId \<Rightarrow> u64 \<Rightarrow> nat \<Rightarrow> u64 \<Rightarrow> Kernel \<Rightarrow> (Outcome \<times> Kernel) panics" where
  "call_resume cid recv_cap target_ep buf_ptr reply_buf_cap deadline k =
    (if resume_err cid k \<noteq> 0 then leave_timed cid (resume_err cid k) k
     else call_pass cid recv_cap target_ep buf_ptr reply_buf_cap deadline k)"

definition call_deadline :: "u64 \<Rightarrow> Kernel \<Rightarrow> u64" where
  "call_deadline deadline_secs k =
    (if deadline_secs = 0 then 0 else monotonic_ticks (sched k) + saturating_mul deadline_secs 100)"

text \<open>The wait begins once the request is delivered: at once, or after blocking as a sender (\<open>call_sent\<close>).\<close>

definition call_sent ::
  "nat \<Rightarrow> Capability \<Rightarrow> EndpointId \<Rightarrow> u64 \<Rightarrow> nat \<Rightarrow> u64 \<Rightarrow> int \<Rightarrow> Kernel \<Rightarrow> (Outcome \<times> Kernel) panics" where
  "call_sent cid recv_cap target_ep buf_ptr reply_buf_cap deadline_secs err k =
    (if err \<noteq> 0 then ret err k
     else call_pass cid recv_cap target_ep buf_ptr reply_buf_cap (call_deadline deadline_secs k) k)"

definition do_call ::
  "Env \<Rightarrow> nat \<Rightarrow> slot \<Rightarrow> slot \<Rightarrow> slot \<Rightarrow> u64 \<Rightarrow> u64 \<Rightarrow> u64 \<Rightarrow> nat \<Rightarrow> Kernel \<Rightarrow> (Outcome \<times> Kernel) panics" where
  "do_call env cid target_slot reply_slot recv_slot buf_ptr req_len deadline_secs reply_buf_cap k =
    (case lookup_cap cid target_slot SEND k of
       Inl e \<Rightarrow> ret (cap_err_to_i64 e) k
     | Inr target_cap \<Rightarrow>
    (case lookup_grant cid reply_slot k of
       Inl e \<Rightarrow> ret (cap_err_to_i64 e) k
     | Inr reply_cap \<Rightarrow>
    (case lookup_cap cid recv_slot RECV k of
       Inl e \<Rightarrow> ret (cap_err_to_i64 e) k
     | Inr recv_cap \<Rightarrow>
        if unat req_len > MAX_MESSAGE_SIZE then ret (ipc_err_to_i64 MessageTooLarge) k
        else if \<not> validate_user_ptr buf_ptr (max (unat req_len) reply_buf_cap) then ret (- 1) k
        else
          (case build_message env cid buf_ptr req_len k of
             Inl e \<Rightarrow> ret e k
           | Inr msg \<Rightarrow> do {
               (out, k') \<leftarrow> enqueue_moving cid (resource_id target_cap) (embed_cap reply_cap msg)
                 (generation target_cap) reply_slot k;
               (case out of
                  Return err \<Rightarrow> call_sent cid recv_cap (resource_id target_cap) buf_ptr reply_buf_cap deadline_secs err k'
                | _ \<Rightarrow> Some (out, k'))
             }))))"

definition handle_call :: "Env \<Rightarrow> nat \<Rightarrow> u64 \<Rightarrow> u64 \<Rightarrow> u64 \<Rightarrow> Kernel \<Rightarrow> (Outcome \<times> Kernel) panics" where
  "handle_call env cid packed buf_ptr recv_len k =
    do_call env cid (unat (packed AND 0xFFFF)) (unat (drop_bit 16 packed AND 0xFFFF))
      (unat (drop_bit 16 recv_len AND 0xFFFF)) buf_ptr (recv_len AND 0xFFFF) 0 MAX_MESSAGE_SIZE k"

definition reply_buf_class :: "u64 \<Rightarrow> nat" where
  "reply_buf_class packed =
    (let c = unat (drop_bit 24 packed AND 0xF) in
     if c = 0 then MAX_MESSAGE_SIZE else min (2 ^ c) MAX_MESSAGE_SIZE)"

definition handle_call_deadline :: "Env \<Rightarrow> nat \<Rightarrow> u64 \<Rightarrow> u64 \<Rightarrow> u64 \<Rightarrow> Kernel \<Rightarrow> (Outcome \<times> Kernel) panics" where
  "handle_call_deadline env cid packed buf_ptr len_secs k =
    do_call env cid (unat (packed AND 0xFF)) (unat (drop_bit 8 packed AND 0xFF))
      (unat (drop_bit 16 packed AND 0xFF)) buf_ptr (len_secs AND 0xFFFF)
      (drop_bit 16 len_secs AND 0xFFFF) (reply_buf_class packed) k"

end
