(* ===== verification/Syscall_Ops.thy ===== *)
theory Syscall_Ops
  imports Syscall
begin

text \<open>
  The other system-call handlers (\<open>kernel/src/syscall/dispatch.rs\<close>): capabilities by name and by delegation, ending tasks,
  memory, introspection, the console, and the capability-gated device operations. Each handler checks the authority it needs
  before it does anything; what it then asks of the code under \<open>arch/\<close> is recorded in \<open>hw\<close>, and what that code answers is read
  from \<open>Env\<close>.
\<close>

unbundle bit_operations_syntax

section \<open>Output\<close>

text \<open>A slot argument that must name a given stable resource.\<close>

definition lookup_scoped :: "nat \<Rightarrow> slot \<Rightarrow> Rights \<Rightarrow> ResourceId \<Rightarrow> Kernel \<Rightarrow> CapError + Capability" where
  "lookup_scoped cid i right rid k =
    (case lookup_cap cid i right k of
       Inl e \<Rightarrow> Inl e
     | Inr cap \<Rightarrow> if resource_id cap \<noteq> rid then Inl CapWrongScope else Inr cap)"

definition read_line :: "Env \<Rightarrow> nat \<Rightarrow> u64 \<Rightarrow> u64 \<Rightarrow> Kernel \<Rightarrow> u8 list option" where
  "read_line env cid msg_ptr msg_len k =
    (if unat msg_len = 0 \<or> unat msg_len > 256 then None else read_user_bytes env cid k msg_ptr (unat msg_len))"

definition handle_log :: "Env \<Rightarrow> nat \<Rightarrow> u64 \<Rightarrow> u64 \<Rightarrow> u64 \<Rightarrow> Kernel \<Rightarrow> (Outcome \<times> Kernel) panics" where
  "handle_log env cid cap_slot msg_ptr msg_len k =
    (case lookup_scoped cid (unat cap_slot) WRITE LOG_WRITE_RESOURCE k of
       Inl e \<Rightarrow> ret (cap_err_to_i64 e) k
     | Inr _ \<Rightarrow>
        (case read_line env cid msg_ptr msg_len k of
           None \<Rightarrow> ret (- 1) k
         | Some bytes \<Rightarrow> if from_utf8 bytes then ret 0 (emit [LogBytes (bytes @ [0x0A])] k) else ret (- 1) k))"

definition handle_print :: "Env \<Rightarrow> nat \<Rightarrow> u64 \<Rightarrow> u64 \<Rightarrow> u64 \<Rightarrow> Kernel \<Rightarrow> (Outcome \<times> Kernel) panics" where
  "handle_print env cid cap_slot msg_ptr msg_len k =
    (case lookup_scoped cid (unat cap_slot) WRITE LOG_WRITE_RESOURCE k of
       Inl e \<Rightarrow> ret (cap_err_to_i64 e) k
     | Inr _ \<Rightarrow>
        (case read_line env cid msg_ptr msg_len k of
           None \<Rightarrow> ret (- 1) k
         | Some bytes \<Rightarrow> if from_utf8 bytes then ret 0 (emit [LogBytes bytes] k) else ret (- 1) k))"

definition deliver_to_console_service :: "nat \<Rightarrow> u8 list \<Rightarrow> Kernel \<Rightarrow> (Outcome \<times> Kernel) panics" where
  "deliver_to_console_service cid bytes k =
    (if task_hw_kind (sched k) (me cid k) = FRAMEBUFFER then ret 0 k
     else case live_endpoint_of_kind (sched k) FRAMEBUFFER of
       None \<Rightarrow> ret 0 k
     | Some ep \<Rightarrow>
        (case Message_new bytes of
           Inl _ \<Rightarrow> ret 0 k
         | Inr msg \<Rightarrow>
            (case enqueue_from_kernel_blocking ep msg (me cid k) (routing k) of
               (Inr (Some rx), r) \<Rightarrow> ret 0 (wake cid rx 0 (k\<lparr>routing := r\<rparr>))
             | (Inr None, r) \<Rightarrow> ret 0 (k\<lparr>routing := r\<rparr>)
             | (Inl e, r) \<Rightarrow>
                if e = QueueFull then block_sender cid (k\<lparr>routing := r\<rparr>) else ret 0 (k\<lparr>routing := r\<rparr>))))"

definition handle_console_write :: "Env \<Rightarrow> nat \<Rightarrow> u64 \<Rightarrow> u64 \<Rightarrow> u64 \<Rightarrow> Kernel \<Rightarrow> (Outcome \<times> Kernel) panics" where
  "handle_console_write env cid cap_slot msg_ptr msg_len k =
    (case lookup_scoped cid (unat cap_slot) WRITE LOG_WRITE_RESOURCE k of
       Inl e \<Rightarrow> ret (cap_err_to_i64 e) k
     | Inr _ \<Rightarrow>
        (case read_line env cid msg_ptr msg_len k of
           None \<Rightarrow> ret (- 1) k
         | Some bytes \<Rightarrow>
            (let to_fb = foreground_allows env (me cid k); k1 = emit [ConsoleBytes bytes to_fb] k in
             if to_fb then deliver_to_console_service cid bytes k1 else ret 0 k1)))"

section \<open>Interrupts and time\<close>

definition handle_irq_unmask :: "nat \<Rightarrow> u64 \<Rightarrow> Kernel \<Rightarrow> (Outcome \<times> Kernel) panics" where
  "handle_irq_unmask cid arg k =
    (let irq = ucast (arg AND 0xFF); my_ep = current_task_endpoint cid (sched k) in
     if my_ep = None \<or> registered_endpoint k irq \<noteq> my_ep then ret (cap_err_to_i64 CapNotHeld) k
     else ret 0 (emit [UnmaskVector (unat irq)] k))"

text \<open>The tick path of \<open>handle_sleep\<close>, one pass of its loop.\<close>

definition sleep_pass :: "nat \<Rightarrow> u64 \<Rightarrow> Kernel \<Rightarrow> (Outcome \<times> Kernel) panics" where
  "sleep_pass cid deadline k =
    (if monotonic_ticks (sched k) \<ge> deadline then leave_timed cid 0 k
     else do {
       (out, k1) \<leftarrow> block_receiver cid (k\<lparr>sched := set_wake_deadline (me cid k) deadline (sched k)\<rparr>);
       (case out of Return _ \<Rightarrow> leave_timed cid 0 k1 | _ \<Rightarrow> Some (out, k1))
     })"

definition sleep_resume :: "nat \<Rightarrow> u64 \<Rightarrow> Kernel \<Rightarrow> (Outcome \<times> Kernel) panics" where
  "sleep_resume cid deadline k = (if resume_err cid k \<noteq> 0 then leave_timed cid 0 k else sleep_pass cid deadline k)"

definition hires_wake :: "nat \<Rightarrow> Kernel \<Rightarrow> (Outcome \<times> Kernel) panics" where
  "hires_wake cid k = ret 0 (emit [HiresRelease (me cid k)] (clear_deadline cid k))"

definition handle_sleep :: "Env \<Rightarrow> nat \<Rightarrow> u64 \<Rightarrow> Kernel \<Rightarrow> (Outcome \<times> Kernel) panics" where
  "handle_sleep env cid cycles k =
    (if cycles = 0 then ret 0 k
     else
       (let q = ticks_per_quantum env; us = unat (cycles_to_us q cycles);
            fine = us > 0 \<and> us < 10000;
            k1 = (if fine then emit [HiresArm (me cid k) us] k else k);
            armed = (if fine then hires_arm env (me cid k) us else ArmFull) in
        case armed of
          Elapsed \<Rightarrow> ret 0 k1
        | ArmFull \<Rightarrow> sleep_pass cid (monotonic_ticks (sched k1) + cycles_to_ticks q cycles) k1
        | Pending \<Rightarrow>
            (let deadline = monotonic_ticks (sched k1) + max (cycles_to_ticks q cycles) 1 in do {
               (r, k2) \<leftarrow> block_current cid BlockedOnRecv (k1\<lparr>sched := set_wake_deadline (me cid k1) deadline (sched k1)\<rparr>);
               (case r of Some _ \<Rightarrow> hires_wake cid k2 | None \<Rightarrow> Some (Blocked, k2))
             })))"

section \<open>Ending tasks\<close>

definition active_tables :: "Kernel \<Rightarrow> CapTable list" where
  "active_tables k =
    map (\<lambda>i. t_caps (tasks (sched k) i)) (filter (\<lambda>i. t_valid (tasks (sched k) i)) [0..<MAX_TASKS])"

definition assert_caps :: "Kernel \<Rightarrow> unit panics" where
  "assert_caps k = assert_cap_table_consistent (res k) (active_tables k)"

definition yield :: "nat \<Rightarrow> Kernel \<Rightarrow> Kernel" where
  "yield cid k = k\<lparr>sched := yield_current cid (respawn_flag k) (sched k)\<rparr>"

definition handle_kill :: "Env \<Rightarrow> nat \<Rightarrow> u64 \<Rightarrow> u64 \<Rightarrow> Kernel \<Rightarrow> (Outcome \<times> Kernel) panics" where
  "handle_kill env cid name_ptr name_len k =
    (if \<not> holds cid SERVICE_CONTROL_RESOURCE WRITE k then ret (cap_err_to_i64 CapNotHeld) k
     else case read_name env cid name_ptr name_len k of
       None \<Rightarrow> ret (- 1) k
     | Some nm \<Rightarrow> do {
         (found, k1) \<leftarrow> kill_by_name (core_samples env) cid nm (Killed (me cid k)) k;
         if \<not> found then ret (- 1) k1
         else do {
           assert_caps k1;
           if task_is (sched k1) (me cid k1) TaskDead then Some (NoReturn, yield cid k1) else ret 0 k1
         }
       })"

definition handle_exit :: "Env \<Rightarrow> nat \<Rightarrow> u64 \<Rightarrow> Kernel \<Rightarrow> (Outcome \<times> Kernel) panics" where
  "handle_exit env cid status k = do {
     k1 \<leftarrow> kill_task_by_slot (core_samples env) cid (me cid k) (Exited (ucast status)) k;
     assert_caps k1;
     Some (NoReturn, yield cid k1)
   }"

section \<open>Capabilities\<close>

definition insert_cap :: "nat \<Rightarrow> Capability \<Rightarrow> Kernel \<Rightarrow> CapError + (slot \<times> Kernel)" where
  "insert_cap cid c k =
    (case current_task_insert_cap cid c (sched k) of
       Inl e \<Rightarrow> Inl e
     | Inr (i, s) \<Rightarrow> Inr (i, k\<lparr>sched := s\<rparr>))"

definition handle_acquire_send_cap :: "Env \<Rightarrow> nat \<Rightarrow> u64 \<Rightarrow> u64 \<Rightarrow> u64 \<Rightarrow> Kernel \<Rightarrow> (Outcome \<times> Kernel) panics" where
  "handle_acquire_send_cap env cid name_ptr name_len include_grant k =
    (case read_name env cid name_ptr name_len k of
       None \<Rightarrow> ret (- 1) k
     | Some nm \<Rightarrow>
        (let broad = holds cid ACQUIRE_ANY_RESOURCE WRITE k in
         if \<not> broad \<and> \<not> task_declares_peer (sched k) (me cid k) nm then ret (cap_err_to_i64 CapNotHeld) k
         else case names_lookup (names_dir k) nm of
           None \<Rightarrow> ret ACQUIRE_NAME_NOT_REGISTERED k
         | Some ep \<Rightarrow> do {
             cap \<leftarrow> mint_cap (res k) ep (if include_grant \<noteq> 0 \<and> broad then Rights_union SEND GRANT else SEND);
             (case insert_cap cid cap k of
                Inr (i, k1) \<Rightarrow> ret (int i) k1
              | Inl _ \<Rightarrow> ret ACQUIRE_CAP_TABLE_FULL k)
           }))"

definition handle_derive_cap :: "nat \<Rightarrow> u64 \<Rightarrow> Kernel \<Rightarrow> (Outcome \<times> Kernel) panics" where
  "handle_derive_cap cid held_slot k =
    (case lookup_cap cid (unat held_slot) GRANT k of
       Inl e \<Rightarrow> ret (cap_err_to_i64 e) k
     | Inr held \<Rightarrow>
        (case insert_cap cid held k of
           Inr (i, k1) \<Rightarrow> ret (int i) k1
         | Inl _ \<Rightarrow> ret (- 1) k))"

definition handle_resource_mint :: "nat \<Rightarrow> u64 \<Rightarrow> u64 \<Rightarrow> Kernel \<Rightarrow> (Outcome \<times> Kernel) panics" where
  "handle_resource_mint cid rights_bits out_id_ptr k =
    (if \<not> holds cid RESOURCE_MINT_RESOURCE WRITE k then ret (cap_err_to_i64 CapNotHeld) k
     else case current_task_endpoint cid (sched k) of
       None \<Rightarrow> ret (- 1) k
     | Some who \<Rightarrow>
        (let allowed = Rights_union (Rights_union READ WRITE) GRANT; rts = ucast rights_bits AND allowed in do {
           (got, b, g) \<leftarrow> allocate who (band k) (res k);
           let k1 = k\<lparr>band := b, res := g\<rparr>;
           (case got of
              None \<Rightarrow> ret (- 1) k1
            | Some rid \<Rightarrow> do {
                cap \<leftarrow> mint_cap (res k1) rid rts;
                (case insert_cap cid cap k1 of
                   Inl _ \<Rightarrow> ret (- 1) (k1\<lparr>band := delegated_release rid (band k1)\<rparr>)
                 | Inr (i, k2) \<Rightarrow>
                    (case write_user_bytes cid out_id_ptr (to_le_bytes 8 (of_nat rid :: u64)) k2 of
                       (True, k3) \<Rightarrow> ret (int i) k3
                     | (False, k3) \<Rightarrow>
                        (let k4 = remove_cap cid i k3 in do {
                           (ok, b', g') \<leftarrow> revoke_owned rid who (band k4) (res k4);
                           ret (- 1) (k4\<lparr>band := b', res := g'\<rparr>)
                         })))
              })
         }))"

definition handle_resource_invoke :: "Env \<Rightarrow> nat \<Rightarrow> u64 \<Rightarrow> u64 \<Rightarrow> u64 \<Rightarrow> Kernel \<Rightarrow> (Outcome \<times> Kernel) panics" where
  "handle_resource_invoke env cid packed msg_ptr msg_len k =
    (let file_slot = unat (packed AND 0xFFF); reply_slot = unat (drop_bit 12 packed AND 0xFFF);
         right_bits = ucast (drop_bit 24 packed AND 0xFF) in
     case lookup_cap cid file_slot right_bits k of
       Inl e \<Rightarrow> ret (cap_err_to_i64 e) k
     | Inr file_cap \<Rightarrow>
        if \<not> is_delegated (resource_id file_cap) then ret (cap_err_to_i64 CapWrongScope) k
        else
          (case owner_of (band k) (resource_id file_cap) of
             None \<Rightarrow> ret (ipc_err_to_i64 IpcEndpointDead) k
           | Some own \<Rightarrow>
          (case lookup_grant cid reply_slot k of
             Inl e \<Rightarrow> ret (cap_err_to_i64 e) k
           | Inr reply_cap \<Rightarrow>
          (case build_message env cid msg_ptr msg_len k of
             Inl e \<Rightarrow> ret e k
           | Inr msg \<Rightarrow>
              enqueue_moving cid own
                (embed_cap reply_cap (msg\<lparr>badge_id := resource_id file_cap, badge_right := right_bits\<rparr>))
                (get_generation (routing k) own) reply_slot k))))"

definition handle_resource_revoke :: "nat \<Rightarrow> u64 \<Rightarrow> Kernel \<Rightarrow> (Outcome \<times> Kernel) panics" where
  "handle_resource_revoke cid rid k =
    (case current_task_endpoint cid (sched k) of
       None \<Rightarrow> ret (- 1) k
     | Some who \<Rightarrow> do {
         (ok, b, g) \<leftarrow> revoke_owned (unat rid) who (band k) (res k);
         ret (if ok then 0 else - 1) (k\<lparr>band := b, res := g\<rparr>)
       })"

definition handle_take_pending_cap :: "nat \<Rightarrow> Kernel \<Rightarrow> (Outcome \<times> Kernel) panics" where
  "handle_take_pending_cap cid k =
    (case pop_pending_recv_cap cid (sched k) of
       (Some i, s) \<Rightarrow> ret (int i) (k\<lparr>sched := s\<rparr>)
     | (None, s) \<Rightarrow> ret (- 1) (k\<lparr>sched := s\<rparr>))"

definition handle_query_cap_rights :: "nat \<Rightarrow> u64 \<Rightarrow> Kernel \<Rightarrow> (Outcome \<times> Kernel) panics" where
  "handle_query_cap_rights cid i k =
    (case current_task_read_cap_rights cid (unat i) (sched k) of
       Some r \<Rightarrow> ret (uint r) k
     | None \<Rightarrow> ret (cap_err_to_i64 CapNotHeld) k)"

definition handle_remove_cap :: "nat \<Rightarrow> u64 \<Rightarrow> Kernel \<Rightarrow> (Outcome \<times> Kernel) panics" where
  "handle_remove_cap cid i k = ret 0 (remove_cap cid (unat i) k)"

definition handle_last_recv_badge :: "nat \<Rightarrow> Kernel \<Rightarrow> (Outcome \<times> Kernel) panics" where
  "handle_last_recv_badge cid k =
    (let (b, s) = take_last_recv_badge cid (sched k) in ret (sint b) (k\<lparr>sched := s\<rparr>))"

section \<open>Memory\<close>

text \<open>The mapping loop over the pages still to map. A failure leaves what is mapped mapped and the budget charged.\<close>

fun alloc_pages :: "Env \<Rightarrow> u64 \<Rightarrow> nat list \<Rightarrow> Kernel \<Rightarrow> (Outcome \<times> Kernel) panics" where
  "alloc_pages env base_va [] k = ret (sint base_va) k"
| "alloc_pages env base_va (i # rest) k =
    (let va = base_va + of_nat i * 4096 in do {
       (frame, a) \<leftarrow> BitmapAllocator_alloc (mem k);
       let k1 = k\<lparr>mem := a\<rparr>;
       (case frame of
          None \<Rightarrow> ret (- 1) k1
        | Some phys \<Rightarrow>
           if map_ok env va then alloc_pages env base_va rest (emit [MapPage va phys] k1) else ret (- 1) k1)
     })"

definition handle_alloc_mem :: "Env \<Rightarrow> nat \<Rightarrow> u64 \<Rightarrow> Kernel \<Rightarrow> (Outcome \<times> Kernel) panics" where
  "handle_alloc_mem env cid sz k =
    (if sz = 0 then ret (- 1) k
     else case current_task_claim_alloc cid sz (sched k) of
       (None, s) \<Rightarrow> ret (- 11) (k\<lparr>sched := s\<rparr>)
     | (Some base_va, s) \<Rightarrow>
        alloc_pages env base_va [0..<unat ((sz + 4095) div 4096)] (k\<lparr>sched := s\<rparr>))"

section \<open>Introspection\<close>

record TaskStatRaw =
  st_valid :: bool
  st_state :: u8
  st_core :: nat
  st_mem_used :: u64
  st_mem_limit :: u64
  st_name :: name_bytes
  st_restart_count :: u64
  st_queue_depth :: nat
  st_run_ticks :: u64
  st_uptime_secs :: u64
  st_endpoint :: nat

definition task_stat :: "Env \<Rightarrow> Kernel \<Rightarrow> slot \<Rightarrow> TaskStatRaw" where
  "task_stat env k i =
    (if i \<ge> MAX_TASKS then
       \<lparr>st_valid = False, st_state = 0, st_core = 0, st_mem_used = 0, st_mem_limit = 0, st_name = [],
        st_restart_count = 0, st_queue_depth = 0, st_run_ticks = 0, st_uptime_secs = 0, st_endpoint = 0\<rparr>
     else
       (let t = tasks (sched k) i in
        \<lparr>st_valid = t_valid t, st_state = TaskState_to_u8 (t_state t), st_core = t_core t,
         st_mem_used = t_alloc_bytes t, st_mem_limit = t_limit_bytes t, st_name = task_name (sched k) i,
         st_restart_count = next_restart_count (sched k) (task_name (sched k) i),
         st_queue_depth = (case ep_from_u64 (t_endpoint t) of
            Some ep \<Rightarrow> endpoint_queue_depth (routing k) ep | None \<Rightarrow> 0),
         st_run_ticks = run_ticks env i, st_uptime_secs = uptime_secs env i, st_endpoint = t_endpoint t\<rparr>))"

definition STAT_SIZE :: nat where "STAT_SIZE = 176"

definition stat_bytes :: "TaskStatRaw \<Rightarrow> u8 list" where
  "stat_bytes st =
    (let nm = take 128 (st_name st) in
     [if st_valid st then 1 else 0, st_state st, of_nat (st_core st), of_nat (st_queue_depth st)]
     @ to_le_bytes 4 (of_nat (length nm) :: u32) @ to_le_bytes 8 (st_mem_used st) @ to_le_bytes 8 (st_mem_limit st)
     @ nm @ replicate (128 - length nm) 0
     @ to_le_bytes 8 (st_restart_count st) @ to_le_bytes 8 (st_run_ticks st) @ to_le_bytes 8 (st_uptime_secs st))"

definition handle_task_stat :: "Env \<Rightarrow> nat \<Rightarrow> u64 \<Rightarrow> u64 \<Rightarrow> u64 \<Rightarrow> Kernel \<Rightarrow> (Outcome \<times> Kernel) panics" where
  "handle_task_stat env cid i buf_ptr buf_len k =
    (if \<not> holds cid INTROSPECT_RESOURCE READ k then ret (cap_err_to_i64 CapNotHeld) k
     else if unat buf_len < STAT_SIZE then ret (- 1) k
     else if \<not> validate_user_ptr buf_ptr STAT_SIZE then ret (- 1) k
     else
       (case write_user_bytes cid buf_ptr (stat_bytes (task_stat env k (unat i))) k of
          (ok, k1) \<Rightarrow> ret (if ok then 0 else - 1) k1))"

definition cap_entry :: "Capability \<Rightarrow> u8 list" where
  "cap_entry c = to_le_bytes 8 (of_nat (resource_id c) :: u64) @ [rights c] @ replicate 7 0"

definition handle_task_caps :: "nat \<Rightarrow> u64 \<Rightarrow> u64 \<Rightarrow> u64 \<Rightarrow> Kernel \<Rightarrow> (Outcome \<times> Kernel) panics" where
  "handle_task_caps cid i buf_ptr buf_len k =
    (if \<not> holds cid INTROSPECT_RESOURCE READ k then ret (cap_err_to_i64 CapNotHeld) k
     else
       (let cap = min (unat buf_len div 16) 64 in
        if cap = 0 then ret 0 k
        else
          (let found = take cap (for_each_cap_of (sched k) (unat i)); bytes = concat (map cap_entry found) in
           if \<not> validate_user_ptr buf_ptr (length found * 16) then ret (- 1) k
           else
             (case write_user_bytes cid buf_ptr bytes k of
                (ok, k1) \<Rightarrow> ret (if ok then int (length found) else - 1) k1))))"

definition UNGATED :: "nat list" where
  "UNGATED = [0, 3, 10, 11, 12, 13, 14, 15, 16, 17, 18, 19, 20, 21, 23, 28]"

definition inspect_generation :: "Env \<Rightarrow> nat \<Rightarrow> u64 \<Rightarrow> u64 \<Rightarrow> Kernel \<Rightarrow> int" where
  "inspect_generation env cid name_ptr name_len k =
    (case read_name env cid name_ptr name_len k of
       None \<Rightarrow> - 1
     | Some nm \<Rightarrow>
        (case names_lookup (names_dir k) nm of
           None \<Rightarrow> - 1
         | Some ep \<Rightarrow>
            uint (gen_val (case get_resource_generation (res k) ep of Some g \<Rightarrow> g | None \<Rightarrow> INITIAL))))"

definition BOOT_RECORD_SIZE :: nat where "BOOT_RECORD_SIZE = 32 * 1024"
definition BOOT_READ_CHUNK :: nat where "BOOT_READ_CHUNK = 512"

definition inspect_boot :: "Env \<Rightarrow> nat \<Rightarrow> u64 \<Rightarrow> u64 \<Rightarrow> Kernel \<Rightarrow> (Outcome \<times> Kernel) panics" where
  "inspect_boot env cid arg1 arg2 k =
    (if arg2 = 0 then
       ret (if arg1 = 0 then int (length (boot_record env))
            else if arg1 = 1 then int BOOT_RECORD_SIZE else - 1) k
     else
       (let chunk = take BOOT_READ_CHUNK (drop (unat arg1) (boot_record env)) in
        if chunk = [] then ret 0 k
        else case write_user_bytes cid arg2 chunk k of
          (ok, k1) \<Rightarrow> ret (if ok then int (length chunk) else - 1) k1))"

text \<open>Queries whose answer is a fact of the machine are read from \<open>inspect_fact\<close>.\<close>

definition handle_inspect_kernel :: "Env \<Rightarrow> nat \<Rightarrow> u64 \<Rightarrow> u64 \<Rightarrow> u64 \<Rightarrow> Kernel \<Rightarrow> (Outcome \<times> Kernel) panics" where
  "handle_inspect_kernel env cid query_id arg1 arg2 k =
    (let q = unat query_id in
     if q \<notin> set UNGATED \<and> \<not> holds cid INTROSPECT_RESOURCE READ k then ret (cap_err_to_i64 CapNotHeld) k
     else if q = 0 then ret (sint (current_task_alloc_bytes cid (sched k))) k
     else if q = 1 then ret (int (count_live_endpoints (routing k))) k
     else if q = 2 then ret (inspect_generation env cid arg1 arg2 k) k
     else if q = 4 then ret (int (free_frames (mem k))) k
     else if q = 5 then ret (int (total_frames (mem k))) k
     else if q = 6 \<or> q = 7 then
       ret (if unat arg1 \<ge> num_cores (sched k) then 0 else sint (core_ticks env (q = 7) (unat arg1))) k
     else if q = 13 then ret (if foreground_allows env (me cid k) then 1 else 0) k
     else if q = 24 then ret (int (st_endpoint (task_stat env k (unat arg1)))) k
     else if q = 25 then ret (int (call_await_endpoint (routing k) (unat arg1))) k
     else if q = 27 then inspect_boot env cid arg1 arg2 k
     else if q = 28 then
       ret (case power_pending (sched k) of None \<Rightarrow> - 1 | Some (s, reboot) \<Rightarrow> sint (s * 2 + (if reboot then 1 else 0))) k
     else if q \<in> {3, 8, 10, 11, 12, 14, 15, 16, 17, 18, 19, 20, 21, 23, 26} then ret (inspect_fact env q) k
     else ret (- 1) k)"

section \<open>Console input\<close>

definition NO_CONSOLE_BYTE :: int where "NO_CONSOLE_BYTE = 256"

definition console_read_pass :: "Env \<Rightarrow> nat \<Rightarrow> Kernel \<Rightarrow> (Outcome \<times> Kernel) panics" where
  "console_read_pass env cid k =
    (let allowed = foreground_allows env (me cid k); k1 = (if allowed then emit [RxDrain] k else k) in
     case (if allowed then rx_pop env else None) of
       Some b \<Rightarrow> ret (uint b) (emit [SetReadWaiter None] k1)
     | None \<Rightarrow> do {
         (out, k2) \<leftarrow> block_receiver cid k1;
         (case out of Return v \<Rightarrow> ret v (emit [SetReadWaiter None] k2) | _ \<Rightarrow> Some (out, k2))
       })"

definition handle_console_read :: "Env \<Rightarrow> nat \<Rightarrow> u64 \<Rightarrow> Kernel \<Rightarrow> (Outcome \<times> Kernel) panics" where
  "handle_console_read env cid cap_slot k =
    (case lookup_scoped cid (unat cap_slot) READ CONSOLE_READ_RESOURCE k of
       Inl e \<Rightarrow> ret (cap_err_to_i64 e) k
     | Inr _ \<Rightarrow> console_read_pass env cid (emit [SetReadWaiter (Some (me cid k))] k))"

definition handle_try_console_read :: "Env \<Rightarrow> nat \<Rightarrow> u64 \<Rightarrow> Kernel \<Rightarrow> (Outcome \<times> Kernel) panics" where
  "handle_try_console_read env cid cap_slot k =
    (case lookup_scoped cid (unat cap_slot) READ CONSOLE_READ_RESOURCE k of
       Inl e \<Rightarrow> ret (cap_err_to_i64 e) k
     | Inr _ \<Rightarrow>
        if \<not> foreground_allows env (me cid k) then ret NO_CONSOLE_BYTE k
        else ret (case rx_pop env of Some b \<Rightarrow> uint b | None \<Rightarrow> NO_CONSOLE_BYTE) (emit [RxDrain] k))"

text \<open>The handlers that check one capability and then ask the console code for one thing.\<close>

definition gated_slot ::
  "nat \<Rightarrow> u64 \<Rightarrow> Rights \<Rightarrow> ResourceId \<Rightarrow> HwOp list \<Rightarrow> Kernel \<Rightarrow> (Outcome \<times> Kernel) panics" where
  "gated_slot cid cap_slot right rid ops k =
    (case lookup_scoped cid (unat cap_slot) right rid k of
       Inl e \<Rightarrow> ret (cap_err_to_i64 e) k
     | Inr _ \<Rightarrow> ret 0 (emit ops k))"

definition handle_console_foreground :: "nat \<Rightarrow> u64 \<Rightarrow> u64 \<Rightarrow> Kernel \<Rightarrow> (Outcome \<times> Kernel) panics" where
  "handle_console_foreground cid cap_slot opn k =
    gated_slot cid cap_slot READ CONSOLE_READ_RESOURCE
      (if opn = 0 then [ReleaseConsoleForeground, ConsolePushByte 0x0A] else [ClaimConsoleForeground (me cid k)]) k"

definition handle_console_echo :: "nat \<Rightarrow> u64 \<Rightarrow> u64 \<Rightarrow> Kernel \<Rightarrow> (Outcome \<times> Kernel) panics" where
  "handle_console_echo cid cap_slot on k =
    gated_slot cid cap_slot READ CONSOLE_READ_RESOURCE [SetConsoleEcho (on \<noteq> 0)] k"

definition handle_console_boot_complete :: "nat \<Rightarrow> u64 \<Rightarrow> Kernel \<Rightarrow> (Outcome \<times> Kernel) panics" where
  "handle_console_boot_complete cid cap_slot k =
    gated_slot cid cap_slot READ CONSOLE_READ_RESOURCE [ConsoleBootDone] k"

definition handle_signal_input_ready :: "nat \<Rightarrow> u64 \<Rightarrow> Kernel \<Rightarrow> (Outcome \<times> Kernel) panics" where
  "handle_signal_input_ready cid cap_slot k =
    gated_slot cid cap_slot WRITE CONSOLE_PUSH_RESOURCE [SetInputReady] k"

definition handle_console_push :: "nat \<Rightarrow> u64 \<Rightarrow> u64 \<Rightarrow> Kernel \<Rightarrow> (Outcome \<times> Kernel) panics" where
  "handle_console_push cid cap_slot byte k =
    gated_slot cid cap_slot WRITE CONSOLE_PUSH_RESOURCE [ConsolePushByte (ucast byte)] k"

section \<open>Devices and power\<close>

text \<open>The handlers that take no slot check that the caller holds the resource in some slot.\<close>

definition gated :: "nat \<Rightarrow> ResourceId \<Rightarrow> Rights \<Rightarrow> Kernel \<Rightarrow> (Outcome \<times> Kernel) panics \<Rightarrow> (Outcome \<times> Kernel) panics" where
  "gated cid rid right k body = (if \<not> holds cid rid right k then ret (cap_err_to_i64 CapNotHeld) k else body)"

definition handle_fire_irq :: "nat \<Rightarrow> u64 \<Rightarrow> Kernel \<Rightarrow> (Outcome \<times> Kernel) panics" where
  "handle_fire_irq cid irq k =
    gated cid FIRE_IRQ_RESOURCE WRITE k
      (if irq > 255 then ret (- 1) k else ret 0 (emit [FireTestIrq (ucast irq)] k))"

definition handle_reboot :: "nat \<Rightarrow> Kernel \<Rightarrow> (Outcome \<times> Kernel) panics" where
  "handle_reboot cid k = gated cid REBOOT_RESOURCE WRITE k (Some (NoReturn, emit [HardwareReset] k))"

definition handle_device_power :: "Env \<Rightarrow> nat \<Rightarrow> u64 \<Rightarrow> Kernel \<Rightarrow> (Outcome \<times> Kernel) panics" where
  "handle_device_power env cid on k =
    gated cid DEVICE_POWER_RESOURCE WRITE k
      (let kind = task_hw_kind (sched k) (me cid k) in
       ret (if device_power env kind (on \<noteq> 0) then 0 else - 1) (emit [SetDevicePower kind (on \<noteq> 0)] k))"

definition handle_cpu_clock :: "Env \<Rightarrow> nat \<Rightarrow> u64 \<Rightarrow> Kernel \<Rightarrow> (Outcome \<times> Kernel) panics" where
  "handle_cpu_clock env cid mx k =
    gated cid CPU_CLOCK_RESOURCE WRITE k
      (ret (case cpu_clock env (mx \<noteq> 0) of Some hz \<Rightarrow> sint hz | None \<Rightarrow> - 1) (emit [SetCpuClock (mx \<noteq> 0)] k))"

definition power_answer :: "PowerChange \<Rightarrow> int" where
  "power_answer c = (case c of PowerDone \<Rightarrow> 0 | PowerUnchanged \<Rightarrow> 1 | PowerOtherKind \<Rightarrow> 2)"

definition handle_power_off :: "nat \<Rightarrow> u64 \<Rightarrow> u64 \<Rightarrow> Kernel \<Rightarrow> (Outcome \<times> Kernel) panics" where
  "handle_power_off cid opn secs k =
    (let reboot = opn = 3 \<or> opn = 4 in
     gated cid (if reboot then REBOOT_RESOURCE else POWER_OFF_RESOURCE) WRITE k
       (if opn = 0 then Some (NoReturn, emit [PowerOffMachine] k)
        else if opn = 1 \<or> opn = 3 then
          (if secs = 0 \<or> secs > POWER_OFF_MAX_SECS then ret (- 1) k
           else (case power_arm secs reboot (sched k) of (c, s) \<Rightarrow> ret (power_answer c) (k\<lparr>sched := s\<rparr>)))
        else if opn = 2 \<or> opn = 4 then
          (case power_disarm reboot (sched k) of (c, s) \<Rightarrow> ret (power_answer c) (k\<lparr>sched := s\<rparr>))
        else ret (- 1) k))"

definition handle_pci_cfg_read :: "Env \<Rightarrow> nat \<Rightarrow> u64 \<Rightarrow> u64 \<Rightarrow> Kernel \<Rightarrow> (Outcome \<times> Kernel) panics" where
  "handle_pci_cfg_read env cid sel off k =
    gated cid PCI_CFG_RESOURCE READ k
      (let s = ucast sel; reg = unat (off AND 0xFFFF) in
       ret (case pci_cfg_read32 env s reg of Some v \<Rightarrow> uint v | None \<Rightarrow> - 1) (emit [PciCfgRead32 s reg] k))"

definition NET_FRAME_MAX :: nat where "NET_FRAME_MAX = 1600"

definition handle_net_frame_tx :: "Env \<Rightarrow> nat \<Rightarrow> u64 \<Rightarrow> u64 \<Rightarrow> Kernel \<Rightarrow> (Outcome \<times> Kernel) panics" where
  "handle_net_frame_tx env cid ptr len k =
    gated cid NET_DEVICE_RESOURCE WRITE k
      (if unat len = 0 \<or> unat len > NET_FRAME_MAX then ret (- 1) k
       else case read_user_bytes env cid k ptr (unat len) of
         None \<Rightarrow> ret (- 1) k
       | Some frame \<Rightarrow> ret (if net_tx env frame then 0 else - 1) (emit [NetTx frame] k))"

definition handle_net_frame_rx :: "Env \<Rightarrow> nat \<Rightarrow> u64 \<Rightarrow> u64 \<Rightarrow> Kernel \<Rightarrow> (Outcome \<times> Kernel) panics" where
  "handle_net_frame_rx env cid ptr mx k =
    gated cid NET_DEVICE_RESOURCE WRITE k
      (let n = min (unat mx) NET_FRAME_MAX in
       if n = 0 then ret (- 1) k
       else
         (let frame = take n (net_rx env n); k1 = emit [NetRx n] k in
          if frame = [] then ret 0 k1
          else case write_user_bytes cid ptr frame k1 of
            (ok, k2) \<Rightarrow> ret (if ok then int (length frame) else - 1) k2))"

definition handle_net_info :: "Env \<Rightarrow> nat \<Rightarrow> u64 \<Rightarrow> Kernel \<Rightarrow> (Outcome \<times> Kernel) panics" where
  "handle_net_info env cid ptr k =
    gated cid NET_DEVICE_RESOURCE WRITE k
      (case net_info env of
         None \<Rightarrow> ret 0 k
       | Some (mac, link) \<Rightarrow>
          (case write_user_bytes cid ptr (take 6 mac @ [if link then 1 else 0]) k of
             (ok, k1) \<Rightarrow> ret (if ok then 1 else - 1) k1))"

definition handle_gpio :: "Env \<Rightarrow> nat \<Rightarrow> u64 \<Rightarrow> u64 \<Rightarrow> Kernel \<Rightarrow> (Outcome \<times> Kernel) panics" where
  "handle_gpio env cid opn pin k =
    gated cid GPIO_DEVICE_RESOURCE WRITE k
      (if opn > 4 \<or> pin > 53 then ret (- 1) k
       else ret (gpio_op env (unat opn) (unat pin)) (emit [GpioOp (unat opn) (unat pin)] k))"

definition USB_DISK_BUSY :: int where "USB_DISK_BUSY = - 20"
definition USB_DISK_ABSENT :: int where "USB_DISK_ABSENT = - 21"
definition USB_DISK_BLOCK :: nat where "USB_DISK_BLOCK = 512"

definition handle_usb_disk_info :: "Env \<Rightarrow> nat \<Rightarrow> Kernel \<Rightarrow> (Outcome \<times> Kernel) panics" where
  "handle_usb_disk_info env cid k = gated cid USB_DISK_RESOURCE WRITE k (ret (uint (usb_disk_sectors env)) k)"

definition disk_failure :: "Env \<Rightarrow> int" where
  "disk_failure env =
    (if usb_disk_absent env then USB_DISK_ABSENT else if usb_disk_busy env then USB_DISK_BUSY else - 1)"

definition handle_usb_disk_read :: "Env \<Rightarrow> nat \<Rightarrow> u64 \<Rightarrow> u64 \<Rightarrow> Kernel \<Rightarrow> (Outcome \<times> Kernel) panics" where
  "handle_usb_disk_read env cid lba ptr k =
    gated cid USB_DISK_RESOURCE WRITE k
      (let k1 = emit [UsbDiskReadBlock lba] k in
       case usb_disk_read env lba of
         None \<Rightarrow> ret (disk_failure env) k1
       | Some block \<Rightarrow>
          (case write_user_bytes cid ptr block k1 of (ok, k2) \<Rightarrow> ret (if ok then 0 else - 1) k2))"

definition handle_usb_disk_write :: "Env \<Rightarrow> nat \<Rightarrow> u64 \<Rightarrow> u64 \<Rightarrow> Kernel \<Rightarrow> (Outcome \<times> Kernel) panics" where
  "handle_usb_disk_write env cid lba ptr k =
    gated cid USB_DISK_RESOURCE WRITE k
      (case read_user_bytes env cid k ptr USB_DISK_BLOCK of
         None \<Rightarrow> ret (- 1) k
       | Some src \<Rightarrow>
          ret (if usb_disk_write env lba src then 0 else disk_failure env) (emit [UsbDiskWriteBlock lba src] k))"

definition handle_usb_disk_flush :: "Env \<Rightarrow> nat \<Rightarrow> Kernel \<Rightarrow> (Outcome \<times> Kernel) panics" where
  "handle_usb_disk_flush env cid k =
    gated cid USB_DISK_RESOURCE WRITE k (ret (if usb_disk_flush env then 0 else - 1) (emit [UsbDiskFlushCache] k))"

end
