(* ===== verification/Spawn.thy ===== *)
theory Spawn
  imports Syscall_Ops
begin

text \<open>
  Starting a task (\<open>kernel/src/task/mod.rs\<close>: privileges, device classes, placement, \<open>spawn_from_image\<close>,
  \<open>spawn_service_with_image\<close>, the undoing of a failed spawn, and the supervisor's respawn) and the system call that asks for
  it (\<open>handle_spawn_image\<close> of \<open>kernel/src/syscall/dispatch.rs\<close>). The model follows the function's effect on the kernel's tables:
  slot, capabilities, endpoints, names, interrupts, peers, DMA reservation, budget. The building of the address
  space is reduced to whether each step of it succeeds; these answers, the bus and the boot facts are the argument \<open>Board\<close>.
\<close>

unbundle bit_operations_syntax

section \<open>Privileges\<close>

definition privbits :: "(u32 \<times> ResourceId) list" where
  "privbits =
    [(push_bit 0 1, SPAWN_RESOURCE), (push_bit 1 1, CONSOLE_PUSH_RESOURCE), (push_bit 2 1, INTROSPECT_RESOURCE),
     (push_bit 3 1, SERVICE_CONTROL_RESOURCE), (push_bit 4 1, FIRE_IRQ_RESOURCE), (push_bit 5 1, REBOOT_RESOURCE),
     (push_bit 6 1, ACQUIRE_ANY_RESOURCE), (push_bit 7 1, RESOURCE_MINT_RESOURCE), (push_bit 8 1, GPIO_DEVICE_RESOURCE),
     (push_bit 9 1, SET_CLOCK_RESOURCE), (push_bit 10 1, SET_CLOCK_RESOURCE), (push_bit 11 1, NET_DEVICE_RESOURCE),
     (push_bit 12 1, PCI_CFG_RESOURCE), (push_bit 13 1, CPU_CLOCK_RESOURCE), (push_bit 14 1, POWER_OFF_RESOURCE)]"

definition KNOWN :: u32 where "KNOWN = fold (\<lambda>p acc. acc OR fst p) privbits 0"

text \<open>\<open>privileges_caller_lacks\<close>, without the label of the missing privilege: does the caller lack one it asks for?\<close>

definition privileges_caller_lacks :: "nat \<Rightarrow> u32 \<Rightarrow> Kernel \<Rightarrow> bool" where
  "privileges_caller_lacks cid requested k \<longleftrightarrow>
    requested AND NOT KNOWN \<noteq> 0 \<or>
    list_ex (\<lambda>(b, rid). requested AND b \<noteq> 0 \<and> \<not> holds cid rid GRANT k) privbits"

text \<open>What a privilege word stands for: the resource and the right the child is minted for each bit, in the order of the
  spawn code. \<open>None\<close> is the kernel's own spawn of the supervisor.\<close>

record Privileges =
  p_spawn :: bool
  p_console_push :: bool
  p_introspect :: bool
  p_service_control :: bool
  p_fire_irq :: bool
  p_reboot :: bool
  p_acquire_any :: bool
  p_net_device :: bool
  p_pci_cfg :: bool
  p_cpu_clock :: bool
  p_power_off :: bool
  p_usb_disk :: bool
  p_gpio :: bool
  p_set_clock :: bool
  p_set_clock_floor :: bool
  p_image_spawn :: bool

definition service_privileges :: "name_bytes \<Rightarrow> Privileges" where
  "service_privileges nm =
    \<lparr>p_spawn = nm = SUPERVISOR, p_console_push = False, p_introspect = nm = SUPERVISOR,
     p_service_control = nm = SUPERVISOR, p_fire_irq = False, p_reboot = False, p_acquire_any = nm = SUPERVISOR,
     p_net_device = False, p_pci_cfg = False, p_cpu_clock = False, p_power_off = False, p_usb_disk = False,
     p_gpio = False, p_set_clock = False, p_set_clock_floor = False, p_image_spawn = nm = SUPERVISOR\<rparr>"

definition privileges_of :: "u32 option \<Rightarrow> name_bytes \<Rightarrow> Privileges" where
  "privileges_of over nm =
    (case over of
       None \<Rightarrow> service_privileges nm
     | Some w \<Rightarrow>
        \<lparr>p_spawn = bit w 0, p_console_push = bit w 1, p_introspect = bit w 2, p_service_control = bit w 3,
         p_fire_irq = bit w 4, p_reboot = bit w 5, p_acquire_any = bit w 6, p_net_device = bit w 11,
         p_pci_cfg = bit w 12, p_cpu_clock = bit w 13, p_power_off = bit w 14, p_usb_disk = False, p_gpio = bit w 8,
         p_set_clock = bit w 10, p_set_clock_floor = bit w 9, p_image_spawn = False\<rparr>)"

definition resource_mint_of :: "u32 option \<Rightarrow> bool" where
  "resource_mint_of over \<longleftrightarrow> (case over of Some w \<Rightarrow> bit w 7 | None \<Rightarrow> False)"

definition SUPERVISOR_DELEGATABLE :: "ResourceId list" where
  "SUPERVISOR_DELEGATABLE =
    [RESOURCE_MINT_RESOURCE, INTROSPECT_RESOURCE, SERVICE_CONTROL_RESOURCE, SPAWN_RESOURCE, ACQUIRE_ANY_RESOURCE,
     CONSOLE_PUSH_RESOURCE, FIRE_IRQ_RESOURCE, REBOOT_RESOURCE, GPIO_DEVICE_RESOURCE, SET_CLOCK_RESOURCE,
     SET_CLOCK_RESOURCE, NET_DEVICE_RESOURCE, PCI_CFG_RESOURCE, CPU_CLOCK_RESOURCE, POWER_OFF_RESOURCE]"

section \<open>Devices\<close>

record PciDevice =
  pd_bdf :: u32
  pd_class :: u32
  pd_bars :: "u64 list"
  pd_index :: nat

datatype HwClass =
    HwNone | Dwc2 | AudioPwm | WifiSdio | Framebuffer | TestIrq
  | Pci (hw_class_code: u32) (hw_bar_ix: u8) (hw_dma_pages: u32) (hw_confine: bool) (hw_bdf: u32)
  | Nic | Xhci | Ehci

datatype SpawnError =
  LoadFailed | NoMemory | SpawnMapFailed | CapTableFull | SpawnNotFound | AlreadyRunning | PlacementInvalid

record Board =
  load_result :: "SpawnError + u64"
  core_is_ready :: "u32 \<Rightarrow> bool"
  ready_count :: nat
  pci_table :: "PciDevice list"
  xhci_dev :: "PciDevice option"
  ehci_dev :: "PciDevice option"
  nic_dev :: "PciDevice option"
  first_memory_bar :: "PciDevice \<Rightarrow> u64"
  soc_nic_present :: bool
  dwc2_present :: bool
  fixed_device_present :: "nat \<Rightarrow> bool"
  fb_grant :: "(nat \<times> nat) option"
  dwc2_vectors :: "u8 list"
  soc_nic_vectors :: "u8 list"
  msi_accepted :: "u32 \<Rightarrow> u8 \<Rightarrow> bool"
  power_control :: "nat \<Rightarrow> bool"
  mmio_map_ok :: bool
  dma_map_ok :: bool
  ctx_frame_ok :: bool
  ctx_map_ok :: bool
  new_kstack :: "u64 option"
  new_cr3 :: u64

definition MAX_DEVICES :: nat where "MAX_DEVICES = 32"
definition BAR_AUTO :: u8 where "BAR_AUTO = 7"
definition HW_PCI_FLAG :: u32 where "HW_PCI_FLAG = push_bit 31 1"
definition HW_PCI_IRQ :: u32 where "HW_PCI_IRQ = push_bit 29 1"
definition HW_PCI_CONFINE :: u32 where "HW_PCI_CONFINE = push_bit 28 1"
definition MSI_POOL_BASE :: u8 where "MSI_POOL_BASE = 0x30"
definition MSI_POOL_LEN :: nat where "MSI_POOL_LEN = 8"
definition XHCI_MSI_VECTOR :: u8 where "XHCI_MSI_VECTOR = 0x28"
definition EHCI_MSI_VECTOR :: u8 where "EHCI_MSI_VECTOR = 0x29"

definition hw_class_is_pci :: "u32 \<Rightarrow> bool" where "hw_class_is_pci c \<longleftrightarrow> c AND HW_PCI_FLAG \<noteq> 0"

definition hw_pci_of :: "u32 \<Rightarrow> u32 \<Rightarrow> u32 \<Rightarrow> HwClass" where
  "hw_pci_of c dma_pages bdf =
    Pci (c AND 0x00FFFFFF) (ucast (drop_bit 24 c AND 7)) dma_pages (c AND HW_PCI_CONFINE \<noteq> 0) bdf"

definition hw_class_of :: "u32 \<Rightarrow> HwClass" where
  "hw_class_of c =
    (if hw_class_is_pci c then hw_pci_of c 0 0
     else if c = 2 then Nic else if c = 3 then Xhci else if c = 4 then Ehci else if c = 5 then Dwc2
     else if c = 6 then Framebuffer else if c = 7 then TestIrq else if c = 8 then AudioPwm
     else if c = 9 then WifiSdio else HwNone)"

definition hw_class_known :: "u32 \<Rightarrow> bool" where
  "hw_class_known c \<longleftrightarrow> hw_class_is_pci c \<or> c = 0 \<or> hw_class_of c \<noteq> HwNone"

definition kind_code :: "HwClass \<Rightarrow> nat" where
  "kind_code h = (case h of
     Nic \<Rightarrow> 2 | Xhci \<Rightarrow> 3 | Ehci \<Rightarrow> 4 | Dwc2 \<Rightarrow> 5 | Framebuffer \<Rightarrow> 6 | TestIrq \<Rightarrow> 7 | AudioPwm \<Rightarrow> 8 | WifiSdio \<Rightarrow> 9
   | _ \<Rightarrow> 0)"

definition fixed_kind :: "HwClass \<Rightarrow> nat option" where
  "fixed_kind h = (if h \<in> {Dwc2, Nic, AudioPwm, WifiSdio} then Some (kind_code h) else None)"

definition find_by_class :: "Board \<Rightarrow> u32 \<Rightarrow> PciDevice option" where
  "find_by_class b c = find (\<lambda>d. pd_class d = c) (pci_table b)"

definition pci_dev :: "Board \<Rightarrow> HwClass \<Rightarrow> PciDevice option" where
  "pci_dev b h = (case h of
     Pci c _ _ _ bdf \<Rightarrow>
       if bdf = 0 then find_by_class b c
       else (case find (\<lambda>d. pd_bdf d = bdf) (pci_table b) of
               None \<Rightarrow> None
             | Some d \<Rightarrow> if pd_class d \<noteq> c then None else Some d)
   | _ \<Rightarrow> None)"

definition hw_found :: "Board \<Rightarrow> HwClass \<Rightarrow> bool" where
  "hw_found b h = (case h of
     Dwc2 \<Rightarrow> dwc2_present b | AudioPwm \<Rightarrow> fixed_device_present b 8 | WifiSdio \<Rightarrow> fixed_device_present b 9
   | Framebuffer \<Rightarrow> fb_grant b \<noteq> None | Xhci \<Rightarrow> xhci_dev b \<noteq> None | Ehci \<Rightarrow> ehci_dev b \<noteq> None
   | Nic \<Rightarrow> nic_dev b \<noteq> None \<or> soc_nic_present b | TestIrq \<Rightarrow> True | Pci _ _ _ _ _ \<Rightarrow> pci_dev b h \<noteq> None
   | HwNone \<Rightarrow> False)"

definition dev_bar :: "PciDevice option \<Rightarrow> nat \<Rightarrow> u64" where
  "dev_bar d i = (case d of Some x \<Rightarrow> (if i < length (pd_bars x) then pd_bars x ! i else 0) | None \<Rightarrow> 0)"

definition mmio_bar :: "Board \<Rightarrow> HwClass \<Rightarrow> u64" where
  "mmio_bar b h =
    (if \<not> hw_found b h then 0
     else case h of
       Pci _ ix _ _ _ \<Rightarrow>
         (if ix = BAR_AUTO then
            (case pci_dev b h of
               None \<Rightarrow> 0
             | Some d \<Rightarrow> (case find (\<lambda>v. v \<noteq> 0) (pd_bars d) of Some v \<Rightarrow> v | None \<Rightarrow> 0))
          else dev_bar (pci_dev b h) (min (unat ix) 5))
     | Xhci \<Rightarrow> dev_bar (xhci_dev b) 0
     | Ehci \<Rightarrow> dev_bar (ehci_dev b) 0
     | Nic \<Rightarrow> (case nic_dev b of Some d \<Rightarrow> first_memory_bar b d | None \<Rightarrow> 0)
     | _ \<Rightarrow> 0)"

definition needs_dma :: "Board \<Rightarrow> HwClass \<Rightarrow> bool" where
  "needs_dma b h = (case h of
     Pci _ _ n _ _ \<Rightarrow> n > 0 \<and> hw_found b h
   | _ \<Rightarrow> h \<notin> {HwNone, Framebuffer, TestIrq, WifiSdio} \<and> hw_found b h)"

text \<open>The device's cell of the DMA reservations: 0 to 31 for the bus devices, then the named ones.\<close>

definition dma_phys_slot :: "Board \<Rightarrow> HwClass \<Rightarrow> nat" where
  "dma_phys_slot b h = (case h of
     Dwc2 \<Rightarrow> 32 | AudioPwm \<Rightarrow> 33 | Ehci \<Rightarrow> 35 | Nic \<Rightarrow> 36
   | Pci _ _ _ _ _ \<Rightarrow>
       (case pci_dev b h of Some d \<Rightarrow> (if pd_index d < MAX_DEVICES then pd_index d else 0) | None \<Rightarrow> 0)
   | _ \<Rightarrow> 34)"

definition iommu_confine :: "HwClass \<Rightarrow> bool" where
  "iommu_confine h = (case h of Pci _ _ _ c _ \<Rightarrow> c | _ \<Rightarrow> h = Xhci)"

definition device_bdf :: "Board \<Rightarrow> HwClass \<Rightarrow> u32" where
  "device_bdf b h =
    (let of_dev = (\<lambda>d. case d of Some x \<Rightarrow> pd_bdf x | None \<Rightarrow> 0xFFFF) in
     case h of
       Pci c _ _ _ bdf \<Rightarrow>
         if bdf \<noteq> 0 then (if pci_dev b h = None then 0xFFFF else bdf) else of_dev (find_by_class b c)
     | Xhci \<Rightarrow> of_dev (xhci_dev b) | Ehci \<Rightarrow> of_dev (ehci_dev b) | Nic \<Rightarrow> of_dev (nic_dev b)
     | _ \<Rightarrow> 0xFFFF)"

definition hw_irqs_for :: "Board \<Rightarrow> HwClass \<Rightarrow> u8 list" where
  "hw_irqs_for b h = (case h of
     Xhci \<Rightarrow> [XHCI_MSI_VECTOR] | Ehci \<Rightarrow> [EHCI_MSI_VECTOR] | Dwc2 \<Rightarrow> dwc2_vectors b | Nic \<Rightarrow> soc_nic_vectors b
   | TestIrq \<Rightarrow> [33] | _ \<Rightarrow> [])"

text \<open>The vector of a PCI device, allocated once and kept; 0 for none. The compare-exchange loop is its successful pass.\<close>

definition pci_msi_vector :: "Board \<Rightarrow> HwClass \<Rightarrow> nat \<Rightarrow> Kernel \<Rightarrow> u8 \<times> Kernel" where
  "pci_msi_vector b h core k =
    (case pci_dev b h of
       None \<Rightarrow> (0, k)
     | Some d \<Rightarrow>
        if pd_index d \<ge> MAX_DEVICES then (0, k)
        else if msi_vec k (pd_index d) \<noteq> 0 then
          (let v = msi_vec k (pd_index d) in
           (if msi_accepted b (pd_bdf d) v then v else 0, emit [ProgramMsi (pd_bdf d) v core] k))
        else if msi_next k \<ge> MSI_POOL_LEN then (0, k)
        else
          (let v = MSI_POOL_BASE + of_nat (msi_next k); k1 = emit [ProgramMsi (pd_bdf d) v core] k in
           if msi_accepted b (pd_bdf d) v
           then (v, k1\<lparr>msi_next := msi_next k1 + 1, msi_vec := (msi_vec k1)(pd_index d := v)\<rparr>)
           else (0, k1)))"

section \<open>Placement\<close>

definition next_core :: "Board \<Rightarrow> Kernel \<Rightarrow> u32 \<times> Kernel" where
  "next_core b k = (spawn_rr k mod of_nat (max (ready_count b) 1), k\<lparr>spawn_rr := spawn_rr k + 1\<rparr>)"

definition resolve_spawn_core :: "Board \<Rightarrow> u32 option \<Rightarrow> u32 \<Rightarrow> Kernel \<Rightarrow> (SpawnError + u32) \<times> Kernel" where
  "resolve_spawn_core b core_override preferred k =
    (case core_override of
       Some n \<Rightarrow> (if core_is_ready b n then (Inr n, k) else (Inl PlacementInvalid, k))
     | None \<Rightarrow>
        if preferred = - 1 then
          (if ready_count b = 0 then (Inr 0, k) else (case next_core b k of (n, k') \<Rightarrow> (Inr n, k')))
        else if core_is_ready b preferred then (Inr preferred, k)
        else (case next_core b k of (n, k') \<Rightarrow> (Inr n, k')))"

section \<open>Undoing a spawn that failed\<close>

definition cleanup_partial_spawn :: "slot \<Rightarrow> name_bytes \<Rightarrow> EndpointId option \<Rightarrow> Kernel \<Rightarrow> Kernel panics" where
  "cleanup_partial_spawn i nm own k =
    (let k1 = k\<lparr>sched := snd (take_task_hw_bdf i (sched k))\<rparr>;
         (reply, s) = take_task_reply_endpoint i (sched k1); k2 = k1\<lparr>sched := s\<rparr> in do {
       k3 \<leftarrow> (case reply of
                None \<Rightarrow> Some k2
              | Some rep \<Rightarrow> do {
                  (w, r) \<leftarrow> kill_endpoint rep (routing k2);
                  g \<leftarrow> mark_dead_resource rep (res k2);
                  Some (k2\<lparr>routing := r, res := g\<rparr>)
                });
       k4 \<leftarrow> (case own of
                None \<Rightarrow> Some k3
              | Some ep \<Rightarrow> do {
                  (w, r) \<leftarrow> kill_endpoint ep (routing k3);
                  g \<leftarrow> mark_dead_resource ep (res k3);
                  let ns = snd (unregister_endpoint nm ep (names_dir k3));
                  Some (k3\<lparr>routing := r, res := g, names_dir := ns, ids := free_endpoint_id ep (ids k3)\<rparr>)
                });
       Some (k4\<lparr>sched := release_task_slot i (sched k4)\<rparr>)
     })"

section \<open>The spawn\<close>

record SpawnArgs =
  sp_name :: name_bytes
  sp_core :: nat
  sp_recv :: bool
  sp_peers :: "name_bytes list"
  sp_peers_grant :: bool
  sp_limit :: u64
  sp_irqs :: "u8 list"
  sp_console :: bool
  sp_privs :: "u32 option"
  sp_hw :: HwClass
  sp_dma :: u32
  sp_installs :: "(name_bytes \<times> Capability) list option"
  sp_watched :: bool

type_synonym 'a spawns = "((SpawnError + 'a) \<times> Kernel) panics"

text \<open>Inserting into the table of the task being built.\<close>

definition child_insert :: "slot \<Rightarrow> Capability \<Rightarrow> Kernel \<Rightarrow> Kernel option" where
  "child_insert i cap k =
    (case CapTable_insert cap (t_caps (tasks (sched k) i)) of
       Inl _ \<Rightarrow> None
     | Inr (_, tbl) \<Rightarrow> Some (k\<lparr>sched := upd_task i (\<lambda>t. t\<lparr>t_caps := tbl\<rparr>) (sched k)\<rparr>))"

definition spawn_fail :: "slot \<Rightarrow> name_bytes \<Rightarrow> EndpointId option \<Rightarrow> SpawnError \<Rightarrow> Kernel \<Rightarrow> 'a spawns" where
  "spawn_fail i nm own e k = map_option (Pair (Inl e)) (cleanup_partial_spawn i nm own k)"

text \<open>The grants that must succeed: mint, insert, and undo the spawn when the table is full. (For the very first one the
  code releases the slot only; the table is empty then and the insertion cannot fail.)\<close>

fun give_all :: "slot \<Rightarrow> name_bytes \<Rightarrow> EndpointId option \<Rightarrow> (ResourceId \<times> Rights) list \<Rightarrow> Kernel \<Rightarrow> unit spawns" where
  "give_all i nm own [] k = Some (Inr (), k)"
| "give_all i nm own ((rid, r) # gs) k = do {
     cap \<leftarrow> mint_cap (res k) rid r;
     (case child_insert i cap k of
        None \<Rightarrow> spawn_fail i nm own CapTableFull k
      | Some k' \<Rightarrow> give_all i nm own gs k')
   }"

text \<open>The optional ones: a full table is passed over. The result says whether the capability went in.\<close>

definition give_optional :: "slot \<Rightarrow> ResourceId \<Rightarrow> Rights \<Rightarrow> Kernel \<Rightarrow> (bool \<times> Kernel) panics" where
  "give_optional i rid r k = do {
     cap \<leftarrow> mint_cap (res k) rid r;
     Some (case child_insert i cap k of None \<Rightarrow> (False, k) | Some k' \<Rightarrow> (True, k'))
   }"

definition spawn_reply :: "SpawnArgs \<Rightarrow> slot \<Rightarrow> Kernel \<Rightarrow> Kernel panics" where
  "spawn_reply a i k = do {
     (rep, ids') \<leftarrow> alloc_endpoint_id (ids k);
     (gen, c) \<leftarrow> next_generation (gen_counter k);
     g \<leftarrow> register_at_gen rep gen (res k);
     let k1 = k\<lparr>ids := ids', gen_counter := c, res := g\<rparr>;
     (case try_register_optional rep (sp_core a) gen (sp_watched a \<or> sp_name a = SUPERVISOR) (routing k1) of
        (Inl _, r) \<Rightarrow> Some (k1\<lparr>routing := r, ids := free_endpoint_id rep (ids k1)\<rparr>)
      | (Inr _, r) \<Rightarrow>
         (let k2 = k1\<lparr>routing := r, sched := set_task_reply_endpoint i (Some rep) (sched k1)\<rparr> in do {
            (got, k3) \<leftarrow> give_optional i rep RECV k2;
            (if got then map_option snd (give_optional i rep (Rights_union SEND GRANT) k3) else Some k3)
          }))
   }"

definition spawn_endpoint :: "SpawnArgs \<Rightarrow> slot \<Rightarrow> Kernel \<Rightarrow> (EndpointId option) spawns" where
  "spawn_endpoint a i k =
    (if \<not> sp_recv a then Some (Inr None, k)
     else do {
       (ep, ids') \<leftarrow> alloc_endpoint_id (ids k);
       (gen, c) \<leftarrow> next_generation (gen_counter k);
       g \<leftarrow> register_at_gen ep gen (res k);
       let k1 = k\<lparr>ids := ids', gen_counter := c, res := g\<rparr>;
       (case try_register ep (sp_core a) gen (routing k1) of
          (False, r) \<Rightarrow> spawn_fail i (sp_name a) None NoMemory (k1\<lparr>routing := r\<rparr>)
        | (True, r) \<Rightarrow>
           (let k2 = k1\<lparr>routing := r, names_dir := names_register (sp_name a) ep (names_dir k1)\<rparr> in do {
              (got, k3) \<leftarrow> give_all i (sp_name a) (Some ep) [(ep, RECV)] k2;
              (case got of
                 Inl e \<Rightarrow> Some (Inl e, k3)
               | Inr _ \<Rightarrow> do {
                   (own, k4) \<leftarrow> give_optional i ep (Rights_union SEND GRANT) k3;
                   k5 \<leftarrow> spawn_reply a i k4;
                   Some (Inr (Some ep), fold (\<lambda>irq. irq_register irq ep) (sp_irqs a) k5)
                 })
            }))
     })"

text \<open>The stable resources the child is given after its endpoints, in order.\<close>

definition child_grants :: "Board \<Rightarrow> SpawnArgs \<Rightarrow> (ResourceId \<times> Rights) list" where
  "child_grants b a =
    (let p = privileges_of (sp_privs a) (sp_name a) in
     (if sp_console a then [(CONSOLE_READ_RESOURCE, READ)] else [])
     @ (if p_console_push p then [(CONSOLE_PUSH_RESOURCE, WRITE)] else [])
     @ (if p_introspect p then [(INTROSPECT_RESOURCE, READ)] else [])
     @ (if p_service_control p then [(SERVICE_CONTROL_RESOURCE, WRITE)] else [])
     @ (if sp_name a = SUPERVISOR then map (\<lambda>rid. (rid, GRANT)) SUPERVISOR_DELEGATABLE else [])
     @ (if resource_mint_of (sp_privs a) then [(RESOURCE_MINT_RESOURCE, WRITE)] else [])
     @ (if p_fire_irq p then [(FIRE_IRQ_RESOURCE, WRITE)] else [])
     @ (if p_reboot p then [(REBOOT_RESOURCE, WRITE)] else [])
     @ (if p_acquire_any p then [(ACQUIRE_ANY_RESOURCE, WRITE)] else [])
     @ (if p_net_device p then [(NET_DEVICE_RESOURCE, WRITE)] else [])
     @ (if p_pci_cfg p then [(PCI_CFG_RESOURCE, READ)] else [])
     @ (if p_cpu_clock p then [(CPU_CLOCK_RESOURCE, WRITE)] else [])
     @ (if p_power_off p then [(POWER_OFF_RESOURCE, WRITE)] else [])
     @ (case fixed_kind (sp_hw a) of
          Some kind \<Rightarrow> (if power_control b kind then [(DEVICE_POWER_RESOURCE, WRITE)] else [])
        | None \<Rightarrow> [])
     @ (if p_usb_disk p then [(USB_DISK_RESOURCE, WRITE)] else [])
     @ (if p_gpio p then [(GPIO_DEVICE_RESOURCE, WRITE)] else [])
     @ (if p_image_spawn p then [(IMAGE_SPAWN_RESOURCE, WRITE)] else [])
     @ (if p_set_clock p then [(SET_CLOCK_RESOURCE, WRITE)] else [])
     @ (if p_set_clock_floor p then [(SET_CLOCK_RESOURCE, READ)] else []))"

text \<open>Wiring the peers: the capabilities the caller supplied, then the declared names it did not supply. The list is of the
  labels wired so far.\<close>

fun wire_installs :: "slot \<Rightarrow> (name_bytes \<times> Capability) list \<Rightarrow> name_bytes list \<Rightarrow> Kernel \<Rightarrow> name_bytes list \<times> Kernel" where
  "wire_installs i [] ws k = (ws, k)"
| "wire_installs i ((label, cap) # es) ws k =
    (if length ws \<ge> MAX_SEND_PEERS then (ws, k)
     else case child_insert i cap k of
       None \<Rightarrow> wire_installs i es ws k
     | Some k' \<Rightarrow> wire_installs i es (ws @ [take TASK_NAME_MAX label]) k')"

fun wire_peers ::
  "slot \<Rightarrow> bool \<Rightarrow> name_bytes list \<Rightarrow> name_bytes list \<Rightarrow> name_bytes list \<Rightarrow> Kernel \<Rightarrow> (name_bytes list \<times> Kernel) panics" where
  "wire_peers i grant provided [] ws k = Some (ws, k)"
| "wire_peers i grant provided (p # ps) ws k =
    (if length ws \<ge> MAX_SEND_PEERS then Some (ws, k)
     else if p \<in> set provided then wire_peers i grant provided ps ws k
     else case names_lookup (names_dir k) p of
       None \<Rightarrow> wire_peers i grant provided ps ws k
     | Some ep \<Rightarrow> do {
         (got, k') \<leftarrow> give_optional i ep (if grant then Rights_union SEND GRANT else SEND) k;
         wire_peers i grant provided ps (if got then ws @ [take TASK_NAME_MAX p] else ws) k'
       })"

text \<open>The names recorded as declared: those wired that are text, then every declared one, wired or not.\<close>

fun declare_rest :: "name_bytes list \<Rightarrow> name_bytes list \<Rightarrow> name_bytes list" where
  "declare_rest [] ns = ns"
| "declare_rest (p # ps) ns =
    (if length ns \<ge> MAX_SEND_PEERS then ns
     else if p = [] \<or> p \<in> set ns then declare_rest ps ns else declare_rest ps (ns @ [p]))"

definition spawn_mmio :: "Board \<Rightarrow> SpawnArgs \<Rightarrow> slot \<Rightarrow> EndpointId option \<Rightarrow> Kernel \<Rightarrow> unit spawns" where
  "spawn_mmio b a i own k =
    (let bar = mmio_bar b (sp_hw a);
         k1 = (if sp_hw a = Ehci \<and> bar \<noteq> 0 then emit [EhciHandoff] k else k) in
     if bar \<noteq> 0 then
       (if mmio_map_ok b then Some (Inr (), k1) else spawn_fail i (sp_name a) own SpawnMapFailed k1)
     else if sp_hw a = Framebuffer then
       (case fb_grant b of
          None \<Rightarrow> Some (Inr (), k1)
        | Some (phys, pages) \<Rightarrow>
           (let k2 = k1\<lparr>mem := snd (reserve_no_free phys pages (mem k1))\<rparr> in
            if mmio_map_ok b then Some (Inr (), emit [ReleaseScreen] k2)
            else spawn_fail i (sp_name a) own SpawnMapFailed k2))
     else Some (Inr (), k1))"

text \<open>The DMA arena: reserved at the device's first spawn, kept with its size, and never grown.\<close>

definition spawn_dma :: "Board \<Rightarrow> SpawnArgs \<Rightarrow> slot \<Rightarrow> EndpointId option \<Rightarrow> Kernel \<Rightarrow> unit spawns" where
  "spawn_dma b a i own k =
    (if \<not> needs_dma b (sp_hw a) then Some (Inr (), k)
     else if sp_dma a = 0 then spawn_fail i (sp_name a) own SpawnMapFailed k
     else
       (let cell = dma_phys_slot b (sp_hw a); word = dma_kept k cell; pages = unat (sp_dma a);
            bdf = device_bdf b (sp_hw a) in
        if word \<noteq> 0 \<and> pages > unat (word AND 0xFFF) then spawn_fail i (sp_name a) own SpawnMapFailed k
        else
          (let (arena, k1) =
             (if word \<noteq> 0 then (Some (unat (word AND NOT 0xFFF)), k)
              else (case alloc_dma_arena pages (mem k) of
                      (None, m) \<Rightarrow> (None, k\<lparr>mem := m\<rparr>)
                    | (Some phys, m) \<Rightarrow>
                       (Some phys, k\<lparr>mem := m, dma_kept := (dma_kept k)(cell := of_nat phys OR of_nat pages)\<rparr>))) in
           case arena of
             None \<Rightarrow> Some (Inr (), k1)
           | Some phys \<Rightarrow>
              if \<not> dma_map_ok b then spawn_fail i (sp_name a) own SpawnMapFailed k1
              else
                (let k2 = (if iommu_confine (sp_hw a) then emit [ConfineDevice bdf phys (pages * 4096)] k1 else k1);
                     k3 = k2\<lparr>sched := set_task_hw_bdf i (unat bdf) (sched k2)\<rparr> in
                 Some (Inr (), emit [SetPowerD0 bdf, SetBusMaster bdf] k3)))))"

text \<open>The last steps: the context page, the kernel stack, the budget, and the commit that makes the task runnable.\<close>

definition spawn_commit ::
  "Board \<Rightarrow> SpawnArgs \<Rightarrow> u64 \<Rightarrow> slot \<Rightarrow> EndpointId option \<Rightarrow> name_bytes list \<Rightarrow> Kernel \<Rightarrow> (EndpointId option) spawns" where
  "spawn_commit b a mapped i own wired k =
    (if \<not> ctx_frame_ok b then spawn_fail i (sp_name a) own NoMemory k
     else
       (let names = declare_rest (sp_peers a) (filter from_utf8 wired);
            k1 = k\<lparr>sched := set_task_peers i names (sched k)\<rparr> in
        if \<not> ctx_map_ok b then spawn_fail i (sp_name a) own SpawnMapFailed k1
        else case new_kstack b of
          None \<Rightarrow> spawn_fail i (sp_name a) own NoMemory k1
        | Some kstack \<Rightarrow>
           (let s = commit_task i (sp_name a) (new_cr3 b) True kstack own
                      (set_task_hw_kind i (kind_code (sp_hw a))
                        (set_task_watched i (sp_watched a)
                          (set_task_memory_budget i (sp_limit a) (mapped + 64 * 4096 + 4096) (sched k1)))) in
            Some (Inr own, k1\<lparr>sched := s\<rparr>))))"

definition spawn_build :: "Board \<Rightarrow> SpawnArgs \<Rightarrow> u64 \<Rightarrow> slot \<Rightarrow> EndpointId option \<Rightarrow> Kernel \<Rightarrow> (EndpointId option) spawns" where
  "spawn_build b a mapped i own k = do {
     (g, k1) \<leftarrow> give_all i (sp_name a) own (child_grants b a) k;
     (case g of
        Inl e \<Rightarrow> Some (Inl e, k1)
      | Inr _ \<Rightarrow>
         (let given = (case sp_installs a of Some es \<Rightarrow> es | None \<Rightarrow> []);
              (ws, k2) = wire_installs i given [] k1 in do {
            (wired, k3) \<leftarrow> wire_peers i (sp_peers_grant a) (map (take TASK_NAME_MAX \<circ> fst) given) (sp_peers a) ws k2;
            (m, k4) \<leftarrow> spawn_mmio b a i own k3;
            (case m of
               Inl e \<Rightarrow> Some (Inl e, k4)
             | Inr _ \<Rightarrow> do {
                 (d, k5) \<leftarrow> spawn_dma b a i own k4;
                 (case d of
                    Inl e \<Rightarrow> Some (Inl e, k5)
                  | Inr _ \<Rightarrow> spawn_commit b a mapped i own wired k5)
               })
          }))
   }"

definition spawn_service_with_image :: "Board \<Rightarrow> SpawnArgs \<Rightarrow> Kernel \<Rightarrow> (EndpointId option) spawns" where
  "spawn_service_with_image b a k =
    (case load_result b of
       Inl e \<Rightarrow> Some (Inl e, k)
     | Inr mapped \<Rightarrow>
        (case reserve_task_slot (sp_core a) (sched k) of
           None \<Rightarrow> Some (Inl NoMemory, k)
         | Some (i, s) \<Rightarrow>
            (let k0 = k\<lparr>sched := task_cap_init_empty i s\<rparr>;
                 base = (LOG_WRITE_RESOURCE, WRITE) #
                   (if p_spawn (privileges_of (sp_privs a) (sp_name a)) then [(SPAWN_RESOURCE, WRITE)] else []) in do {
               (g, k1) \<leftarrow> give_all i (sp_name a) None base k0;
               (case g of
                  Inl e \<Rightarrow> Some (Inl e, k1)
                | Inr _ \<Rightarrow> do {
                    (own, k2) \<leftarrow> spawn_endpoint a i k1;
                    (case own of
                       Inl e \<Rightarrow> Some (Inl e, k2)
                     | Inr ep \<Rightarrow> spawn_build b a mapped i ep k2)
                  })
             })))"

text \<open>The kernel's own spawn of the supervisor, at boot (a failure is a panic) and after its death (a failure is tried again).\<close>

definition supervisor_args :: SpawnArgs where
  "supervisor_args =
    \<lparr>sp_name = SUPERVISOR, sp_core = 0, sp_recv = True, sp_peers = [], sp_peers_grant = False,
     sp_limit = 64 * 1024 * 1024, sp_irqs = [], sp_console = False, sp_privs = None, sp_hw = HwNone, sp_dma = 0,
     sp_installs = None, sp_watched = False\<rparr>"

definition spawn_supervisor :: "Board \<Rightarrow> Kernel \<Rightarrow> Kernel panics" where
  "spawn_supervisor b k = do {
     (got, k1) \<leftarrow> spawn_service_with_image b supervisor_args k;
     (case got of Inr _ \<Rightarrow> Some k1 | Inl _ \<Rightarrow> None)
   }"

definition poll_supervisor_respawn :: "Board \<Rightarrow> Kernel \<Rightarrow> Kernel panics" where
  "poll_supervisor_respawn b k =
    (if \<not> respawn_flag k then Some k
     else do {
       (got, k1) \<leftarrow> spawn_service_with_image b supervisor_args (k\<lparr>respawn_flag := False\<rparr>);
       Some (case got of Inr _ \<Rightarrow> k1 | Inl _ \<Rightarrow> k1\<lparr>respawn_flag := True\<rparr>)
     })"

section \<open>Spawning from an image\<close>

record ImageArgs =
  im_name :: name_bytes
  im_override :: "u32 option"
  im_preferred :: u32
  im_limit :: u64
  im_recv :: bool
  im_console :: bool
  im_peers :: "name_bytes list"
  im_installs :: "(name_bytes \<times> Capability) list option"
  im_privs :: u32
  im_hw_class :: u32
  im_dma :: u32
  im_bdf :: u32
  im_peers_grant :: bool
  im_watched :: bool
  im_handover :: bool

definition name_taken :: "name_bytes \<Rightarrow> bool \<Rightarrow> Sched \<Rightarrow> bool" where
  "name_taken nm handover s =
    (case find_task_by_name s nm of
       None \<Rightarrow> False
     | Some first \<Rightarrow> \<not> (handover \<and> find_task_by_name_excluding s nm first = None))"

definition spawn_from_image :: "Board \<Rightarrow> ImageArgs \<Rightarrow> Kernel \<Rightarrow> (EndpointId option) spawns" where
  "spawn_from_image b a k =
    (if im_name a = SUPERVISOR then Some (Inl SpawnNotFound, k)
     else if name_taken (im_name a) (im_handover a) (sched k) then Some (Inl AlreadyRunning, k)
     else case resolve_spawn_core b (im_override a) (im_preferred a) k of
       (Inl e, k1) \<Rightarrow> Some (Inl e, k1)
     | (Inr core, k1) \<Rightarrow>
        (let limit = (if im_limit a = 0 then 64 * 1024 * 1024 else im_limit a);
             h = (if hw_class_is_pci (im_hw_class a) then hw_pci_of (im_hw_class a) (im_dma a) (im_bdf a)
                  else hw_class_of (im_hw_class a));
             (vec, k2) = (if hw_class_is_pci (im_hw_class a) \<and> im_hw_class a AND HW_PCI_IRQ \<noteq> 0
                          then pci_msi_vector b h (unat core) k1 else (0, k1));
             irqs = (if vec \<noteq> 0 then [vec] else hw_irqs_for b h);
             k3 = (if h = Ehci then emit [ProgramEhciMsi (unat core)] k2 else k2) in
         spawn_service_with_image b
           \<lparr>sp_name = im_name a, sp_core = unat core, sp_recv = im_recv a, sp_peers = im_peers a,
            sp_peers_grant = im_peers_grant a, sp_limit = limit, sp_irqs = irqs, sp_console = im_console a,
            sp_privs = Some (im_privs a), sp_hw = h, sp_dma = im_dma a, sp_installs = im_installs a,
            sp_watched = im_watched a\<rparr> k3))"

section \<open>The system call\<close>

record SpawnRequest =
  version :: u32
  rq_flags :: u32
  image_ptr :: u64
  image_len :: u64
  name_ptr :: u64
  name_len :: u32
  rq_core :: u32
  memory_limit :: u64
  privileges :: u32
  hw_flags :: u32
  mmio_base :: u64
  mmio_len :: u64
  dma_pages :: u32
  rq_bdf :: u32
  irq_count :: u32
  irqs :: "u8 list"
  peers_ptr :: u64
  peers_len :: u32
  installs_ptr :: u64
  installs_count :: u32
  probe_mode :: u32

definition SPAWN_REQUEST_BYTES :: nat where "SPAWN_REQUEST_BYTES = 128"
definition SPAWN_REQUEST_VERSION :: u32 where "SPAWN_REQUEST_VERSION = 3"
definition MAX_DMA_PAGES :: u32 where "MAX_DMA_PAGES = 2048"
definition SPAWN_PAYLOAD_MAX :: nat where "SPAWN_PAYLOAD_MAX = MAX_SEND_PEERS * (TASK_NAME_MAX + 1)"
definition SPAWN_ALREADY_RUNNING :: int where "SPAWN_ALREADY_RUNNING = - 22"

definition SpawnRequest_decode :: "u8 list \<Rightarrow> SpawnRequest" where
  "SpawnRequest_decode b =
    (let u32_at = (\<lambda>off. from_le_bytes (bytes_at off 4 b)); u64_at = (\<lambda>off. from_le_bytes (bytes_at off 8 b)) in
     \<lparr>version = u32_at 0, rq_flags = u32_at 4, image_ptr = u64_at 8, image_len = u64_at 16, name_ptr = u64_at 24,
      name_len = u32_at 32, rq_core = u32_at 36, memory_limit = u64_at 40, privileges = u32_at 48,
      hw_flags = u32_at 52, mmio_base = u64_at 56, mmio_len = u64_at 64, dma_pages = u32_at 72, rq_bdf = u32_at 76,
      irq_count = u32_at 80, irqs = bytes_at 84 4 b, peers_ptr = u64_at 88, peers_len = u32_at 96,
      installs_ptr = u64_at 104, installs_count = u32_at 112, probe_mode = u32_at 120\<rparr>)"

text \<open>\<open>split\<close> at a NUL byte.\<close>

fun split_nul :: "u8 list \<Rightarrow> u8 list list" where
  "split_nul [] = [[]]"
| "split_nul (c # cs) =
    (if c = 0 then [] # split_nul cs
     else case split_nul cs of [] \<Rightarrow> [[c]] | p # ps \<Rightarrow> (c # p) # ps)"

text \<open>The checks on the request before anything of it is fetched.\<close>

definition request_refused :: "nat \<Rightarrow> SpawnRequest \<Rightarrow> Kernel \<Rightarrow> bool" where
  "request_refused cid rq k \<longleftrightarrow>
    version rq \<noteq> SPAWN_REQUEST_VERSION \<or> irq_count rq \<noteq> 0 \<or> dma_pages rq > MAX_DMA_PAGES
    \<or> mmio_base rq \<noteq> 0 \<or> mmio_len rq \<noteq> 0 \<or> rq_bdf rq \<noteq> 0 \<and> \<not> hw_class_is_pci (hw_flags rq)
    \<or> \<not> hw_class_known (hw_flags rq)
    \<or> privileges rq \<noteq> 0 \<and> privileges_caller_lacks cid (privileges rq) k
    \<or> unat (name_len rq) = 0 \<or> unat (name_len rq) > TASK_NAME_MAX"

text \<open>The name is copied into a buffer of 64 bytes: a longer one is out of range of the slice, a panic.\<close>

definition request_name :: "Env \<Rightarrow> nat \<Rightarrow> SpawnRequest \<Rightarrow> Kernel \<Rightarrow> name_bytes option panics" where
  "request_name env cid rq k =
    (case read_user_bytes env cid k (name_ptr rq) (unat (name_len rq)) of
       None \<Rightarrow> Some None
     | Some b \<Rightarrow> if length b > 64 then None else Some (if from_utf8 b then Some b else None))"

definition request_peers :: "Env \<Rightarrow> nat \<Rightarrow> SpawnRequest \<Rightarrow> Kernel \<Rightarrow> name_bytes list option" where
  "request_peers env cid rq k =
    (let plen = unat (peers_len rq) in
     if plen = 0 then Some []
     else if plen > SPAWN_PAYLOAD_MAX then None
     else case read_user_bytes env cid k (peers_ptr rq) plen of
       None \<Rightarrow> None
     | Some b \<Rightarrow>
        if \<not> from_utf8 b then None
        else (let ps = filter (\<lambda>p. p \<noteq> []) (split_nul b) in if length ps > MAX_SEND_PEERS then None else Some ps))"

text \<open>The capabilities to install: a label and the caller's slot each, held with \<open>GRANT\<close>.\<close>

fun parse_installs :: "nat \<Rightarrow> nat \<Rightarrow> u8 list \<Rightarrow> Kernel \<Rightarrow> int + (name_bytes \<times> Capability) list" where
  "parse_installs cid 0 buf k = Inr []"
| "parse_installs cid (Suc n) [] k = Inl (- 1)"
| "parse_installs cid (Suc n) (l # buf) k =
    (let len = unat l in
     if len = 0 \<or> len > TASK_NAME_MAX \<or> len + 2 > length buf then Inl (- 1)
     else
       (case lookup_cap cid (unat (buf ! len) + 256 * unat (buf ! (len + 1))) GRANT k of
          Inl e \<Rightarrow> Inl (cap_err_to_i64 e)
        | Inr held \<Rightarrow>
           (case parse_installs cid n (drop (len + 2) buf) k of
              Inl e \<Rightarrow> Inl e
            | Inr es \<Rightarrow> Inr ((take len buf, held) # es))))"

definition request_installs :: "Env \<Rightarrow> nat \<Rightarrow> SpawnRequest \<Rightarrow> Kernel \<Rightarrow> int + (name_bytes \<times> Capability) list" where
  "request_installs env cid rq k =
    (let ni = unat (installs_count rq) in
     if ni > MAX_SEND_PEERS then Inl (- 1)
     else if ni = 0 then Inr []
     else case read_user_bytes env cid k (installs_ptr rq) (ni * (2 + TASK_NAME_MAX + 2)) of
       None \<Rightarrow> Inl (- 1)
     | Some b \<Rightarrow> parse_installs cid ni b k)"

definition image_args :: "SpawnRequest \<Rightarrow> name_bytes \<Rightarrow> name_bytes list \<Rightarrow> (name_bytes \<times> Capability) list \<Rightarrow> ImageArgs" where
  "image_args rq nm peers installs =
    (let strict = bit (rq_flags rq) 2 in
     \<lparr>im_name = nm, im_override = (if rq_core rq = - 1 \<or> \<not> strict then None else Some (rq_core rq)),
      im_preferred = (if rq_core rq = - 1 \<or> strict then - 1 else rq_core rq), im_limit = memory_limit rq,
      im_recv = bit (rq_flags rq) 0, im_console = bit (rq_flags rq) 1, im_peers = peers,
      im_installs = (if installs \<noteq> [] then Some installs else None), im_privs = privileges rq,
      im_hw_class = hw_flags rq, im_dma = dma_pages rq, im_bdf = rq_bdf rq, im_peers_grant = bit (rq_flags rq) 3,
      im_watched = bit (rq_flags rq) 4, im_handover = bit (rq_flags rq) 5\<rparr>)"

text \<open>What the spawn gave becomes the answer: the caller receives a capability to the new endpoint.\<close>

definition spawn_answer :: "nat \<Rightarrow> SpawnError + EndpointId option \<Rightarrow> Kernel \<Rightarrow> (Outcome \<times> Kernel) panics" where
  "spawn_answer cid got k =
    (case got of
       Inl e \<Rightarrow> ret (if e = AlreadyRunning then SPAWN_ALREADY_RUNNING else - 1) k
     | Inr None \<Rightarrow> ret 0 k
     | Inr (Some ep) \<Rightarrow> do {
         cap \<leftarrow> mint_cap (res k) ep (Rights_union SEND GRANT);
         (case insert_cap cid cap k of
            Inr (i, k1) \<Rightarrow> ret (int i + 1) k1
          | Inl e \<Rightarrow> ret (cap_err_to_i64 e) k)
       })"

definition handle_spawn_image ::
  "Env \<Rightarrow> Board \<Rightarrow> nat \<Rightarrow> u64 \<Rightarrow> u64 \<Rightarrow> u64 \<Rightarrow> Kernel \<Rightarrow> (Outcome \<times> Kernel) panics" where
  "handle_spawn_image env b cid req_ptr req_len spawn_cap_slot k =
    (case lookup_scoped cid (unat spawn_cap_slot) WRITE SPAWN_RESOURCE k of
       Inl e \<Rightarrow> ret (cap_err_to_i64 e) k
     | Inr _ \<Rightarrow>
        if \<not> holds cid IMAGE_SPAWN_RESOURCE WRITE k then ret (cap_err_to_i64 CapNotHeld) k
        else if unat req_len \<noteq> SPAWN_REQUEST_BYTES then ret (- 1) k
        else case read_user_bytes env cid k req_ptr (unat req_len) of
          None \<Rightarrow> ret (- 1) k
        | Some raw \<Rightarrow>
           (let rq = SpawnRequest_decode raw in
            if request_refused cid rq k then ret (- 1) k
            else do {
              nm \<leftarrow> request_name env cid rq k;
              (case nm of
                 None \<Rightarrow> ret (- 1) k
               | Some nb \<Rightarrow>
              (case request_peers env cid rq k of
                 None \<Rightarrow> ret (- 1) k
               | Some peers \<Rightarrow>
                  if image_len rq = 0 \<or> image_len rq > 0xFFFFFFFF then ret (- 1) k
                  else (case request_installs env cid rq k of
                     Inl e \<Rightarrow> ret e k
                   | Inr installs \<Rightarrow> do {
                       (got, k1) \<leftarrow> spawn_from_image b (image_args rq nb peers installs) k;
                       spawn_answer cid got k1
                     })))
            }))"

end
