(* ===== verification/Dispatch.thy ===== *)
theory Dispatch
  imports Spawn
begin

text \<open>
  The system-call numbers and the dispatcher (\<open>kernel/src/syscall/dispatch.rs\<close>, \<open>SyscallNumber\<close> and \<open>syscall_handler\<close>): the one
  entry every port's trap path calls. A number the kernel does not know is answered with \<open>-1\<close>.
\<close>

datatype SyscallNumber =
    Send | Recv | TrySend | Yield | Log | AllocMem | KillTask | AcquireSendCap | SendWithCap | TakePendingCap
  | InspectKernel | QueryCapRights | RemoveCap | TaskStat | ConsoleRead | Reboot | ConsolePush | Park | Print
  | ConsoleWrite | TryConsoleRead | ConsoleEcho | ConsoleBootComplete | SignalInputReady | TaskCaps | DeriveCap
  | ResourceMint | ResourceInvoke | ResourceRevoke | LastRecvBadge | TryRecv | RecvTimeout | IrqUnmask | SleepTask
  | ConsoleForeground | Call | NetFrameTx | NetFrameRx | NetInfo | Gpio | UsbDiskInfo | UsbDiskRead | UsbDiskWrite
  | UsbDiskFlush | CallDeadline | FireIrq | SpawnImage | PciCfgRead | DevicePower | CpuClock | PowerOff | ExitTask

definition syscall_numbers :: "(u64 \<times> SyscallNumber) list" where
  "syscall_numbers =
    [(1, Send), (2, Recv), (3, TrySend), (4, Yield), (5, Log), (6, AllocMem), (8, KillTask), (10, AcquireSendCap),
     (11, SendWithCap), (12, TakePendingCap), (13, InspectKernel), (14, QueryCapRights), (15, RemoveCap), (16, TaskStat),
     (17, ConsoleRead), (18, Reboot), (20, ConsolePush), (21, Park), (22, Print), (23, ConsoleWrite), (24, TryConsoleRead),
     (25, ConsoleEcho), (26, ConsoleBootComplete), (27, SignalInputReady), (28, TaskCaps), (29, DeriveCap),
     (30, ResourceMint), (31, ResourceInvoke), (32, ResourceRevoke), (33, LastRecvBadge), (34, TryRecv), (35, RecvTimeout),
     (36, IrqUnmask), (37, SleepTask), (40, ConsoleForeground), (41, Call), (42, NetFrameTx), (43, NetFrameRx),
     (44, NetInfo), (45, Gpio), (46, UsbDiskInfo), (47, UsbDiskRead), (48, UsbDiskWrite), (49, UsbDiskFlush),
     (50, CallDeadline), (51, FireIrq), (52, SpawnImage), (53, PciCfgRead), (54, DevicePower), (55, CpuClock),
     (56, PowerOff), (57, ExitTask)]"

definition handle_park :: "nat \<Rightarrow> Kernel \<Rightarrow> (Outcome \<times> Kernel) panics" where
  "handle_park cid k = do {
     (r, s) \<leftarrow> park_current cid (sched k);
     Some (case r of Some v \<Rightarrow> Return v | None \<Rightarrow> Blocked, k\<lparr>sched := s\<rparr>)
   }"

definition dispatch ::
  "Env \<Rightarrow> Board \<Rightarrow> nat \<Rightarrow> SyscallNumber \<Rightarrow> u64 \<Rightarrow> u64 \<Rightarrow> u64 \<Rightarrow> Kernel \<Rightarrow> (Outcome \<times> Kernel) panics" where
  "dispatch env b cid n a0 a1 a2 k = (case n of
     Send \<Rightarrow> handle_send env cid a0 a1 a2 k
   | Recv \<Rightarrow> handle_recv cid a0 a1 a2 k
   | TryRecv \<Rightarrow> handle_try_recv cid a0 a1 a2 k
   | RecvTimeout \<Rightarrow> handle_recv_timeout env cid a0 a1 a2 k
   | IrqUnmask \<Rightarrow> handle_irq_unmask cid a0 k
   | SleepTask \<Rightarrow> handle_sleep env cid a0 k
   | TrySend \<Rightarrow> handle_try_send env cid a0 a1 a2 k
   | Call \<Rightarrow> handle_call env cid a0 a1 a2 k
   | CallDeadline \<Rightarrow> handle_call_deadline env cid a0 a1 a2 k
   | NetFrameTx \<Rightarrow> handle_net_frame_tx env cid a0 a1 k
   | NetFrameRx \<Rightarrow> handle_net_frame_rx env cid a0 a1 k
   | NetInfo \<Rightarrow> handle_net_info env cid a0 k
   | FireIrq \<Rightarrow> handle_fire_irq cid a0 k
   | Gpio \<Rightarrow> handle_gpio env cid a0 a1 k
   | UsbDiskInfo \<Rightarrow> handle_usb_disk_info env cid k
   | UsbDiskRead \<Rightarrow> handle_usb_disk_read env cid a0 a1 k
   | UsbDiskWrite \<Rightarrow> handle_usb_disk_write env cid a0 a1 k
   | UsbDiskFlush \<Rightarrow> handle_usb_disk_flush env cid k
   | Yield \<Rightarrow> ret 0 (yield cid k)
   | Log \<Rightarrow> handle_log env cid a0 a1 a2 k
   | AllocMem \<Rightarrow> handle_alloc_mem env cid a0 k
   | SpawnImage \<Rightarrow> handle_spawn_image env b cid a0 a1 a2 k
   | KillTask \<Rightarrow> handle_kill env cid a0 a1 k
   | AcquireSendCap \<Rightarrow> handle_acquire_send_cap env cid a0 a1 a2 k
   | DeriveCap \<Rightarrow> handle_derive_cap cid a0 k
   | SendWithCap \<Rightarrow> handle_send_with_cap env cid a0 a1 a2 k
   | TakePendingCap \<Rightarrow> handle_take_pending_cap cid k
   | InspectKernel \<Rightarrow> handle_inspect_kernel env cid a0 a1 a2 k
   | QueryCapRights \<Rightarrow> handle_query_cap_rights cid a0 k
   | RemoveCap \<Rightarrow> handle_remove_cap cid a0 k
   | TaskStat \<Rightarrow> handle_task_stat env cid a0 a1 a2 k
   | ConsoleRead \<Rightarrow> handle_console_read env cid a0 k
   | Reboot \<Rightarrow> handle_reboot cid k
   | ConsolePush \<Rightarrow> handle_console_push cid a0 a1 k
   | Park \<Rightarrow> handle_park cid k
   | Print \<Rightarrow> handle_print env cid a0 a1 a2 k
   | ConsoleWrite \<Rightarrow> handle_console_write env cid a0 a1 a2 k
   | TryConsoleRead \<Rightarrow> handle_try_console_read env cid a0 k
   | ConsoleEcho \<Rightarrow> handle_console_echo cid a0 a1 k
   | ConsoleForeground \<Rightarrow> handle_console_foreground cid a0 a1 k
   | ConsoleBootComplete \<Rightarrow> handle_console_boot_complete cid a0 k
   | SignalInputReady \<Rightarrow> handle_signal_input_ready cid a0 k
   | TaskCaps \<Rightarrow> handle_task_caps cid a0 a1 a2 k
   | ResourceMint \<Rightarrow> handle_resource_mint cid a0 a1 k
   | ResourceInvoke \<Rightarrow> handle_resource_invoke env cid a0 a1 a2 k
   | ResourceRevoke \<Rightarrow> handle_resource_revoke cid a0 k
   | LastRecvBadge \<Rightarrow> handle_last_recv_badge cid k
   | PciCfgRead \<Rightarrow> handle_pci_cfg_read env cid a0 a1 k
   | DevicePower \<Rightarrow> handle_device_power env cid a0 k
   | CpuClock \<Rightarrow> handle_cpu_clock env cid a0 k
   | PowerOff \<Rightarrow> handle_power_off cid a0 a1 k
   | ExitTask \<Rightarrow> handle_exit env cid a0 k)"

definition syscall_handler ::
  "Env \<Rightarrow> Board \<Rightarrow> nat \<Rightarrow> u64 \<Rightarrow> u64 \<Rightarrow> u64 \<Rightarrow> u64 \<Rightarrow> Kernel \<Rightarrow> (Outcome \<times> Kernel) panics" where
  "syscall_handler env b cid number a0 a1 a2 k =
    (case map_of syscall_numbers number of
       None \<Rightarrow> ret (- 1) k
     | Some n \<Rightarrow> dispatch env b cid n a0 a1 a2 k)"

end
