(* ===== verification/Routing_Props.thy ===== *)
theory Routing_Props
  imports Routing
begin

text \<open>
  The routing table's invariant and the properties of its operations: the table never holds
  two entries of one identifier, a sender is recorded as blocked exactly when its message is
  kept and the queue is full, so a freed slot always takes that message; the outcomes of
  sending, receiving and calling; and the effect of an endpoint's death.
\<close>

section \<open>Invariant\<close>

definition entry_wf :: "RoutingEntry \<Rightarrow> bool" where
  "entry_wf e \<longleftrightarrow> MessageQueue_wf (re_queue e)
     \<and> (blocked_sender e = None \<longleftrightarrow> pending_send e = None)
     \<and> (blocked_sender e \<noteq> None \<longrightarrow> is_full (re_queue e))"

definition table_wf :: "rtable \<Rightarrow> bool" where
  "table_wf t \<longleftrightarrow> length t = MAX_ENDPOINTS \<and> (\<forall>i<length t. entry_wf (t ! i))
     \<and> (\<forall>i<length t. \<forall>j<length t. re_valid (t ! i) \<longrightarrow> re_valid (t ! j) \<longrightarrow>
          re_id (t ! i) = re_id (t ! j) \<longrightarrow> i = j)"

definition routing_wf :: "Routing \<Rightarrow> bool" where
  "routing_wf r \<longleftrightarrow> table_wf (table r)"

lemma entry_wf_queue [simp]: "entry_wf e \<Longrightarrow> MessageQueue_wf (re_queue e)"
  by (simp add: entry_wf_def)

lemma RoutingEntry_empty_wf [simp]: "entry_wf RoutingEntry_empty"
  by (simp add: entry_wf_def RoutingEntry_empty_def)

lemma Routing_init_wf: "routing_wf Routing_init"
  by (simp add: routing_wf_def table_wf_def Routing_init_def RoutingEntry_empty_def)
    (simp flip: RoutingEntry_empty_def)

lemma table_wf_update:
  assumes "table_wf t" "entry_wf e" "re_valid e = re_valid (t ! i)" "re_id e = re_id (t ! i)"
  shows "table_wf (t[i := e])"
proof -
  have "re_valid (t[i := e] ! j) = re_valid (t ! j)" "re_id (t[i := e] ! j) = re_id (t ! j)" for j
    using assms(3,4) by (simp_all add: nth_update_cases)
  moreover have "entry_wf (t[i := e] ! j)" if "j < length t" for j
    using assms(1,2) that by (auto simp: nth_update_cases table_wf_def)
  ultimately show ?thesis using assms(1) unfolding table_wf_def by simp
qed

lemma find_index_SomeD:
  assumes "find_index t ep = Some i"
  shows "i < length t" "re_valid (t ! i)" "re_id (t ! i) = ep"
  using find_idx_SomeD [of _ t i] assms by (auto simp: find_index_def)

lemma find_index_iff:
  assumes "table_wf t"
  shows "find_index t ep = Some i \<longleftrightarrow> i < length t \<and> re_valid (t ! i) \<and> re_id (t ! i) = ep"
  using assms unfolding find_index_def find_idx_Some table_wf_def
  by (metis less_irrefl order.strict_trans)

lemma find_index_None:
  "find_index t ep = None \<longleftrightarrow> (\<forall>i<length t. \<not> (re_valid (t ! i) \<and> re_id (t ! i) = ep))"
  by (simp add: find_index_def find_idx_None all_set_conv_all_nth)

lemma find_index_update:
  assumes "re_valid e = re_valid (t ! i)" "re_id e = re_id (t ! i)"
  shows "find_index (t[i := e]) ep = find_index t ep"
proof -
  have "(re_valid (t[i := e] ! j) \<and> re_id (t[i := e] ! j) = ep) =
      (re_valid (t ! j) \<and> re_id (t ! j) = ep)" for j
    using assms by (simp add: nth_update_cases)
  then show ?thesis unfolding find_index_def
    by (intro option_ext) (simp add: find_idx_Some)
qed

section \<open>Preservation\<close>

lemma record_sender_simps [simp]:
  "re_valid (record_sender who msg e) = re_valid e" "re_id (record_sender who msg e) = re_id e"
  "re_queue (record_sender who msg e) = re_queue e" "re_live (record_sender who msg e) = re_live e"
  "re_gen (record_sender who msg e) = re_gen e"
  "blocked_receiver (record_sender who msg e) = blocked_receiver e"
  by (simp_all add: record_sender_def split: option.split)

lemma enqueue_Inl_full: "enqueue m q = Inl m' \<Longrightarrow> is_full q \<and> m' = m"
  by (auto simp: enqueue_def Let_def split: if_splits)

lemma enqueue_Inr_notfull: "enqueue m q = Inr q' \<Longrightarrow> \<not> is_full q"
  by (auto simp: enqueue_def split: if_splits)

lemma deliver_entry_frame [frame_rules]:
  "re_valid (snd (deliver_entry msg s e)) = re_valid e"
  "re_id (snd (deliver_entry msg s e)) = re_id e"
  "re_live (snd (deliver_entry msg s e)) = re_live e"
  "re_gen (snd (deliver_entry msg s e)) = re_gen e"
  by (simp_all add: deliver_entry_def split: option.split sum.split)

lemma record_sender_wf: "entry_wf e \<Longrightarrow> is_full (re_queue e) \<Longrightarrow> entry_wf (record_sender who msg e)"
  by (auto simp: entry_wf_def record_sender_def split: option.split)

lemma deliver_entry_wf [inv_rules]:
  assumes "entry_wf e"
  shows "entry_wf (snd (deliver_entry msg s e))"
proof (cases "enqueue msg (re_queue e)")
  case (Inl m')
  then have "is_full (re_queue e)" using enqueue_Inl_full by blast
  then show ?thesis using Inl assms record_sender_wf
    by (simp add: deliver_entry_def split: option.split)
next
  case (Inr q)
  have "MessageQueue_wf q" using msg_queue.enq_Inr [OF _ Inr] assms by simp
  moreover have "blocked_sender e = None" "pending_send e = None"
    using enqueue_Inr_notfull [OF Inr] assms by (auto simp: entry_wf_def)
  ultimately show ?thesis using Inr by (simp add: deliver_entry_def entry_wf_def split: option.split)
qed

lemma promote_sender_frame [frame_rules]:
  "re_valid (snd (promote_sender e)) = re_valid e" "re_id (snd (promote_sender e)) = re_id e"
  "re_live (snd (promote_sender e)) = re_live e" "re_gen (snd (promote_sender e)) = re_gen e"
  "blocked_receiver (snd (promote_sender e)) = blocked_receiver e"
  "blocked_sender (snd (promote_sender e)) = None"
  by (simp_all add: promote_sender_def split: option.split)

text \<open>After a message was taken from the queue the promoted message fits.\<close>

lemma promote_sender_spec:
  assumes "MessageQueue_wf q" "blocked_sender e = None \<longleftrightarrow> pending_send e = None"
    "\<not> is_full q"
  shows "entry_wf (snd (promote_sender (e\<lparr>re_queue := q\<rparr>)))
    \<and> fst (promote_sender (e\<lparr>re_queue := q\<rparr>)) = blocked_sender e
    \<and> queue_list (re_queue (snd (promote_sender (e\<lparr>re_queue := q\<rparr>)))) =
        queue_list q @ (case pending_send e of Some m \<Rightarrow> [m] | None \<Rightarrow> [])"
proof (cases "blocked_sender e")
  case None
  then show ?thesis using assms by (simp add: promote_sender_def entry_wf_def)
next
  case (Some s)
  then obtain m where m: "pending_send e = Some m" using assms(2) by fastforce
  have "q_len q < QUEUE_DEPTH" using assms(1,3) by (auto simp: MessageQueue_wf_def is_full_def)
  then obtain q' where "enqueue m q = Inr q'" "MessageQueue_wf q'" "queue_list q' = queue_list q @ [m]"
    using enqueue_room [OF assms(1)] by blast
  then show ?thesis using Some m by (simp add: promote_sender_def entry_wf_def)
qed

lemma taken_not_full: "MessageQueue_wf q \<Longrightarrow> q_len q' < q_len q \<Longrightarrow> \<not> is_full q'"
  by (auto simp: MessageQueue_wf_def is_full_def)

lemma routing_wf_entry: "routing_wf r \<Longrightarrow> i < length (table r) \<Longrightarrow> entry_wf (table r ! i)"
  by (simp add: routing_wf_def table_wf_def)

lemma routing_wf_set_entry:
  assumes "routing_wf r" "entry_wf e" "re_valid e = re_valid (table r ! i)" "re_id e = re_id (table r ! i)"
  shows "routing_wf (r\<lparr>table := (table r)[i := e]\<rparr>)"
  using table_wf_update [OF _ assms(2-4)] assms(1) by (simp add: routing_wf_def)

text \<open>The three senders differ in their checks only: each hands the entry to \<open>deliver_entry\<close>.\<close>

lemma deliver_wf:
  assumes "routing_wf r" "find_index (table r) ep = Some i"
  shows "routing_wf (r\<lparr>table := (table r)[i := snd (deliver_entry msg s (table r ! i))]\<rparr>)"
  using assms find_index_SomeD(1) [OF assms(2)]
  by (intro routing_wf_set_entry) (auto simp: frame_rules intro: inv_rules routing_wf_entry)

lemma routing_enqueue_wf [inv_rules]:
  "routing_wf r \<Longrightarrow> routing_wf (snd (routing_enqueue ep msg g s r))"
  by (simp add: routing_enqueue_def case_prod_beta deliver_wf split: option.split sum.split)

lemma enqueue_from_kernel_blocking_wf [inv_rules]:
  "routing_wf r \<Longrightarrow> routing_wf (snd (enqueue_from_kernel_blocking ep msg s r))"
  by (simp add: enqueue_from_kernel_blocking_def case_prod_beta deliver_wf split: option.split)

lemma enqueue_from_interrupt_state:
  "snd (enqueue_from_interrupt ep msg r) =
    (case find_index (table r) ep of
       None \<Rightarrow> r
     | Some i \<Rightarrow> if re_live (table r ! i) = EpDead then r
         else r\<lparr>table := (table r)[i := snd (deliver_entry msg None (table r ! i))]\<rparr>)"
  by (simp add: enqueue_from_interrupt_def Let_def case_prod_beta split: option.split sum.split)

lemma enqueue_from_interrupt_wf [inv_rules]:
  "routing_wf r \<Longrightarrow> routing_wf (snd (enqueue_from_interrupt ep msg r))"
  by (simp add: enqueue_from_interrupt_state deliver_wf split: option.split)

text \<open>What \<open>dequeue\<close> does to the queue of a live entry.\<close>

lemma dequeue_cases:
  assumes "MessageQueue_wf q"
  obtains (empty) "dequeue q = (None, q)" "queue_list q = []"
  | (msg) m q' where "dequeue q = (Some m, q')" "MessageQueue_wf q'" "queue_list q = m # queue_list q'"
      "\<not> is_full q'"
proof (cases "queue_list q")
  case Nil
  then show ?thesis using msg_queue.deq_empty [OF assms] that by blast
next
  case (Cons m ms)
  then obtain q' where q': "dequeue q = (Some m, q')" "MessageQueue_wf q'" "queue_list q' = ms"
    using msg_queue.deq_cons [OF assms] by blast
  then have "q_len q' < q_len q" using Cons by (metis length_Cons length_queue_list lessI)
  then show ?thesis using that q' Cons taken_not_full [OF assms] by blast
qed

lemma routing_dequeue_spec:
  assumes wf: "routing_wf r" and i: "find_index (table r) ep = Some i"
    and live: "check_live (table r ! i) g = Inr ()"
  shows "case queue_list (re_queue (table r ! i)) of
      [] \<Rightarrow> routing_dequeue ep g rx r = (Inl QueueEmpty, r\<lparr>table := (table r)[i :=
               (case rx of Some s \<Rightarrow> (table r ! i)\<lparr>blocked_receiver := Some s\<rparr> | None \<Rightarrow> table r ! i)]\<rparr>)
    | m # ms \<Rightarrow> \<exists>e'. routing_dequeue ep g rx r =
          (Inr (m, blocked_sender (table r ! i)), r\<lparr>table := (table r)[i := e']\<rparr>)
        \<and> entry_wf e' \<and> re_valid e' = re_valid (table r ! i) \<and> re_id e' = re_id (table r ! i)
        \<and> blocked_sender e' = None
        \<and> queue_list (re_queue e') = ms @
            (case pending_send (table r ! i) of Some p \<Rightarrow> [p] | None \<Rightarrow> [])"
proof -
  let ?e = "table r ! i"
  have e: "entry_wf ?e" using routing_wf_entry [OF wf] find_index_SomeD(1) [OF i] .
  from entry_wf_queue [OF e] show ?thesis
  proof (cases rule: dequeue_cases)
    case empty
    then show ?thesis using i live
      by (cases rx) (simp_all add: routing_dequeue_def Let_def)
  next
    case (msg m q')
    let ?p = "promote_sender (?e\<lparr>re_queue := q'\<rparr>)"
    have "routing_dequeue ep g rx r = (Inr (m, fst ?p), r\<lparr>table := (table r)[i := snd ?p]\<rparr>)"
      using i live msg(1) by (simp add: routing_dequeue_def Let_def case_prod_beta)
    then show ?thesis
      using promote_sender_spec [OF msg(2) _ msg(4), of ?e] e msg(3)
      by (auto simp: entry_wf_def frame_rules intro!: exI [of _ "snd ?p"])
  qed
qed

lemma check_live_cases:
  "check_live e g = Inr () \<and> re_live e = EpAlive \<and> g = re_gen e \<or>
   check_live e g = Inl IpcEndpointDead \<and> (re_live e = EpDead \<or> g \<noteq> re_gen e)"
  by (cases "re_live e") (auto simp: check_live_def)

lemma check_live_dead: "re_live e = EpDead \<or> g \<noteq> re_gen e \<Longrightarrow> check_live e g = Inl IpcEndpointDead"
  by (auto simp: check_live_def)

lemma check_live_ok: "\<not> (re_live e = EpDead \<or> g \<noteq> re_gen e) \<Longrightarrow> check_live e g = Inr ()"
  by (simp add: check_live_def)

lemma routing_dequeue_wf [inv_rules]:
  assumes "routing_wf r"
  shows "routing_wf (snd (routing_dequeue ep g rx r))"
proof (cases "find_index (table r) ep")
  case None
  then show ?thesis using assms by (simp add: routing_dequeue_def)
next
  case (Some i)
  have e: "entry_wf (table r ! i)" using routing_wf_entry [OF assms] find_index_SomeD(1) [OF Some] .
  from check_live_cases [of "table r ! i" g] show ?thesis
  proof
    assume "check_live (table r ! i) g = Inr () \<and> re_live (table r ! i) = EpAlive \<and> g = re_gen (table r ! i)"
    then have live: "check_live (table r ! i) g = Inr ()" by blast
    show ?thesis
    proof (cases "queue_list (re_queue (table r ! i))")
      case Nil
      then show ?thesis
        using routing_dequeue_spec [OF assms Some live, of rx] e assms
        by (cases rx) (auto intro!: routing_wf_set_entry simp: entry_wf_def)
    next
      case (Cons m ms)
      then show ?thesis
        using routing_dequeue_spec [OF assms Some live, of rx] routing_wf_set_entry [OF assms]
        by auto
    qed
  qed (use Some assms in \<open>simp add: routing_dequeue_def\<close>)
qed

lemma dequeue_matching_cases:
  assumes "MessageQueue_wf q"
  obtains (none) "dequeue_matching ep q = (None, q)" "\<forall>m\<in>set (queue_list q). sender_ep m \<noteq> ep"
  | (reply) m q' xs ys where "dequeue_matching ep q = (Some m, q')" "MessageQueue_wf q'"
      "sender_ep m = ep" "queue_list q = xs @ m # ys" "queue_list q' = xs @ ys"
      "\<forall>x\<in>set xs. sender_ep x \<noteq> ep" "\<not> is_full q'"
proof -
  obtain res q' where d: "dequeue_matching ep q = (res, q')" by fastforce
  have ref: "MessageQueue_wf q'" "extract_first (\<lambda>m. sender_ep m = ep) (queue_list q) = (res, queue_list q')"
    using dequeue_matching_refines [OF assms, of ep] d by simp_all
  show ?thesis
  proof (cases res)
    case None
    have "\<forall>m\<in>set (queue_list q). sender_ep m \<noteq> ep"
      using extract_first_split [OF ref(2)] None by simp
    moreover have "q' = q"
      using dequeue_matching_None [OF assms] d None by simp
    ultimately show ?thesis using that(1) d None by simp
  next
    case (Some m)
    then obtain xs ys where x: "sender_ep m = ep" "queue_list q = xs @ m # ys"
      "queue_list q' = xs @ ys" "\<forall>x\<in>set xs. sender_ep x \<noteq> ep"
      using extract_first_split [OF ref(2)] by auto
    have "length (queue_list q') < length (queue_list q)" using x by simp
    then have "q_len q' < q_len q" by simp
    then show ?thesis using that(2) [OF _ ref(1) x] d Some taken_not_full [OF assms] by simp
  qed
qed

lemma dequeue_reply_spec:
  assumes wf: "routing_wf r" and i: "find_index (table r) ep = Some i"
    and live: "check_live (table r ! i) g = Inr ()"
  shows "(\<forall>m\<in>set (queue_list (re_queue (table r ! i))). sender_ep m \<noteq> target)
        \<and> dequeue_reply ep g target r = (Inl QueueEmpty, r)
    \<or> (\<exists>xs m ys e'. queue_list (re_queue (table r ! i)) = xs @ m # ys \<and> sender_ep m = target
        \<and> (\<forall>x\<in>set xs. sender_ep x \<noteq> target)
        \<and> dequeue_reply ep g target r =
            (Inr (m, blocked_sender (table r ! i)), r\<lparr>table := (table r)[i := e']\<rparr>)
        \<and> entry_wf e' \<and> re_valid e' = re_valid (table r ! i) \<and> re_id e' = re_id (table r ! i)
        \<and> queue_list (re_queue e') = xs @ ys @
            (case pending_send (table r ! i) of Some p \<Rightarrow> [p] | None \<Rightarrow> []))"
proof -
  let ?e = "table r ! i"
  have e: "entry_wf ?e" using routing_wf_entry [OF wf] find_index_SomeD(1) [OF i] .
  from entry_wf_queue [OF e] show ?thesis
  proof (cases rule: dequeue_matching_cases [of _ target])
    case none
    have "?e\<lparr>re_queue := re_queue ?e\<rparr> = ?e" by simp
    then show ?thesis using none i live by (simp add: dequeue_reply_def Let_def)
  next
    case (reply m q' xs ys)
    let ?p = "promote_sender (?e\<lparr>re_queue := q'\<rparr>)"
    have "dequeue_reply ep g target r = (Inr (m, fst ?p), r\<lparr>table := (table r)[i := snd ?p]\<rparr>)"
      using i live reply(1) by (simp add: dequeue_reply_def Let_def case_prod_beta)
    then have "dequeue_reply ep g target r =
          (Inr (m, blocked_sender ?e), r\<lparr>table := (table r)[i := snd ?p]\<rparr>)
        \<and> entry_wf (snd ?p) \<and> re_valid (snd ?p) = re_valid ?e \<and> re_id (snd ?p) = re_id ?e
        \<and> queue_list (re_queue (snd ?p)) = xs @ ys @
            (case pending_send ?e of Some p \<Rightarrow> [p] | None \<Rightarrow> [])"
      using promote_sender_spec [OF reply(2) _ reply(7), of ?e] e reply(5)
      by (simp add: entry_wf_def frame_rules)
    then show ?thesis using reply by blast
  qed
qed

lemma dequeue_reply_dead:
  assumes "find_index (table r) ep = None \<or>
    (\<exists>i. find_index (table r) ep = Some i \<and> check_live (table r ! i) g \<noteq> Inr ())"
  shows "dequeue_reply ep g target r = (Inl IpcEndpointDead, r)"
  using assms check_live_cases by (fastforce simp: dequeue_reply_def)

lemma dequeue_reply_wf [inv_rules]:
  assumes "routing_wf r"
  shows "routing_wf (snd (dequeue_reply ep g target r))"
proof (cases "\<exists>i. find_index (table r) ep = Some i \<and> check_live (table r ! i) g = Inr ()")
  case True
  then obtain i where "find_index (table r) ep = Some i" "check_live (table r ! i) g = Inr ()" by blast
  then show ?thesis
    using dequeue_reply_spec [OF assms, of ep i g target] routing_wf_set_entry [OF assms] assms by auto
next
  case False
  then show ?thesis using dequeue_reply_dead [of r ep g target] assms
    by (cases "find_index (table r) ep") auto
qed

lemma call_await_wf [simp]:
  "routing_wf (clear_call_await s r) = routing_wf r"
  "routing_wf (set_call_await s ep r) = routing_wf r"
  "table (clear_call_await s r) = table r" "table (set_call_await s ep r) = table r"
  by (simp_all add: clear_call_await_def set_call_await_def routing_wf_def)

lemma entry_wf_receiver [simp]: "entry_wf (e\<lparr>blocked_receiver := rx\<rparr>) = entry_wf e"
  by (simp add: entry_wf_def)

lemma block_receiver_wf:
  assumes "routing_wf r" "find_index (table r) ep = Some j"
  shows "routing_wf (r\<lparr>table := (table r)[j := (table r ! j)\<lparr>blocked_receiver := rx\<rparr>]\<rparr>)"
  using assms find_index_SomeD(1) [OF assms(2)] routing_wf_entry [OF assms(1)]
  by (intro routing_wf_set_entry) simp_all

lemma call_dequeue_wf [inv_rules]:
  assumes "routing_wf r"
  shows "routing_wf (snd (call_dequeue ep g target caller r))"
proof -
  obtain res r1 where d: "dequeue_reply ep g target r = (res, r1)" by fastforce
  then have "routing_wf r1" using dequeue_reply_wf [OF assms, of ep g target] by simp
  then show ?thesis using d block_receiver_wf
    by (simp add: call_dequeue_def Let_def split: sum.split option.split)
qed

lemma take_call_waiter_wf [inv_rules]: "routing_wf r \<Longrightarrow> routing_wf (snd (take_call_waiter ep r))"
  by (simp add: take_call_waiter_def routing_wf_def split: option.split)

lemma kill_endpoint_wf [inv_rules]:
  assumes "routing_wf r" "kill_endpoint ep r = Some (w, r')"
  shows "routing_wf r'"
proof (cases "find_index (table r) ep")
  case None
  then show ?thesis using assms by (simp add: kill_endpoint_def)
next
  case (Some i)
  have "entry_wf (table r ! i)" using routing_wf_entry [OF assms(1)] find_index_SomeD(1) [OF Some] .
  then have "entry_wf ((table r ! i)\<lparr>re_live := EpDead, re_gen := g, re_queue := drain (re_queue (table r ! i)),
      blocked_receiver := None, blocked_sender := None, pending_send := None\<rparr>)" for g
    using drain_spec by (simp add: entry_wf_def)
  then have "table_wf ((table r)[i := (table r ! i)\<lparr>re_live := EpDead, re_gen := g,
      re_queue := drain (re_queue (table r ! i)), blocked_receiver := None, blocked_sender := None,
      pending_send := None\<rparr>])" for g
    using assms(1) by (intro table_wf_update) (simp_all add: routing_wf_def)
  then show ?thesis using assms(2) Some
    by (auto simp: kill_endpoint_def Let_def routing_wf_def split: Option.bind_splits)
qed

lemma register_slot_wf:
  assumes "table_wf t" "register_slot t ep = Some i"
  shows "i < length t" "table_wf (t[i := fresh_entry ep core g (t ! i)])"
proof -
  show i: "i < length t"
    using assms(2) by (auto simp: register_slot_def dest: find_idx_SomeD split: option.splits)
  have e: "entry_wf (fresh_entry ep core g (t ! i))"
    using assms(1) i by (auto simp: fresh_entry_def entry_wf_def table_wf_def)
  have uniq: "re_id (t ! j) \<noteq> ep" if "j < length t" "j \<noteq> i" "re_valid (t ! j)" for j
  proof (cases "find_idx (\<lambda>e. re_valid e \<and> re_id e = ep) t")
    case None
    then show ?thesis using that by (simp add: find_idx_None all_set_conv_all_nth)
  next
    case (Some k)
    then have "k = i" using assms(2) by (simp add: register_slot_def)
    then show ?thesis using that assms(1) i find_idx_SomeD(2) [OF Some] unfolding table_wf_def by auto
  qed
  have "a = b" if "a < length t" "b < length t"
    "re_valid (t[i := fresh_entry ep core g (t ! i)] ! a)" "re_valid (t[i := fresh_entry ep core g (t ! i)] ! b)"
    "re_id (t[i := fresh_entry ep core g (t ! i)] ! a) = re_id (t[i := fresh_entry ep core g (t ! i)] ! b)"
    for a b
    using that assms(1) i uniq [of a] uniq [of b] unfolding table_wf_def
    by (cases "a = i"; cases "b = i") (auto simp: fresh_entry_def)
  moreover have "entry_wf (t[i := fresh_entry ep core g (t ! i)] ! j)" if "j < length t" for j
    using that e assms(1) by (cases "j = i") (auto simp: table_wf_def)
  ultimately show "table_wf (t[i := fresh_entry ep core g (t ! i)])"
    using assms(1) by (simp add: table_wf_def)
qed

lemma routing_register_wf [inv_rules]:
  "routing_wf r \<Longrightarrow> routing_register ep core g r = Some r' \<Longrightarrow> routing_wf r'"
  using register_slot_wf(2) [of "table r"]
  by (auto simp: routing_register_def routing_wf_def split: option.splits)

lemma try_register_wf [inv_rules]: "routing_wf r \<Longrightarrow> routing_wf (snd (try_register ep core g r))"
  using register_slot_wf(2) [of "table r"]
  by (auto simp: try_register_def routing_wf_def split: option.splits)

text \<open>The three ways an optional registration ends.\<close>

lemma register_optional_cases:
  obtains (refused) x r' where "register_optional_at n ep core g w r = (Inl x, r')" "table r' = table r"
      "mailbox_credits r' = mailbox_credits r"
  | (credit) i where "n \<le> OPTIONAL_RESERVE" "CREDIT_FLOOR < n" "w" "0 < mailbox_credits r"
      "register_slot (table r) ep = Some i"
      "register_optional_at n ep core g w r = (Inr (Credit n MAX_ENDPOINTS OPTIONAL_RESERVE),
         r\<lparr>mailbox_credits := mailbox_credits r - 1,
           table := (table r)[i := fresh_entry ep core g (table r ! i)]\<rparr>)"
  | (free) i where "OPTIONAL_RESERVE < n" "register_slot (table r) ep = Some i"
      "register_optional_at n ep core g w r =
         (Inr Free, r\<lparr>table := (table r)[i := fresh_entry ep core g (table r ! i)]\<rparr>)"
proof (cases "n \<le> OPTIONAL_RESERVE \<and> CREDIT_FLOOR < n \<and> w \<and> 0 < mailbox_credits r")
  case True
  show ?thesis
  proof (cases "register_slot (table r) ep")
    case None
    then show ?thesis using True that(1)
      by (simp add: register_optional_at_def take_mailbox_credit_def try_register_def
          bank_mailbox_credit_def refuse_def)
  next
    case (Some i)
    then show ?thesis using True that(2)
      by (simp add: register_optional_at_def take_mailbox_credit_def try_register_def)
  qed
next
  case False
  then have r1: "(if n \<le> OPTIONAL_RESERVE \<and> CREDIT_FLOOR < n \<and> w then take_mailbox_credit r
      else (False, r)) = (False, r)"
    by (auto simp: take_mailbox_credit_def)
  show ?thesis
  proof (cases "n \<le> OPTIONAL_RESERVE \<or> register_slot (table r) ep = None")
    case True
    then show ?thesis using that(1) unfolding register_optional_at_def Let_def r1
      by (cases "n \<le> OPTIONAL_RESERVE") (auto simp: try_register_def refuse_def)
  next
    case False
    then show ?thesis using that(3) unfolding register_optional_at_def Let_def r1
      by (auto simp: try_register_def)
  qed
qed

lemma register_optional_wf [inv_rules]:
  assumes "routing_wf r"
  shows "routing_wf (snd (register_optional_at n ep core g w r))"
  using assms register_slot_wf(2) [of "table r" ep _ core g]
  by (cases rule: register_optional_cases [of n ep core g w r]) (simp_all add: routing_wf_def)

section \<open>Waking the callers of a dead endpoint\<close>

definition waiting_on :: "EndpointId \<Rightarrow> Routing \<Rightarrow> slot set" where
  "waiting_on ep r = {s. s < MAX_TASKS \<and> call_await r s = ep}"

lemma take_call_waiter_None:
  "take_call_waiter ep r = (None, r') \<Longrightarrow> r' = r \<and> waiting_on ep r = {}"
  by (auto simp: take_call_waiter_def waiting_on_def scan_None split: option.splits)

lemma take_call_waiter_Some:
  assumes "take_call_waiter ep r = (Some s, r')"
  shows "s \<in> waiting_on ep r" "r' = r\<lparr>call_await := (call_await r)(s := 0)\<rparr>"
  using assms scan_SomeD [of "\<lambda>s. call_await r s = ep" 0 MAX_TASKS s]
  by (auto simp: take_call_waiter_def waiting_on_def split: option.splits)

lemma finite_waiting_on [simp]: "finite (waiting_on ep r)"
  by (simp add: waiting_on_def)

lemma drain_call_waiters_total:
  assumes "ep \<noteq> 0"
  shows "\<exists>ss r'. drain_call_waiters ep r = Some (ss, r') \<and> distinct ss \<and> set ss = waiting_on ep r
    \<and> table r' = table r \<and> (\<forall>s. call_await r' s = (if s \<in> waiting_on ep r then 0 else call_await r s))"
proof (induction "card (waiting_on ep r)" arbitrary: r rule: less_induct)
  case less
  show ?case
  proof (cases "take_call_waiter ep r")
    case (Pair w r1)
    show ?thesis
    proof (cases w)
      case None
      then show ?thesis using Pair take_call_waiter_None
        by (subst drain_call_waiters.simps) fastforce
    next
      case (Some s)
      note t = take_call_waiter_Some [OF Pair [unfolded Some]]
      have w1: "waiting_on ep r1 = waiting_on ep r - {s}"
        using t assms by (auto simp: waiting_on_def)
      then have "card (waiting_on ep r1) < card (waiting_on ep r)"
        using t(1) by (metis card_Diff1_less finite_waiting_on)
      from less [OF this] obtain ss r2 where r2: "drain_call_waiters ep r1 = Some (ss, r2)"
        "distinct ss" "set ss = waiting_on ep r1" "table r2 = table r1"
        "\<forall>s. call_await r2 s = (if s \<in> waiting_on ep r1 then 0 else call_await r1 s)" by blast
      have "drain_call_waiters ep r = Some (s # ss, r2)"
        using Pair Some r2(1) by (subst drain_call_waiters.simps) simp
      moreover have "distinct (s # ss)" "set (s # ss) = waiting_on ep r"
        using r2(2,3) w1 t(1) by auto
      moreover have "table r2 = table r"
        "\<forall>x. call_await r2 x = (if x \<in> waiting_on ep r then 0 else call_await r x)"
        using r2(4,5) w1 t by auto
      ultimately show ?thesis by blast
    qed
  qed
qed

section \<open>Delivery on every branch\<close>

lemma deliver_entry_spec:
  assumes "entry_wf e" "deliver_entry m s e = (res, e')"
  shows "if length (queue_list (re_queue e)) < 16
    then res = Inr (blocked_receiver e) \<and> blocked_receiver e' = None
      \<and> queue_list (re_queue e') = queue_list (re_queue e) @ [m]
    else res = Inl QueueFull \<and> queue_list (re_queue e') = queue_list (re_queue e)
      \<and> blocked_receiver e' = blocked_receiver e
      \<and> (case s of None \<Rightarrow> e' = e
         | Some x \<Rightarrow> blocked_sender e' = Some x \<and> pending_send e' = Some m)"
proof (cases "enqueue m (re_queue e)")
  case (Inl m')
  then have "is_full (re_queue e)" "m' = m" using enqueue_Inl_full by auto
  then have "\<not> length (queue_list (re_queue e)) < 16" "e' = record_sender s m e" "res = Inl QueueFull"
    using Inl assms(2) by (auto simp: deliver_entry_def is_full_def QUEUE_DEPTH_def split: option.splits)
  then show ?thesis by (auto simp: record_sender_def split: option.splits)
next
  case (Inr q)
  note msg_queue.enq_Inr [OF entry_wf_queue [OF assms(1)] Inr]
  then show ?thesis using Inr assms(2)
    by (auto simp: deliver_entry_def QUEUE_DEPTH_def split: option.splits)
qed

lemma distinct_ids_aux:
  assumes "\<forall>i<length t. \<forall>j<length t. re_valid (t ! i) \<longrightarrow> re_valid (t ! j) \<longrightarrow>
    re_id (t ! i) = re_id (t ! j) \<longrightarrow> i = j"
  shows "distinct (map re_id (filter re_valid t))"
  using assms
proof (induction t)
  case (Cons e t)
  have "re_id e \<noteq> re_id (t ! j)" if "re_valid e" "j < length t" "re_valid (t ! j)" for j
    using Cons.prems [THEN spec, of 0] that
    by (metis Suc_less_eq length_Cons nat.distinct(1) nth_Cons_0 nth_Cons_Suc zero_less_Suc)
  moreover have "distinct (map re_id (filter re_valid t))"
    by (rule Cons.IH) (use Cons.prems in \<open>metis Suc_less_eq length_Cons nat.inject nth_Cons_Suc\<close>)
  ultimately show ?case by (auto simp: in_set_conv_nth)
qed simp

lemma distinct_ids: "table_wf t \<Longrightarrow> distinct (map re_id (filter re_valid t))"
  by (rule distinct_ids_aux) (simp add: table_wf_def)

section \<open>Runs of the routing table\<close>

text \<open>Any operation of the module, with any arguments.\<close>

inductive routing_step :: "Routing \<Rightarrow> Routing \<Rightarrow> bool" where
  st_register: "routing_register ep core g r = Some r' \<Longrightarrow> routing_step r r'"
| st_try_register: "routing_step r (snd (try_register ep core g r))"
| st_optional: "routing_step r (snd (register_optional_at n ep core g w r))"
| st_enqueue: "routing_step r (snd (routing_enqueue ep m g s r))"
| st_interrupt: "routing_step r (snd (enqueue_from_interrupt ep m r))"
| st_kernel_blocking: "routing_step r (snd (enqueue_from_kernel_blocking ep m x r))"
| st_dequeue: "routing_step r (snd (routing_dequeue ep g s r))"
| st_call: "routing_step r (snd (call_dequeue ep g target x r))"
| st_waiter: "routing_step r (snd (take_call_waiter ep r))"
| st_clear: "routing_step r (clear_call_await x r)"
| st_bank: "routing_step r (bank_mailbox_credit r)"
| st_kill: "kill_endpoint ep r = Some (w, r') \<Longrightarrow> routing_step r r'"

lemma bank_mailbox_credit_wf [simp]: "routing_wf (bank_mailbox_credit r) = routing_wf r"
  by (simp add: bank_mailbox_credit_def routing_wf_def)

interpretation routing_runs: inv_system routing_step routing_wf
proof
  fix r r' assume "routing_step r r'" "routing_wf r"
  then show "routing_wf r'" by (cases rule: routing_step.cases) (auto intro: inv_rules)
qed

section \<open>Properties of the routing table\<close>

text \<open>
  C12: whatever sequence of operations runs on the routing table, it keeps its 96 entries, no two
  entries carry the same endpoint identifier, every queue is well formed, and a sender is recorded
  as blocked exactly when its message is kept and the queue is full.
\<close>

theorem routing_reachable_wf:
  assumes "routing_step\<^sup>*\<^sup>* Routing_init r"
  shows "length (table r) = 96 \<and> distinct (map re_id (filter re_valid (table r)))
    \<and> (\<forall>e\<in>set (table r). MessageQueue_wf (re_queue e) \<and> length (queue_list (re_queue e)) \<le> 16
         \<and> (blocked_sender e = None \<longleftrightarrow> pending_send e = None)
         \<and> (blocked_sender e \<noteq> None \<longrightarrow> length (queue_list (re_queue e)) = 16))"
proof -
  have wf: "table_wf (table r)"
    using routing_runs.run_inv [OF assms Routing_init_wf] by (simp add: routing_wf_def)
  have "MessageQueue_wf (re_queue e) \<and> length (queue_list (re_queue e)) \<le> 16
      \<and> (blocked_sender e = None \<longleftrightarrow> pending_send e = None)
      \<and> (blocked_sender e \<noteq> None \<longrightarrow> length (queue_list (re_queue e)) = 16)" if "e \<in> set (table r)" for e
    using that wf by (auto simp: table_wf_def entry_wf_def in_set_conv_nth is_full_def
        QUEUE_DEPTH_def MessageQueue_wf_def)
  moreover have "length (table r) = 96" using wf by (simp add: table_wf_def MAX_ENDPOINTS_def)
  moreover have "distinct (map re_id (filter re_valid (table r)))" using distinct_ids [OF wf] .
  ultimately show ?thesis by blast
qed

definition wit_routing :: Routing where
  "wit_routing = Routing_init\<lparr>table :=
    (table Routing_init)[0 := fresh_entry 100 0 (Generation 1) RoutingEntry_empty]\<rparr>"

lemma wit_routing_register: "routing_register 100 0 (Generation 1) Routing_init = Some wit_routing"
  by (simp add: routing_register_def register_slot_def Routing_init_def wit_routing_def
      RoutingEntry_empty_def MAX_ENDPOINTS_def free_entry_def find_idx_replicate)

theorem routing_reachable_wf_witness:
  "routing_step\<^sup>*\<^sup>* Routing_init wit_routing \<and> length (table wit_routing) = 96"
proof -
  have "routing_step\<^sup>*\<^sup>* Routing_init wit_routing"
    using st_register [OF wit_routing_register] by blast
  then show ?thesis using routing_reachable_wf by blast
qed

text \<open>
  C20: sending to an endpoint has exactly these outcomes: an unknown, dead or re-generated endpoint
  is reported dead and nothing changes; a message that finds room is queued last and a blocked
  receiver is handed back to be woken; a full queue is reported full with the queue unchanged, and
  a blocking sender is recorded together with its message. No other entry is touched.
\<close>

theorem routing_enqueue_outcome:
  assumes "routing_wf r" and "routing_enqueue ep m g s r = (res, r')"
  shows "case find_index (table r) ep of
      None \<Rightarrow> res = Inl IpcEndpointDead \<and> r' = r
    | Some i \<Rightarrow>
       (let e = table r ! i; e' = table r' ! i in
        (if re_live e = EpDead \<or> g \<noteq> re_gen e then res = Inl IpcEndpointDead \<and> r' = r
         else if length (queue_list (re_queue e)) < 16
         then res = Inr (blocked_receiver e) \<and> blocked_receiver e' = None
           \<and> queue_list (re_queue e') = queue_list (re_queue e) @ [m]
         else res = Inl QueueFull \<and> queue_list (re_queue e') = queue_list (re_queue e)
           \<and> (case s of None \<Rightarrow> e' = e
              | Some x \<Rightarrow> blocked_sender e' = Some x \<and> pending_send e' = Some m))
        \<and> (\<forall>j. j \<noteq> i \<longrightarrow> table r' ! j = table r ! j))"
proof (cases "find_index (table r) ep")
  case None
  then show ?thesis using assms(2) by (simp add: routing_enqueue_def)
next
  case (Some i)
  let ?e = "table r ! i"
  have il: "i < length (table r)" using find_index_SomeD(1) [OF Some] .
  have wf: "entry_wf ?e" using routing_wf_entry [OF assms(1) il] .
  show ?thesis
  proof (cases "re_live ?e = EpDead \<or> g \<noteq> re_gen ?e")
    case True
    then have "res = Inl IpcEndpointDead" "r' = r"
      using check_live_dead [OF True] Some assms(2) by (simp_all add: routing_enqueue_def)
    then show ?thesis using Some True by simp
  next
    case False
    obtain e' where d: "deliver_entry m s ?e = (res, e')" and r': "r' = r\<lparr>table := (table r)[i := e']\<rparr>"
      using Some assms(2) check_live_ok [OF False]
      by (cases "deliver_entry m s ?e") (simp add: routing_enqueue_def)
    show ?thesis
      using deliver_entry_spec [OF wf d] Some False il by (simp add: r')
  qed
qed

lemma wit_routing_wf: "routing_wf wit_routing"
  using routing_register_wf [OF Routing_init_wf wit_routing_register] .

lemma wit_routing_entry:
  "find_index (table wit_routing) 100 = Some 0" "re_live (table wit_routing ! 0) = EpAlive"
  "re_gen (table wit_routing ! 0) = Generation 1" "queue_list (re_queue (table wit_routing ! 0)) = []"
  "blocked_receiver (table wit_routing ! 0) = None" "blocked_sender (table wit_routing ! 0) = None"
  "pending_send (table wit_routing ! 0) = None"
proof -
  have t0: "table wit_routing ! 0 = fresh_entry 100 0 (Generation 1) RoutingEntry_empty"
    by (simp add: wit_routing_def Routing_init_def MAX_ENDPOINTS_def)
  then show "find_index (table wit_routing) 100 = Some 0"
    using find_index_iff [of "table wit_routing" 100 0] wit_routing_wf
    by (simp add: routing_wf_def fresh_entry_def wit_routing_def Routing_init_def MAX_ENDPOINTS_def)
qed (simp_all add: wit_routing_def Routing_init_def MAX_ENDPOINTS_def fresh_entry_def
    RoutingEntry_empty_def)

theorem routing_enqueue_outcome_witness:
  "\<exists>r'. routing_enqueue 100 (wit_msg 5) (Generation 1) None wit_routing = (Inr None, r')
    \<and> queue_list (re_queue (table r' ! 0)) = [wit_msg 5]"
proof -
  obtain res r' where d: "routing_enqueue 100 (wit_msg 5) (Generation 1) None wit_routing = (res, r')"
    by fastforce
  show ?thesis using routing_enqueue_outcome [OF wit_routing_wf d] d
    by (simp add: wit_routing_entry Let_def)
qed

text \<open>
  C19: no accepted message is lost or reordered by receiving: the message returned is the oldest one,
  and what then waits is the rest of the queue followed by the blocked sender's message, if there
  was one, with that sender handed back to be woken.
\<close>

theorem routing_dequeue_no_loss:
  assumes "routing_wf r" and "routing_dequeue ep g rx r = (Inr (m, tx), r')"
    and "find_index (table r) ep = Some i"
  shows "queue_list (re_queue (table r ! i)) @
      (case pending_send (table r ! i) of Some p \<Rightarrow> [p] | None \<Rightarrow> [])
      = m # queue_list (re_queue (table r' ! i))
    \<and> tx = blocked_sender (table r ! i)
    \<and> blocked_sender (table r' ! i) = None \<and> pending_send (table r' ! i) = None"
proof -
  have il: "i < length (table r)" using find_index_SomeD(1) [OF assms(3)] .
  have live: "check_live (table r ! i) g = Inr ()"
    using check_live_cases [of "table r ! i" g] assms(2,3) by (auto simp: routing_dequeue_def)
  show ?thesis
  proof (cases "queue_list (re_queue (table r ! i))")
    case Nil
    then show ?thesis using routing_dequeue_spec [OF assms(1,3) live, of rx] assms(2) by simp
  next
    case (Cons a ms)
    then obtain e' where e': "routing_dequeue ep g rx r =
        (Inr (a, blocked_sender (table r ! i)), r\<lparr>table := (table r)[i := e']\<rparr>)" "entry_wf e'"
      "blocked_sender e' = None" "queue_list (re_queue e') =
        ms @ (case pending_send (table r ! i) of Some p \<Rightarrow> [p] | None \<Rightarrow> [])"
      using routing_dequeue_spec [OF assms(1,3) live, of rx] by auto
    then have "table r' ! i = e'" "a = m" "tx = blocked_sender (table r ! i)"
      using assms(2) il by auto
    then show ?thesis using e' Cons by (simp add: entry_wf_def)
  qed
qed

definition wit_routing2 :: Routing where
  "wit_routing2 = snd (routing_enqueue 100 (wit_msg 5) (Generation 1) None wit_routing)"

lemma wit_routing2: "routing_wf wit_routing2" "find_index (table wit_routing2) 100 = Some 0"
  "queue_list (re_queue (table wit_routing2 ! 0)) = [wit_msg 5]"
  "pending_send (table wit_routing2 ! 0) = None" "check_live (table wit_routing2 ! 0) (Generation 1) = Inr ()"
proof -
  let ?d = "deliver_entry (wit_msg 5) None (table wit_routing ! 0)"
  have r2: "wit_routing2 = wit_routing\<lparr>table := (table wit_routing)[0 := snd ?d]\<rparr>"
    by (simp add: wit_routing2_def routing_enqueue_def wit_routing_entry check_live_def case_prod_beta)
  have len: "0 < length (table wit_routing)"
    using find_index_SomeD(1) [OF wit_routing_entry(1)] .
  have sp: "queue_list (re_queue (snd ?d)) = [wit_msg 5]" "entry_wf (snd ?d)"
    using deliver_entry_spec [of "table wit_routing ! 0" "wit_msg 5" None "fst ?d" "snd ?d"]
      deliver_entry_wf routing_wf_entry [OF wit_routing_wf len] by (simp_all add: wit_routing_entry)
  show "routing_wf wit_routing2"
    unfolding wit_routing2_def by (rule routing_enqueue_wf [OF wit_routing_wf])
  show "find_index (table wit_routing2) 100 = Some 0"
    by (simp add: r2 find_index_update frame_rules wit_routing_entry)
  show "queue_list (re_queue (table wit_routing2 ! 0)) = [wit_msg 5]" using sp len by (simp add: r2)
  show "pending_send (table wit_routing2 ! 0) = None"
    using sp len by (auto simp: r2 entry_wf_def is_full_def QUEUE_DEPTH_def simp flip: length_queue_list)
  show "check_live (table wit_routing2 ! 0) (Generation 1) = Inr ()"
    using len by (simp add: r2 check_live_def frame_rules wit_routing_entry)
qed

theorem routing_dequeue_no_loss_witness:
  "\<exists>tx r'. routing_dequeue 100 (Generation 1) None wit_routing2 = (Inr (wit_msg 5, tx), r')
    \<and> queue_list (re_queue (table r' ! 0)) = []"
proof -
  obtain tx r' where d: "routing_dequeue 100 (Generation 1) None wit_routing2 = (Inr (wit_msg 5, tx), r')"
    using routing_dequeue_spec [OF wit_routing2(1,2,5), of None] wit_routing2(3) by auto
  then show ?thesis
    using routing_dequeue_no_loss [OF wit_routing2(1) d wit_routing2(2)] wit_routing2(3,4) by simp
qed



text \<open>
  C24: after an endpoint is killed nobody can send to it or receive from it, whatever generation their
  capability carries; its queue is empty, and the receiver and the sender that were blocked on it are both
  handed back to be woken.
\<close>

theorem kill_endpoint_final:
  assumes "routing_wf r" and "kill_endpoint ep r = Some ((rx, tx), r')"
    and "find_index (table r) ep = Some i"
  shows "rx = blocked_receiver (table r ! i) \<and> tx = blocked_sender (table r ! i)
    \<and> queue_list (re_queue (table r' ! i)) = [] \<and> re_gen (table r ! i) < re_gen (table r' ! i)
    \<and> fst (routing_enqueue ep m g s r') = Inl IpcEndpointDead
    \<and> fst (routing_dequeue ep g s r') = Inl IpcEndpointDead
    \<and> fst (enqueue_from_interrupt ep m r') = NoEndpoint"
proof -
  let ?e = "table r ! i"
  have il: "i < length (table r)" using find_index_SomeD(1) [OF assms(3)] .
  obtain h where h: "Generation_bump (re_gen ?e) = Some h"
    and k: "rx = blocked_receiver ?e" "tx = blocked_sender ?e"
    and r': "table r' = (table r)[i := ?e\<lparr>re_live := EpDead, re_gen := h, re_queue := drain (re_queue ?e),
        blocked_receiver := None, blocked_sender := None, pending_send := None\<rparr>]"
    using assms(2,3) by (auto simp: kill_endpoint_def Let_def split: Option.bind_splits)
  have f: "find_index (table r') ep = Some i"
    unfolding r' by (subst find_index_update) (simp_all add: assms(3))
  have dead: "re_live (table r' ! i) = EpDead" using il by (simp add: r')
  have "queue_list (re_queue (table r' ! i)) = []"
    using drain_spec routing_wf_entry [OF assms(1) il] il by (simp add: r')
  moreover have "re_gen ?e < re_gen (table r' ! i)" using Generation_bump_less [OF h] il by (simp add: r')
  ultimately show ?thesis
    using k f dead by (simp add: routing_enqueue_def routing_dequeue_def enqueue_from_interrupt_def
        check_live_def)
qed

theorem kill_endpoint_final_witness:
  "\<exists>w r'. kill_endpoint 100 wit_routing2 = Some (w, r')
    \<and> fst (routing_enqueue 100 (wit_msg 5) (Generation 1) None r') = Inl IpcEndpointDead"
proof -
  have "re_gen (table wit_routing2 ! 0) = Generation 1"
    using check_live_cases [of "table wit_routing2 ! 0" "Generation 1"] wit_routing2(5) by auto
  then obtain rx tx r' where "kill_endpoint 100 wit_routing2 = Some ((rx, tx), r')"
    using wit_routing2(2) by (simp add: kill_endpoint_def Generation_bump_def checked_add_def Let_def)
  then show ?thesis
    using kill_endpoint_final [OF wit_routing2(1) _ wit_routing2(2)] by blast
qed

text \<open>
  C25: when a replier dies, the loop that wakes its callers always ends, and the tasks it wakes are
  exactly those awaiting a reply from it, each once; afterwards no task awaits it and every other
  task's record is as before.
\<close>

theorem drain_call_waiters_exact:
  assumes "ep \<noteq> 0"
  shows "\<exists>ss r'. drain_call_waiters ep r = Some (ss, r') \<and> distinct ss
    \<and> set ss = {s. s < MAX_TASKS \<and> call_await_endpoint r s = ep}
    \<and> (\<forall>s. call_await_endpoint r' s \<noteq> ep)
    \<and> (\<forall>s. call_await_endpoint r s \<noteq> ep \<longrightarrow> call_await_endpoint r' s = call_await_endpoint r s)"
  using drain_call_waiters_total [OF assms, of r] assms
  by (fastforce simp: waiting_on_def call_await_endpoint_def)

theorem drain_call_waiters_exact_witness:
  "\<exists>ss r'. drain_call_waiters 100 (set_call_await 3 100 Routing_init) = Some (ss, r') \<and> set ss = {3}"
proof -
  have "{s. s < MAX_TASKS \<and> call_await_endpoint (set_call_await 3 100 Routing_init) s = 100} = {3}"
    by (auto simp: call_await_endpoint_def set_call_await_def Routing_init_def MAX_TASKS_def
        split: if_splits)
  then show ?thesis
    using drain_call_waiters_exact [of 100 "set_call_await 3 100 Routing_init"] by auto
qed

text \<open>
  Reply mailboxes never take the slots reserved for the endpoints services cannot do without:
  granting one leaves at least 72 of the 96 entries free, and granting one against the mailbox of a dead
  watched task leaves at least 12 free and spends exactly one credit; a refusal leaves the table and
  the credits as they were.
\<close>

theorem optional_keeps_reserve:
  "case try_register_optional ep core g watched r of
     (Inr Free, r') \<Rightarrow> 72 \<le> count_free (table r') \<and> mailbox_credits r' = mailbox_credits r
   | (Inr (Credit _ _ _), r') \<Rightarrow> 12 \<le> count_free (table r') \<and> watched
       \<and> mailbox_credits r = Suc (mailbox_credits r')
   | (Inl _, r') \<Rightarrow> table r' = table r \<and> mailbox_credits r' = mailbox_credits r"
proof -
  have upd: "count_free t \<le> Suc (count_free (t[i := e]))" for t i e
    unfolding count_free_def by (rule length_filter_update)
  show ?thesis
  proof (cases rule: register_optional_cases [of "count_free (table r)" ep core g watched r])
    case refused
    then show ?thesis by (simp add: try_register_optional_def)
  next
    case (credit i)
    then show ?thesis using upd [of "table r" i "fresh_entry ep core g (table r ! i)"]
      by (simp add: try_register_optional_def CREDIT_FLOOR_def MAX_ENDPOINTS_def)
  next
    case (free i)
    then show ?thesis using upd [of "table r" i "fresh_entry ep core g (table r ! i)"]
      by (simp add: try_register_optional_def OPTIONAL_RESERVE_def MAX_ENDPOINTS_def)
  qed
qed

text \<open>
  C30: an endpoint remembers one blocked sender only: when a second task blocks sending to the same
  full queue, the first one's record and message are overwritten, so neither receiving nor the
  endpoint's death hands the first sender back to be woken.
\<close>

theorem second_blocked_sender_overwrites:
  assumes "routing_wf r" and "find_index (table r) ep = Some i"
    and "re_live (table r ! i) = EpAlive" and "g = re_gen (table r ! i)"
    and "length (queue_list (re_queue (table r ! i))) = 16"
    and "routing_enqueue ep m1 g (Some s1) r = (res1, r1)"
    and "routing_enqueue ep m2 g (Some s2) r1 = (res2, r2)"
  shows "res1 = Inl QueueFull \<and> res2 = Inl QueueFull
    \<and> blocked_sender (table r1 ! i) = Some s1 \<and> pending_send (table r1 ! i) = Some m1
    \<and> blocked_sender (table r2 ! i) = Some s2 \<and> pending_send (table r2 ! i) = Some m2"
proof -
  have il: "i < length (table r)" using find_index_SomeD(1) [OF assms(2)] .
  have step: "fst (routing_enqueue ep m g (Some s) q) = Inl QueueFull
      \<and> snd (routing_enqueue ep m g (Some s) q) =
          q\<lparr>table := (table q)[i := record_sender (Some s) m (table q ! i)]\<rparr>"
    if "find_index (table q) ep = Some i" "check_live (table q ! i) g = Inr ()"
      "is_full (re_queue (table q ! i))" for m s q
    using that by (simp add: routing_enqueue_def deliver_entry_def enqueue_def split: option.split)
  have ok: "check_live (table r ! i) g = Inr ()" "is_full (re_queue (table r ! i))"
    using assms(3-5) by (simp_all add: check_live_def is_full_def QUEUE_DEPTH_def)
  have r1: "res1 = Inl QueueFull" "r1 = r\<lparr>table := (table r)[i := record_sender (Some s1) m1 (table r ! i)]\<rparr>"
    using step [OF assms(2) ok, of m1 s1] assms(6) by simp_all
  have "find_index (table r1) ep = Some i" "check_live (table r1 ! i) g = Inr ()"
    "is_full (re_queue (table r1 ! i))"
    using ok(2) il assms(2-4) by (simp_all add: r1 find_index_update check_live_def)
  from step [OF this, of m2 s2] assms(7) have "res2 = Inl QueueFull"
    "r2 = r1\<lparr>table := (table r1)[i := record_sender (Some s2) m2 (table r1 ! i)]\<rparr>" by simp_all
  then show ?thesis using r1 il by (simp add: record_sender_def)
qed

definition wit_full_queue :: MessageQueue where
  "wit_full_queue = \<lparr>q_slots = replicate QUEUE_DEPTH (Some (wit_msg 5)), q_head = 0, q_len = QUEUE_DEPTH\<rparr>"

definition wit_routing_full :: Routing where
  "wit_routing_full = wit_routing\<lparr>table := (table wit_routing)
    [0 := (table wit_routing ! 0)\<lparr>re_queue := wit_full_queue\<rparr>]\<rparr>"

lemma wit_routing_full:
  "routing_wf wit_routing_full" "find_index (table wit_routing_full) 100 = Some 0"
  "table wit_routing_full ! 0 = (table wit_routing ! 0)\<lparr>re_queue := wit_full_queue\<rparr>"
proof -
  have "0 < length (table wit_routing)" using find_index_SomeD(1) [OF wit_routing_entry(1)] .
  then show "table wit_routing_full ! 0 = (table wit_routing ! 0)\<lparr>re_queue := wit_full_queue\<rparr>"
    by (simp add: wit_routing_full_def)
  have "entry_wf ((table wit_routing ! 0)\<lparr>re_queue := wit_full_queue\<rparr>)"
    by (simp add: entry_wf_def wit_routing_entry wit_full_queue_def MessageQueue_wf_def)
  then show "routing_wf wit_routing_full"
    unfolding wit_routing_full_def using wit_routing_wf by (intro routing_wf_set_entry) simp_all
  show "find_index (table wit_routing_full) 100 = Some 0"
    by (simp add: wit_routing_full_def find_index_update wit_routing_entry)
qed

theorem second_blocked_sender_overwrites_witness:
  "\<exists>r1 r2. routing_enqueue 100 (wit_msg 5) (Generation 1) (Some 1) wit_routing_full = (Inl QueueFull, r1)
    \<and> routing_enqueue 100 (wit_msg 7) (Generation 1) (Some 2) r1 = (Inl QueueFull, r2)
    \<and> blocked_sender (table r2 ! 0) = Some 2"
proof -
  obtain res1 r1 where 1: "routing_enqueue 100 (wit_msg 5) (Generation 1) (Some 1) wit_routing_full = (res1, r1)"
    by fastforce
  obtain res2 r2 where 2: "routing_enqueue 100 (wit_msg 7) (Generation 1) (Some 2) r1 = (res2, r2)"
    by fastforce
  show ?thesis
    using second_blocked_sender_overwrites [OF wit_routing_full(1,2) _ _ _ 1 2] 1 2
    by (simp add: wit_routing_full(3) wit_routing_entry wit_full_queue_def QUEUE_DEPTH_def)
qed

end
