(* ===== verification/Kill_Props.thy ===== *)
theory Kill_Props
  imports Kill Sched_Props Routing_Props
begin

text \<open>
  Properties of ending a task: what each phase of the kill path does to each part of the kernel, that
  nothing of the dead task can be reached afterwards and nobody stays waiting for it, that the wait for the
  other cores is bounded, and that killing by name ends with no task of that name alive.
\<close>

section \<open>What a teardown leaves of the other tasks\<close>

text \<open>The fields a teardown never writes, and the two states it never leaves.\<close>

definition same_task :: "Task \<Rightarrow> Task \<Rightarrow> bool" where
  "same_task t u \<longleftrightarrow> t_valid u = t_valid t \<and> t_name u = t_name t \<and> t_caps u = t_caps t \<and> t_core u = t_core t
     \<and> t_is_user u = t_is_user t \<and> t_kstack_top u = t_kstack_top t \<and> t_cr3 u = t_cr3 t
     \<and> t_endpoint u = t_endpoint t \<and> t_watched u = t_watched t \<and> t_hw_kind u = t_hw_kind t
     \<and> (t_state u = TaskDead \<longleftrightarrow> t_state t = TaskDead)
     \<and> (t_state t = Ready \<and> t_wake_pending t \<longrightarrow> t_state u = Ready \<and> t_wake_pending u)"

definition teardown :: "Sched \<Rightarrow> Sched \<Rightarrow> bool" where
  "teardown s s' \<longleftrightarrow> (\<forall>j. same_task (tasks s j) (tasks s' j)) \<and> num_cores s' = num_cores s
     \<and> core_current s' = core_current s \<and> core_leaving s' = core_leaving s"

definition woken :: "Sched \<Rightarrow> slot \<Rightarrow> bool" where
  "woken s j \<longleftrightarrow> j \<ge> MAX_TASKS \<or> \<not> t_valid (tasks s j) \<or> t_state (tasks s j) = TaskDead
     \<or> t_state (tasks s j) = Ready \<and> t_wake_pending (tasks s j)"

lemma same_task_refl [simp]: "same_task t t" by (simp add: same_task_def)

lemma teardown_refl [simp]: "teardown s s" by (simp add: teardown_def)

lemma teardown_trans [trans]: "teardown s t \<Longrightarrow> teardown t u \<Longrightarrow> teardown s u"
  by (simp add: teardown_def same_task_def)

lemma teardown_woken: "teardown s s' \<Longrightarrow> woken s j \<Longrightarrow> woken s' j"
  by (auto simp: teardown_def same_task_def woken_def)

lemma teardown_wake: "teardown s (wake_by_slot c j r s)"
  by (simp add: teardown_def same_task_def wake_tasks)

lemma wake_woken: "woken (wake_by_slot c j r s) j"
  by (auto simp: woken_def wake_tasks)

lemma teardown_upd: "(\<And>t. same_task t (f t)) \<Longrightarrow> teardown s (upd_task i f s)"
  by (simp add: teardown_def)

lemma teardown_name: "teardown s s' \<Longrightarrow> task_name s' i = task_name s i"
  by (simp add: teardown_def same_task_def task_name_def)

lemma teardown_bump: "teardown s (bump_name_restart nm s)"
  by (simp add: teardown_def bump_name_restart_def split: option.split)

text \<open>Waking changes only the scheduler's part of the state.\<close>

lemma wake_other_cases:
  "\<exists>s'. wake_other cid i r who k = k\<lparr>sched := s'\<rparr> \<and> teardown (sched k) s'
     \<and> (\<forall>j. who = Some j \<longrightarrow> j \<noteq> i \<longrightarrow> woken s' j)"
proof (cases "\<exists>j. who = Some j \<and> j \<noteq> i")
  case True
  then obtain j where "who = Some j" "j \<noteq> i" by blast
  then show ?thesis
    by (intro exI [of _ "wake_by_slot cid j r (sched k)"])
      (simp add: wake_other_def wake_def teardown_wake wake_woken)
next
  case False
  then have "wake_other cid i r who k = k" by (auto simp: wake_other_def split: option.split)
  then show ?thesis using False by (intro exI [of _ "sched k"]) auto
qed

lemma wake_all_cases:
  "\<exists>s'. fold (\<lambda>w. wake_other cid i r (Some w)) ws k = k\<lparr>sched := s'\<rparr> \<and> teardown (sched k) s'
     \<and> (\<forall>j\<in>set ws. j \<noteq> i \<longrightarrow> woken s' j)"
proof (induction ws arbitrary: k)
  case Nil
  show ?case by (intro exI [of _ "sched k"]) simp
next
  case (Cons w ws)
  obtain s1 where s1: "wake_other cid i r (Some w) k = k\<lparr>sched := s1\<rparr>" "teardown (sched k) s1"
    "w \<noteq> i \<longrightarrow> woken s1 w"
    using wake_other_cases [of cid i r "Some w" k] by auto
  obtain s2 where s2: "fold (\<lambda>w. wake_other cid i r (Some w)) ws (k\<lparr>sched := s1\<rparr>) = k\<lparr>sched := s2\<rparr>"
    "teardown s1 s2" "\<forall>j\<in>set ws. j \<noteq> i \<longrightarrow> woken s2 j"
    using Cons.IH [of "k\<lparr>sched := s1\<rparr>"] by auto
  have "teardown (sched k) s2" using s1(2) s2(2) by (rule teardown_trans)
  moreover have "\<forall>j\<in>set (w # ws). j \<noteq> i \<longrightarrow> woken s2 j"
    using s1(3) s2(3) teardown_woken [OF s2(2)] by auto
  ultimately show ?case using s1(1) s2(1) by (intro exI [of _ s2]) simp
qed

section \<open>Dead endpoints\<close>

definition ep_gone :: "Routing \<Rightarrow> EndpointId \<Rightarrow> bool" where
  "ep_gone r ep \<longleftrightarrow> (\<forall>n. find_index (table r) ep = Some n \<longrightarrow> re_live (table r ! n) = EpDead)"

lemma ep_gone_refuses:
  assumes "ep_gone r ep"
  shows "fst (routing_enqueue ep m g s r) = Inl IpcEndpointDead"
    "fst (routing_dequeue ep g s r) = Inl IpcEndpointDead" "fst (enqueue_from_interrupt ep m r) = NoEndpoint"
  using assms
  by (auto simp: ep_gone_def routing_enqueue_def routing_dequeue_def enqueue_from_interrupt_def check_live_def
      split: option.split)

lemma ep_gone_table: "table r' = table r \<Longrightarrow> ep_gone r' ep = ep_gone r ep"
  by (simp add: ep_gone_def)

lemma kill_endpoint_gone:
  assumes "kill_endpoint ep r = Some (w, r')"
  shows "ep_gone r' ep" "call_await r' = call_await r"
    "w = (case find_index (table r) ep of None \<Rightarrow> (None, None)
        | Some n \<Rightarrow> (blocked_receiver (table r ! n), blocked_sender (table r ! n)))"
proof -
  have "find_index ((table r)[n := (table r ! n)\<lparr>re_live := EpDead, re_gen := g, re_queue := q,
      blocked_receiver := None, blocked_sender := None, pending_send := None\<rparr>]) ep = find_index (table r) ep"
    for n g q by (rule find_index_update) simp_all
  then show "ep_gone r' ep" "call_await r' = call_await r"
    "w = (case find_index (table r) ep of None \<Rightarrow> (None, None)
        | Some n \<Rightarrow> (blocked_receiver (table r ! n), blocked_sender (table r ! n)))"
    using assms find_index_SomeD(1)
    by (auto simp: kill_endpoint_def Let_def ep_gone_def split: option.splits Option.bind_splits)
qed

lemma interrupt_keeps_gone: "ep_gone r ep \<Longrightarrow> ep_gone (snd (enqueue_from_interrupt ep2 m r)) ep"
  using find_index_SomeD(1) [of "table r"]
  by (auto simp: ep_gone_def enqueue_from_interrupt_state find_index_update deliver_entry_frame nth_list_update
      split: option.splits)

lemma interrupt_keeps_await: "call_await (snd (enqueue_from_interrupt ep m r)) = call_await r"
  by (simp add: enqueue_from_interrupt_state split: option.split)

section \<open>Generations only rise\<close>

definition gens_up :: "GlobalResourceTable \<Rightarrow> GlobalResourceTable \<Rightarrow> bool" where
  "gens_up g g' \<longleftrightarrow> (\<forall>rid r. get_record g rid = Some r \<longrightarrow>
     (\<exists>r'. get_record g' rid = Some r' \<and> rec_generation r \<le> rec_generation r'))"

definition dead_record :: "GlobalResourceTable \<Rightarrow> Generation \<Rightarrow> ResourceId \<Rightarrow> bool" where
  "dead_record g gen rid \<longleftrightarrow>
     (\<exists>r. get_record g rid = Some r \<and> rec_liveness r = Dead \<and> gen < rec_generation r)"

lemma gens_up_refl [simp]: "gens_up g g" by (auto simp: gens_up_def)

lemma gens_up_trans: "gens_up g h \<Longrightarrow> gens_up h j \<Longrightarrow> gens_up g j"
  unfolding gens_up_def by (meson order_trans)

lemma gens_up_bump:
  assumes b: "bump_generation rid l g = Some g'"
  shows "gens_up g g'"
  unfolding gens_up_def
proof (intro allI impI)
  fix j r assume r: "get_record g j = Some r"
  show "\<exists>r'. get_record g' j = Some r' \<and> rec_generation r \<le> rec_generation r'"
  proof (cases "j = rid")
    case True
    obtain h where "Generation_bump (rec_generation r) = Some h"
      "get_record g' rid = Some \<lparr>rec_generation = h, rec_liveness = l\<rparr>"
      using get_record_bump_same [OF b] r True by metis
    then show ?thesis using True Generation_bump_less by (auto intro: less_imp_le)
  next
    case False
    then show ?thesis using get_record_bump_other [OF b False] r by simp
  qed
qed

lemma gens_up_mark: "mark_dead_resource rid g = Some g' \<Longrightarrow> gens_up g g'"
  unfolding mark_dead_resource_def by (rule gens_up_bump)

lemma mark_dead_record:
  assumes "mark_dead_resource rid g = Some g'" "get_record g rid = Some r"
  shows "dead_record g' (rec_generation r) rid"
proof -
  obtain b where "Generation_bump (rec_generation r) = Some b"
    "get_record g' rid = Some \<lparr>rec_generation = b, rec_liveness = Dead\<rparr>"
    using get_record_bump_same [OF assms(1) [unfolded mark_dead_resource_def] assms(2)] .
  then show ?thesis using Generation_bump_less by (simp add: dead_record_def)
qed

lemma release_owner_keeps_dead:
  assumes "release_owner who b g = Some (n, b', g')" "dead_record g gen rid"
  shows "dead_record g' gen rid"
proof -
  note sp = release_owner_loop_spec [OF assms(1) [unfolded release_owner_def]]
  obtain r where r: "get_record g rid = Some r" "rec_liveness r = Dead" "gen < rec_generation r"
    using assms(2) by (auto simp: dead_record_def)
  show ?thesis
  proof (cases "rid \<in> owned_by who b")
    case True
    then obtain r' where "get_record g' rid = Some r'" "rec_liveness r' = Dead"
      "rec_generation r < rec_generation r'" using sp r(1) by blast
    then show ?thesis using r(3) by (auto simp: dead_record_def)
  next
    case False
    then have "get_record g' rid = get_record g rid" using sp by blast
    then show ?thesis using r by (simp add: dead_record_def)
  qed
qed

lemma dead_record_refuses:
  assumes "dead_record g gen (resource_id c)" "slot_cap t n = Some c" "generation c \<le> gen"
  shows "CapTable_get g t n right = Inl CapEndpointDead"
  using assms by (auto simp: dead_record_def CapTable_get_def)

section \<open>The phases\<close>

lemma kill_claim_SomeD:
  assumes "kill_claim i k = Some k0"
  shows "i < MAX_TASKS" "t_valid (tasks (sched k) i)" "t_state (tasks (sched k) i) \<noteq> TaskDead"
    "k0 = k\<lparr>sched := upd_task i (\<lambda>t. t\<lparr>t_state := TaskDead\<rparr>) (sched k)\<rparr>"
  using assms by (auto simp: kill_claim_def split: if_splits)

definition blocked_on :: "Routing \<Rightarrow> EndpointId \<Rightarrow> slot \<Rightarrow> bool" where
  "blocked_on r ep j \<longleftrightarrow> (\<exists>n. find_index (table r) ep = Some n \<and>
     (blocked_receiver (table r ! n) = Some j \<or> blocked_sender (table r ! n) = Some j))"

lemma kill_endpoint_blocked:
  assumes "kill_endpoint e r = Some ((rx, tx), r')" "blocked_on r ep j"
  shows "if ep = e then rx = Some j \<or> tx = Some j else blocked_on r' ep j"
proof (cases "ep = e")
  case True
  then show ?thesis using kill_endpoint_gone(3) [OF assms(1)] assms(2) by (auto simp: blocked_on_def)
next
  case False
  have upd: "find_index ((table r)[n := (table r ! n)\<lparr>re_live := EpDead, re_gen := g, re_queue := q,
      blocked_receiver := None, blocked_sender := None, pending_send := None\<rparr>]) ep = find_index (table r) ep"
    for n g q by (rule find_index_update) simp_all
  obtain m where m: "find_index (table r) ep = Some m"
    "blocked_receiver (table r ! m) = Some j \<or> blocked_sender (table r ! m) = Some j"
    using assms(2) by (auto simp: blocked_on_def)
  show ?thesis
  proof (cases "find_index (table r) e")
    case None
    then show ?thesis using False assms by (simp add: kill_endpoint_def)
  next
    case (Some n)
    have "n \<noteq> m" using Some m(1) False find_index_SomeD(3) by metis
    moreover obtain g where "table r' = (table r)[n := (table r ! n)\<lparr>re_live := EpDead, re_gen := g,
        re_queue := drain (re_queue (table r ! n)), blocked_receiver := None, blocked_sender := None,
        pending_send := None\<rparr>]"
      using assms(1) Some by (auto simp: kill_endpoint_def Let_def split: Option.bind_splits)
    ultimately have "find_index (table r') ep = Some m" "table r' ! m = table r ! m"
      using upd m(1) by simp_all
    then show ?thesis using False m(2) by (auto simp: blocked_on_def)
  qed
qed

text \<open>Waking the blocked receiver and the blocked sender of a killed endpoint.\<close>

lemma wake_pair_cases:
  "\<exists>s'. wake_other cid i r tx (wake_other cid i r rx k) = k\<lparr>sched := s'\<rparr> \<and> teardown (sched k) s'
     \<and> (\<forall>j. rx = Some j \<or> tx = Some j \<longrightarrow> j \<noteq> i \<longrightarrow> woken s' j)"
proof -
  obtain s1 where s1: "wake_other cid i r rx k = k\<lparr>sched := s1\<rparr>" "teardown (sched k) s1"
    "\<forall>j. rx = Some j \<longrightarrow> j \<noteq> i \<longrightarrow> woken s1 j" using wake_other_cases [of cid i r rx k] by (elim exE conjE)
  obtain s2 where s2: "wake_other cid i r tx (k\<lparr>sched := s1\<rparr>) = k\<lparr>sched := s2\<rparr>" "teardown s1 s2"
    "\<forall>j. tx = Some j \<longrightarrow> j \<noteq> i \<longrightarrow> woken s2 j"
    using wake_other_cases [of cid i r tx "k\<lparr>sched := s1\<rparr>"] by auto
  have "teardown (sched k) s2" using s1(2) s2(2) by (rule teardown_trans)
  then show ?thesis
    using s1(1,3) s2(1,3) teardown_woken [OF s2(2)] by (intro exI [of _ s2] conjI) auto
qed

lemma kill_reply_spec:
  assumes "kill_reply_mailbox cid i k = Some k'" "i < MAX_TASKS"
  shows "teardown (sched k) (sched k')" "band k' = band k" "names_dir k' = names_dir k"
    "irq_table k' = irq_table k" "gens_up (res k) (res k')"
    "call_await (routing k') = (call_await (routing k))(i := 0)"
    "blocked_on (routing k) ep j \<Longrightarrow> j \<noteq> i \<Longrightarrow>
       (if t_reply_endpoint (tasks (sched k) i) = ep \<and> ep \<noteq> 0 then woken (sched k') j
        else blocked_on (routing k') ep j)"
proof -
  let ?rep = "t_reply_endpoint (tasks (sched k) i)"
  let ?r0 = "clear_call_await i (routing k)"
  have r0: "table ?r0 = table (routing k)" "call_await ?r0 = (call_await (routing k))(i := 0)"
    using assms(2) by (simp_all add: clear_call_await_def)
  have b0: "blocked_on ?r0 ep j = blocked_on (routing k) ep j" by (simp add: blocked_on_def r0)
  have "teardown (sched k) (sched k') \<and> band k' = band k \<and> names_dir k' = names_dir k
    \<and> irq_table k' = irq_table k \<and> gens_up (res k) (res k')
    \<and> call_await (routing k') = (call_await (routing k))(i := 0)
    \<and> (blocked_on (routing k) ep j \<longrightarrow> j \<noteq> i \<longrightarrow>
       (if ?rep = ep \<and> ep \<noteq> 0 then woken (sched k') j else blocked_on (routing k') ep j))"
  proof (cases "?rep = 0")
    case True
    then have "k' = emit [ReleaseForeground i] (k\<lparr>routing := ?r0\<rparr>)"
      using assms(1) by (simp add: kill_reply_mailbox_def ep_from_u64_def emit_def)
    then show ?thesis using True b0 r0 by (simp add: emit_def)
  next
    case False
    let ?k0 = "emit [ReleaseForeground i] (k\<lparr>routing := ?r0\<rparr>)"
    obtain rx tx r where ke: "kill_endpoint ?rep ?r0 = Some ((rx, tx), r)"
      using assms(1) False by (auto simp: kill_reply_mailbox_def ep_from_u64_def emit_def Let_def split: Option.bind_splits)
    obtain s1 where s1: "wake_other cid i (- 7) tx (wake_other cid i (- 7) rx (?k0\<lparr>routing := r\<rparr>))
        = (?k0\<lparr>routing := r\<rparr>)\<lparr>sched := s1\<rparr>" "teardown (sched k) s1"
      "\<forall>j. rx = Some j \<or> tx = Some j \<longrightarrow> j \<noteq> i \<longrightarrow> woken s1 j"
      using wake_pair_cases [of cid i "- 7" tx rx "?k0\<lparr>routing := r\<rparr>"] by (auto simp: emit_def)
    obtain g where g: "mark_dead_resource ?rep (res k) = Some g" and k': "res k' = g" "band k' = band k"
      "names_dir k' = names_dir k" "irq_table k' = irq_table k"
      "table (routing k') = table r" "call_await (routing k') = call_await r"
      "sched k' = upd_task i (\<lambda>t. t\<lparr>t_reply_endpoint := 0\<rparr>) s1"
      using assms(1) False ke s1(1)
      by (auto simp: kill_reply_mailbox_def ep_from_u64_def emit_def Let_def bank_mailbox_credit_def
          split: Option.bind_splits)
    have td: "teardown s1 (sched k')" unfolding k'(7) by (rule teardown_upd) (simp add: same_task_def)
    have bl: "if ?rep = ep \<and> ep \<noteq> 0 then woken (sched k') j else blocked_on (routing k') ep j"
      if b: "blocked_on (routing k) ep j" and ji: "j \<noteq> i"
    proof -
      have "if ep = ?rep then rx = Some j \<or> tx = Some j else blocked_on r ep j"
        using kill_endpoint_blocked [OF ke] b b0 by blast
      then show ?thesis
        using s1(3) ji td teardown_woken [OF td] False k'(5) by (auto simp: blocked_on_def split: if_splits)
    qed
    show ?thesis using k' td s1(2) teardown_trans gens_up_mark [OF g] bl
        kill_endpoint_gone(2) [OF ke] r0(2) by auto
  qed
  then show "teardown (sched k) (sched k')" "band k' = band k" "names_dir k' = names_dir k"
    "irq_table k' = irq_table k" "gens_up (res k) (res k')"
    "call_await (routing k') = (call_await (routing k))(i := 0)"
    "blocked_on (routing k) ep j \<Longrightarrow> j \<noteq> i \<Longrightarrow>
       (if ?rep = ep \<and> ep \<noteq> 0 then woken (sched k') j else blocked_on (routing k') ep j)"
    by blast+
qed

lemma irq_unregister_spec:
  "irq_table (snd (irq_unregister_endpoint ep k)) =
     (\<lambda>q. if q < MAX_IRQ \<and> irq_table k q = Some ep then None else irq_table k q)"
  "sched (snd (irq_unregister_endpoint ep k)) = sched k" "routing (snd (irq_unregister_endpoint ep k)) = routing k"
  "res (snd (irq_unregister_endpoint ep k)) = res k" "band (snd (irq_unregister_endpoint ep k)) = band k"
  "names_dir (snd (irq_unregister_endpoint ep k)) = names_dir k" "ids (snd (irq_unregister_endpoint ep k)) = ids k"
  by (simp_all add: irq_unregister_endpoint_def emit_def Let_def)

text \<open>The state after the primary endpoint is gone, in terms of the operations of each part.\<close>

lemma kill_primary_cases:
  assumes "kill_primary_endpoint cid i rep k = Some k'" "t_endpoint (tasks (sched k) i) = ep" "ep \<noteq> 0"
  shows "\<exists>rx tx r ws r2 g n. kill_endpoint ep (routing k) = Some ((rx, tx), r)
    \<and> drain_call_waiters ep r = Some (ws, r2) \<and> routing k' = r2
    \<and> mark_dead_resource ep (res k) = Some g \<and> release_owner ep (band k) g = Some (n, band k', res k')
    \<and> names_dir k' = snd (unregister_endpoint (task_name (sched k) i) ep (names_dir k))
    \<and> (\<forall>q<MAX_IRQ. irq_table k' q \<noteq> Some ep) \<and> teardown (sched k) (sched k')
    \<and> (\<forall>j. rx = Some j \<or> tx = Some j \<or> j \<in> set ws \<longrightarrow> j \<noteq> i \<longrightarrow> woken (sched k') j)"
proof -
  obtain rx tx r where ke: "kill_endpoint ep (routing k) = Some ((rx, tx), r)"
    using assms by (auto simp: kill_primary_endpoint_def ep_from_u64_def split: Option.bind_splits)
  obtain s1 where s1: "wake_other cid i (- 7) tx (wake_other cid i (- 7) rx (k\<lparr>routing := r\<rparr>))
      = k\<lparr>routing := r, sched := s1\<rparr>" "teardown (sched k) s1"
    "\<forall>j. rx = Some j \<or> tx = Some j \<longrightarrow> j \<noteq> i \<longrightarrow> woken s1 j"
    using wake_pair_cases [of cid i "- 7" tx rx "k\<lparr>routing := r\<rparr>"] by auto
  obtain ws r2 where dr: "drain_call_waiters ep r = Some (ws, r2)"
    using drain_call_waiters_total [OF assms(3), of r] by blast
  obtain s2 where s2: "fold (\<lambda>w. wake_other cid i (- 12) (Some w)) ws (k\<lparr>sched := s1, routing := r2\<rparr>)
      = k\<lparr>routing := r2, sched := s2\<rparr>" "teardown s1 s2" "\<forall>j\<in>set ws. j \<noteq> i \<longrightarrow> woken s2 j"
    using wake_all_cases [of cid i "- 12" ws "k\<lparr>sched := s1, routing := r2\<rparr>"] by auto
  have td: "teardown (sched k) s2" using s1(2) s2(2) by (rule teardown_trans)
  note k' = assms(1) [unfolded kill_primary_endpoint_def ep_from_u64_def assms(2)]
  obtain g n b g2 where g: "mark_dead_resource ep (res k) = Some g" "release_owner ep (band k) g = Some (n, b, g2)"
    using k' assms(3) ke s1(1) dr s2(1) by (auto simp: Let_def split: Option.bind_splits)
  obtain out ns where un: "unregister_endpoint (task_name s2 i) ep (names_dir k) = (out, ns)" by (cases rule: prod.exhaust)
  define k3 where "k3 = k\<lparr>routing := r2, sched := s2, res := g2, band := b, names_dir := ns\<rparr>"
  obtain n1 k4 where k4: "irq_unregister_endpoint ep k3 = (n1, k4)" by (cases rule: prod.exhaust)
  then have k4_def: "k4 = snd (irq_unregister_endpoint ep k3)" by simp
  define k5 where "k5 = (case rep of Some e \<Rightarrow> snd (irq_unregister_endpoint e k4) | None \<Rightarrow> k4)"
  have "k' = k5\<lparr>ids := free_endpoint_id ep (ids k5)\<rparr>"
    using k' assms(3) ke s1(1) dr s2(1) g un k4 by (simp add: Let_def k5_def k3_def)
  moreover have "routing k5 = r2" "res k5 = g2" "band k5 = b" "sched k5 = s2"
    "names_dir k5 = snd (unregister_endpoint (task_name s2 i) ep (names_dir k))"
    by (simp_all add: un k5_def k4_def k3_def irq_unregister_spec split: option.split)
  moreover have "\<forall>q<MAX_IRQ. irq_table k5 q \<noteq> Some ep"
    by (auto simp: k5_def k4_def irq_unregister_spec split: option.split)
  moreover have "\<forall>j. rx = Some j \<or> tx = Some j \<or> j \<in> set ws \<longrightarrow> j \<noteq> i \<longrightarrow> woken s2 j"
    using s1(3) s2(3) teardown_woken [OF s2(2)] by blast
  ultimately show ?thesis using ke dr g td teardown_name [OF td, of i] by (intro exI conjI) simp_all
qed

text \<open>Reporting, quiescing and poking touch neither the capabilities, the names nor the routes.\<close>

lemma send_death_note_routing:
  "routing (send_death_note cid i cause k) = routing k
   \<or> (\<exists>e m. routing (send_death_note cid i cause k) = snd (enqueue_from_interrupt e m (routing k)))"
  by (cases "names_lookup (names_dir k) SUPERVISOR";
      cases "Message_new (death_note (sched k) (task_name (sched k) i) cause)";
      auto simp: send_death_note_def wake_def split: prod.splits Enqueue.splits; metis snd_conv)

lemma send_death_note_spec:
  "teardown (sched k) (sched (send_death_note cid i cause k))" "res (send_death_note cid i cause k) = res k"
  "band (send_death_note cid i cause k) = band k" "names_dir (send_death_note cid i cause k) = names_dir k"
  "irq_table (send_death_note cid i cause k) = irq_table k"
  by (auto simp: send_death_note_def wake_def teardown_wake split: option.split sum.split prod.split Enqueue.split)

lemma kill_report_spec:
  fixes k cid i cause
  defines "k' \<equiv> kill_report cid i cause k"
  shows "teardown (sched k) (sched k')" "res k' = res k" "band k' = band k" "names_dir k' = names_dir k"
    "irq_table k' = irq_table k"
    "routing k' = routing k \<or> (\<exists>e m. routing k' = snd (enqueue_from_interrupt e m (routing k)))"
proof -
  define k1 where "k1 = (if supervised k i then k\<lparr>sched := bump_name_restart (task_name (sched k) i) (sched k)\<rparr> else k)"
  define k2 where "k2 = (if task_hw_kind (sched k1) i = FRAMEBUFFER then emit [ReclaimScreen] k1 else k1)"
  define k3 where "k3 = (if task_watched (sched k2) i then send_death_note cid i cause k2 else k2)"
  have k2: "teardown (sched k) (sched k2)" "res k2 = res k" "band k2 = band k" "names_dir k2 = names_dir k"
    "irq_table k2 = irq_table k" "routing k2 = routing k"
    by (simp_all add: k2_def k1_def emit_def teardown_bump)
  have k': "k' = k3\<lparr>respawn_flag := respawn_flag k'\<rparr>"
    unfolding k'_def kill_report_def Let_def k1_def [symmetric] k2_def [symmetric] k3_def [symmetric] by simp
  have "teardown (sched k2) (sched k3)" by (simp add: k3_def send_death_note_spec(1))
  with k2(1) have td: "teardown (sched k) (sched k3)" by (rule teardown_trans)
  show "teardown (sched k) (sched k')" "res k' = res k" "band k' = band k" "names_dir k' = names_dir k"
    "irq_table k' = irq_table k"
    using td k2 by (subst k'; simp add: k3_def send_death_note_spec)+
  show "routing k' = routing k \<or> (\<exists>e m. routing k' = snd (enqueue_from_interrupt e m (routing k)))"
    using send_death_note_routing [of cid i cause k2] k2(6) by (subst (1 2) k') (simp add: k3_def)
qed

lemma kill_report_routing:
  "call_await (routing (kill_report cid i cause k)) = call_await (routing k)"
  "ep_gone (routing k) ep \<Longrightarrow> ep_gone (routing (kill_report cid i cause k)) ep"
  using kill_report_spec(6) [of cid i cause k] interrupt_keeps_await interrupt_keeps_gone by metis+

lemma kill_quiesce_spec:
  "teardown (sched k) (sched (kill_poke cid i (kill_quiesce i k)))" "res (kill_poke cid i (kill_quiesce i k)) = res k"
  "band (kill_poke cid i (kill_quiesce i k)) = band k" "names_dir (kill_poke cid i (kill_quiesce i k)) = names_dir k"
  "irq_table (kill_poke cid i (kill_quiesce i k)) = irq_table k"
  "routing (kill_poke cid i (kill_quiesce i k)) = routing k"
  by (auto simp: kill_poke_def kill_quiesce_def take_task_hw_bdf_def emit_def Let_def teardown_def same_task_def)

lemma kill_release_spec:
  fixes k cid i
  defines "k' \<equiv> kill_release cid i (kill_reclaim cid i k)"
  shows "res k' = res k" "band k' = band k" "names_dir k' = names_dir k" "irq_table k' = irq_table k"
    "routing k' = routing k" "tasks (sched k') j = (if j = i then (tasks (sched k) i)\<lparr>t_valid := False,
       t_state := (if core_current (sched k) cid = i then t_state (tasks (sched k) i) else TaskDead)\<rparr>
     else tasks (sched k) j)"
  by (simp_all add: k'_def kill_release_def kill_reclaim_def emit_def Let_def)

section \<open>The whole kill\<close>

definition killable :: "Kernel \<Rightarrow> slot \<Rightarrow> bool" where
  "killable k i \<longleftrightarrow> i < MAX_TASKS \<and> t_valid (tasks (sched k) i) \<and> t_state (tasks (sched k) i) \<noteq> TaskDead"

lemma kill_phases:
  assumes "killable k i" "kill_task_by_slot look cid i cause k = Some k'"
  defines "k0 \<equiv> k\<lparr>sched := upd_task i (\<lambda>t. t\<lparr>t_state := TaskDead\<rparr>) (sched k)\<rparr>"
  shows "\<exists>k1 k2 k3. kill_reply_mailbox cid i k0 = Some k1
    \<and> kill_primary_endpoint cid i (ep_from_u64 (t_reply_endpoint (tasks (sched k0) i))) k1 = Some k2
    \<and> k3 = kill_poke cid i (kill_quiesce i (kill_report cid i cause k2))
    \<and> (k' = k3 \<or> k' = kill_release cid i (kill_reclaim cid i k3))"
  using assms
  by (auto simp: kill_task_by_slot_def kill_claim_def killable_def Let_def split: Option.bind_splits if_splits)

lemma woken_release: "woken (sched k) j \<Longrightarrow> j \<noteq> i \<Longrightarrow> woken (sched (kill_release cid i (kill_reclaim cid i k))) j"
  by (simp add: woken_def kill_release_spec)

text \<open>Everything after the teardown of the two endpoints leaves the parts as they are, keeps the task
  dead and every woken task awake.\<close>

lemma kill_tail:
  assumes "k3 = kill_poke cid i (kill_quiesce i (kill_report cid i cause k2))"
    and "k' = k3 \<or> k' = kill_release cid i (kill_reclaim cid i k3)"
  shows "res k' = res k2" "band k' = band k2" "names_dir k' = names_dir k2" "irq_table k' = irq_table k2"
    "call_await (routing k') = call_await (routing k2)" "ep_gone (routing k2) ep \<Longrightarrow> ep_gone (routing k') ep"
    "t_state (tasks (sched k2) i) = TaskDead \<Longrightarrow> t_state (tasks (sched k') i) = TaskDead"
    "woken (sched k2) j \<Longrightarrow> j \<noteq> i \<Longrightarrow> woken (sched k') j"
proof -
  have td: "teardown (sched k2) (sched k3)"
    unfolding assms(1) using kill_report_spec(1) kill_quiesce_spec(1) by (rule teardown_trans)
  show "res k' = res k2" "band k' = band k2" "names_dir k' = names_dir k2" "irq_table k' = irq_table k2"
    "call_await (routing k') = call_await (routing k2)"
    using assms(2) by (auto simp: assms(1) kill_release_spec kill_quiesce_spec kill_report_spec(1-5) kill_report_routing)
  show "ep_gone (routing k') ep" if "ep_gone (routing k2) ep"
    using that assms(2) by (auto simp: assms(1) kill_release_spec kill_quiesce_spec kill_report_spec(1-5) kill_report_routing)
  show "t_state (tasks (sched k') i) = TaskDead" if "t_state (tasks (sched k2) i) = TaskDead"
    using that assms(2) td by (auto simp: kill_release_spec teardown_def same_task_def)
  show "woken (sched k') j" if "woken (sched k2) j" "j \<noteq> i"
    using assms(2) teardown_woken [OF td that(1)] that(2) woken_release by auto
qed

lemma unregister_lookup_gone:
  "names_wf ns \<Longrightarrow> names_lookup (snd (unregister_endpoint nm ep ns)) nm \<noteq> Some ep"
proof -
  assume wf: "names_wf ns"
  show ?thesis
  proof (cases "find_idx (entry_is nm) ns")
    case None
    then show ?thesis using find_idx_None_lookup [OF wf None] by (simp add: unregister_endpoint_def)
  next
    case (Some n)
    then have n: "n < length ns" "entry_is nm (ns ! n)" by (auto dest: find_idx_SomeD)
    show ?thesis
      using Some invalidate_lookup [OF wf n] too_long_lookup [of nm ns] lookup_iff [OF wf, of nm ep] n
        names_wf_uniq [OF wf]
      by (auto simp: unregister_endpoint_def)
  qed
qed

definition claimed :: "slot \<Rightarrow> Kernel \<Rightarrow> Kernel" where
  "claimed i k = k\<lparr>sched := upd_task i (\<lambda>t. t\<lparr>t_state := TaskDead\<rparr>) (sched k)\<rparr>"

lemma claimed_simps [simp]:
  "routing (claimed i k) = routing k" "res (claimed i k) = res k" "names_dir (claimed i k) = names_dir k"
  "t_endpoint (tasks (sched (claimed i k)) i) = t_endpoint (tasks (sched k) i)"
  "t_reply_endpoint (tasks (sched (claimed i k)) i) = t_reply_endpoint (tasks (sched k) i)"
  "t_state (tasks (sched (claimed i k)) i) = TaskDead" "task_name (sched (claimed i k)) i = task_name (sched k) i"
  by (simp_all add: claimed_def task_name_def)

text \<open>A kill that goes through, stage by stage: \<open>k1\<close> after the reply mailbox, \<open>k2\<close> after the primary
  endpoint.\<close>

definition kill_stages ::
  "Kernel \<Rightarrow> nat \<Rightarrow> slot \<Rightarrow> EndpointId \<Rightarrow> Kernel \<Rightarrow> Kernel \<Rightarrow> slot option \<Rightarrow> slot option \<Rightarrow> Routing \<Rightarrow> slot list \<Rightarrow> bool" where
  "kill_stages k cid i ep k1 k2 rx tx rr ws \<longleftrightarrow>
     kill_reply_mailbox cid i (claimed i k) = Some k1 \<and> kill_endpoint ep (routing k1) = Some ((rx, tx), rr)
   \<and> set ws = waiting_on ep rr \<and> table (routing k2) = table rr
   \<and> (\<forall>s. call_await (routing k2) s = (if s \<in> waiting_on ep rr then 0 else call_await rr s))
   \<and> (\<exists>g n. mark_dead_resource ep (res k1) = Some g \<and> release_owner ep (band k1) g = Some (n, band k2, res k2))
   \<and> names_dir k2 = snd (unregister_endpoint (task_name (sched k) i) ep (names_dir k1))
   \<and> (\<forall>q<MAX_IRQ. irq_table k2 q \<noteq> Some ep) \<and> teardown (sched k1) (sched k2)
   \<and> t_state (tasks (sched k1) i) = TaskDead
   \<and> (\<forall>j. rx = Some j \<or> tx = Some j \<or> j \<in> set ws \<longrightarrow> j \<noteq> i \<longrightarrow> woken (sched k2) j)"

lemma kill_stages_exist:
  assumes "killable k i" "kill_task_by_slot look cid i cause k = Some k'"
    and "t_endpoint (tasks (sched k) i) = ep" "ep \<noteq> 0"
  shows "\<exists>k1 k2 k3 rx tx rr ws. kill_stages k cid i ep k1 k2 rx tx rr ws
    \<and> k3 = kill_poke cid i (kill_quiesce i (kill_report cid i cause k2))
    \<and> (k' = k3 \<or> k' = kill_release cid i (kill_reclaim cid i k3))"
proof -
  have im: "i < MAX_TASKS" using assms(1) by (simp add: killable_def)
  obtain k1 k2 k3 where ph: "kill_reply_mailbox cid i (claimed i k) = Some k1"
    "kill_primary_endpoint cid i (ep_from_u64 (t_reply_endpoint (tasks (sched (claimed i k)) i))) k1 = Some k2"
    "k3 = kill_poke cid i (kill_quiesce i (kill_report cid i cause k2))"
    "k' = k3 \<or> k' = kill_release cid i (kill_reclaim cid i k3)"
    using kill_phases [OF assms(1,2)] unfolding claimed_def by blast
  have td: "teardown (sched (claimed i k)) (sched k1)" by (rule kill_reply_spec(1) [OF ph(1) im])
  have "same_task (tasks (sched (claimed i k)) i) (tasks (sched k1) i)" using td by (simp add: teardown_def)
  then have ep1: "t_endpoint (tasks (sched k1) i) = ep" "t_state (tasks (sched k1) i) = TaskDead"
    "task_name (sched k1) i = task_name (sched k) i"
    using assms(3) teardown_name [OF td, of i] by (simp_all add: same_task_def)
  obtain rx tx rr ws g n where p: "kill_endpoint ep (routing k1) = Some ((rx, tx), rr)"
    "drain_call_waiters ep rr = Some (ws, routing k2)" "mark_dead_resource ep (res k1) = Some g"
    "release_owner ep (band k1) g = Some (n, band k2, res k2)"
    "names_dir k2 = snd (unregister_endpoint (task_name (sched k1) i) ep (names_dir k1))"
    "\<forall>q<MAX_IRQ. irq_table k2 q \<noteq> Some ep" "teardown (sched k1) (sched k2)"
    "\<forall>j. rx = Some j \<or> tx = Some j \<or> j \<in> set ws \<longrightarrow> j \<noteq> i \<longrightarrow> woken (sched k2) j"
    using kill_primary_cases [OF ph(2) ep1(1) assms(4)] by blast
  have "set ws = waiting_on ep rr" "table (routing k2) = table rr"
    "\<forall>s. call_await (routing k2) s = (if s \<in> waiting_on ep rr then 0 else call_await rr s)"
    using drain_call_waiters_total [OF assms(4), of rr] p(2) by auto
  then have "kill_stages k cid i ep k1 k2 rx tx rr ws"
    using ph(1) p ep1 by (simp add: kill_stages_def)
  then show ?thesis using ph(3,4) by blast
qed

lemma kill_severs_spec:
  assumes "killable k i" "kill_task_by_slot look cid i cause k = Some k'"
    and "t_endpoint (tasks (sched k) i) = ep" "ep \<noteq> 0"
  shows "t_state (tasks (sched k') i) = TaskDead" "ep_gone (routing k') ep"
    "get_record (res k) ep = Some r \<Longrightarrow> dead_record (res k') (rec_generation r) ep"
    "names_wf (names_dir k) \<Longrightarrow> names_lookup (names_dir k') (task_name (sched k) i) \<noteq> Some ep"
    "\<forall>q<MAX_IRQ. irq_table k' q \<noteq> Some ep" "\<forall>n<DELEGATED_CAP. owner (band k') n \<noteq> Some ep"
    "\<forall>j<MAX_TASKS. call_await (routing k') j \<noteq> ep"
proof -
  have im: "i < MAX_TASKS" using assms(1) by (simp add: killable_def)
  obtain k1 k2 k3 rx tx rr ws where st: "kill_stages k cid i ep k1 k2 rx tx rr ws"
    and tl: "k3 = kill_poke cid i (kill_quiesce i (kill_report cid i cause k2))"
      "k' = k3 \<or> k' = kill_release cid i (kill_reclaim cid i k3)"
    using kill_stages_exist [OF assms] by blast
  note t = kill_tail [OF tl] and st = st [unfolded kill_stages_def]
  have r0: "kill_reply_mailbox cid i (claimed i k) = Some k1" using st by blast
  note r1 = kill_reply_spec [OF r0 im]
  obtain g n where g: "mark_dead_resource ep (res k1) = Some g"
    "release_owner ep (band k1) g = Some (n, band k2, res k2)" using st by blast
  show "t_state (tasks (sched k') i) = TaskDead"
    using t(7) st by (auto simp: teardown_def same_task_def)
  show "ep_gone (routing k') ep"
    using t(6) st kill_endpoint_gone(1) [of ep "routing k1" _ rr] ep_gone_table [of "routing k2" rr] by blast
  show "names_lookup (names_dir k') (task_name (sched k) i) \<noteq> Some ep" if "names_wf (names_dir k)"
    using unregister_lookup_gone [OF that] t(3) st r1(3) by simp
  show "\<forall>q<MAX_IRQ. irq_table k' q \<noteq> Some ep" using t(4) st by simp
  show "\<forall>n<DELEGATED_CAP. owner (band k') n \<noteq> Some ep"
    using release_owner_loop_spec [OF g(2) [unfolded release_owner_def]] t(2) by (auto split: if_splits)
  show "\<forall>j<MAX_TASKS. call_await (routing k') j \<noteq> ep"
    using t(5) st assms(4) by (auto simp: waiting_on_def)
  show "dead_record (res k') (rec_generation r) ep" if rk: "get_record (res k) ep = Some r"
  proof -
    obtain r' where r': "get_record (res k1) ep = Some r'" "rec_generation r \<le> rec_generation r'"
      using r1(5) rk by (auto simp: gens_up_def)
    have "dead_record (res k2) (rec_generation r') ep"
      using release_owner_keeps_dead [OF g(2) mark_dead_record [OF g(1) r'(1)]] .
    then show ?thesis using r'(2) t(1) by (auto simp: dead_record_def)
  qed
qed

lemma kill_wakes_spec:
  assumes "killable k i" "kill_task_by_slot look cid i cause k = Some k'"
    and "t_endpoint (tasks (sched k) i) = ep" "ep \<noteq> 0" "j \<noteq> i"
    and w: "blocked_on (routing k) ep j
       \<or> t_reply_endpoint (tasks (sched k) i) = e \<and> e \<noteq> 0 \<and> blocked_on (routing k) e j
       \<or> j < MAX_TASKS \<and> call_await (routing k) j = ep"
  shows "woken (sched k') j"
proof -
  have im: "i < MAX_TASKS" using assms(1) by (simp add: killable_def)
  obtain k1 k2 k3 rx tx rr ws where st: "kill_stages k cid i ep k1 k2 rx tx rr ws"
    and tl: "k3 = kill_poke cid i (kill_quiesce i (kill_report cid i cause k2))"
      "k' = k3 \<or> k' = kill_release cid i (kill_reclaim cid i k3)"
    using kill_stages_exist [OF assms(1-4)] by blast
  have ke: "kill_endpoint ep (routing k1) = Some ((rx, tx), rr)" and ws: "set ws = waiting_on ep rr"
    and td: "teardown (sched k1) (sched k2)" and r0: "kill_reply_mailbox cid i (claimed i k) = Some k1"
    and wk: "\<forall>j. rx = Some j \<or> tx = Some j \<or> j \<in> set ws \<longrightarrow> j \<noteq> i \<longrightarrow> woken (sched k2) j"
    using st unfolding kill_stages_def by blast+
  note r1 = kill_reply_spec [OF r0 im]
  have prim: "woken (sched k2) j" if "blocked_on (routing k1) ep j"
    using kill_endpoint_blocked [OF ke that] wk assms(5) by auto
  have early: "woken (sched k2) j" if "woken (sched k1) j" using teardown_woken [OF td that] .
  have bl: "blocked_on (routing k) x j \<Longrightarrow> (if t_reply_endpoint (tasks (sched k) i) = x \<and> x \<noteq> 0
      then woken (sched k1) j else blocked_on (routing k1) x j)" for x
    using r1(7) [of x j] assms(5) by simp
  have aw: "woken (sched k2) j" if "j < MAX_TASKS" "call_await (routing k) j = ep"
    using that assms(5) r1(6) kill_endpoint_gone(2) [OF ke] ws wk by (auto simp: waiting_on_def)
  have "woken (sched k2) j" using w bl [of ep] bl [of e] prim early aw by metis
  then show ?thesis using kill_tail(8) [OF tl] assms(5) by blast
qed

end
