(* ===== verification/Kill_Total.thy ===== *)
theory Kill_Total
  imports Kill_Props
begin

text \<open>
  Killing never panics while generation counters have room, the wait for other cores is bounded, and
  \<open>kill_by_name\<close> ends with no live task of the name.
\<close>

section \<open>Room in the generation counters\<close>

definition gen_below :: "GlobalResourceTable \<Rightarrow> nat \<Rightarrow> bool" where
  "gen_below g m \<longleftrightarrow> (\<forall>rid r. get_record g rid = Some r \<longrightarrow> unat (gen_val (rec_generation r)) < m)"

definition tab_below :: "Routing \<Rightarrow> nat \<Rightarrow> bool" where
  "tab_below r m \<longleftrightarrow> (\<forall>e\<in>set (table r). unat (gen_val (re_gen e)) < m)"

definition room :: "nat \<Rightarrow> Kernel \<Rightarrow> bool" where
  "room m k \<longleftrightarrow> gen_below (res k) m \<and> tab_below (routing k) m"

lemma Generation_bump_room:
  assumes "unat (gen_val g) < m" "m < 2 ^ 32"
  shows "\<exists>h. Generation_bump g = Some h \<and> unat (gen_val h) < Suc m"
proof -
  have "gen_val g \<noteq> - 1" using assms by (auto simp: unat_minus_one_eq)
  then obtain h where h: "Generation_bump g = Some h" using Generation_bump_None [of g] by (cases "Generation_bump g") auto
  then show ?thesis using Generation_bump_Some [OF h] assms(1) by simp
qed

lemma overflow_bump_total:
  assumes "\<And>k r. find (\<lambda>(k, _). k = rid) ov = Some (k, r) \<Longrightarrow> \<exists>h. Generation_bump (rec_generation r) = Some h"
  shows "\<exists>ov'. overflow_bump rid l ov = Some ov'"
  using assms
proof (induction rid l ov rule: overflow_bump.induct)
  case (2 rid l k r rest)
  show ?case
  proof (cases "k = rid")
    case True
    then obtain h where "Generation_bump (rec_generation r) = Some h" using "2.prems" [of k r] by auto
    then show ?thesis using True by simp
  next
    case False
    then obtain ov' where "overflow_bump rid l rest = Some ov'" using "2.IH" "2.prems" by auto
    then show ?thesis using False by simp
  qed
qed simp

lemma bump_generation_total:
  assumes "\<And>r. get_record g rid = Some r \<Longrightarrow> \<exists>h. Generation_bump (rec_generation r) = Some h"
  shows "\<exists>g'. bump_generation rid l g = Some g'"
proof (cases "rid < DIRECT_CAP")
  case True
  then show ?thesis using assms by (fastforce simp: bump_generation_def get_record_def)
next
  case False
  then have "\<exists>ov. overflow_bump rid l (overflow g) = Some ov"
    using assms by (intro overflow_bump_total) (simp add: get_record_def)
  then show ?thesis using False by (auto simp: bump_generation_def)
qed

text \<open>Bumping one record of a table whose other records are below \<open>m\<close>.\<close>

lemma bump_bound:
  assumes "bump_generation rid l g = Some g'" "\<And>j r. get_record g j = Some r \<Longrightarrow> j \<noteq> rid \<Longrightarrow> unat (gen_val (rec_generation r)) < m"
    and "\<And>r. get_record g rid = Some r \<Longrightarrow> Suc (unat (gen_val (rec_generation r))) < m"
  shows "gen_below g' m"
  unfolding gen_below_def
proof (intro allI impI)
  fix j r assume r: "get_record g' j = Some r"
  show "unat (gen_val (rec_generation r)) < m"
  proof (cases "j = rid")
    case False
    then show ?thesis using r get_record_bump_other [OF assms(1) False] assms(2) by simp
  next
    case True
    then obtain r0 where r0: "get_record g rid = Some r0"
      using r get_record_bump_absent [OF assms(1)] by (cases "get_record g rid") auto
    obtain h where "Generation_bump (rec_generation r0) = Some h"
      "get_record g' rid = Some \<lparr>rec_generation = h, rec_liveness = l\<rparr>" using get_record_bump_same [OF assms(1) r0] .
    then show ?thesis using True r Generation_bump_Some assms(3) [OF r0] by auto
  qed
qed

lemma mark_dead_room:
  assumes "gen_below g m" "m < 2 ^ 32"
  shows "\<exists>g'. mark_dead_resource rid g = Some g' \<and> gen_below g' (Suc m)"
proof -
  have "\<exists>g'. bump_generation rid Dead g = Some g'"
    by (rule bump_generation_total) (use assms Generation_bump_room in \<open>fastforce simp: gen_below_def\<close>)
  then obtain g' where g': "bump_generation rid Dead g = Some g'" by blast
  have "gen_below g' (Suc m)"
    by (rule bump_bound [OF g']) (use assms(1) in \<open>auto simp: gen_below_def less_SucI\<close>)
  then show ?thesis using g' by (simp add: mark_dead_resource_def)
qed

lemma release_owner_loop_total:
  assumes "gen_below g (Suc m)" "m < 2 ^ 32"
    and "\<And>rid r. rid \<in> owned_by who b \<Longrightarrow> get_record g rid = Some r \<Longrightarrow> unat (gen_val (rec_generation r)) < m"
  shows "\<exists>x b' g'. release_owner_loop who n b g = Some (x, b', g') \<and> gen_below g' (Suc m)"
  using assms
proof (induction who n b g rule: release_owner_loop.induct)
  case (1 who n b g)
  show ?case
  proof (cases "Band_take_one_owned who b")
    case None
    then show ?thesis using "1.prems"(1) by (simp add: release_owner_loop.simps)
  next
    case (Some p)
    obtain i b1 where p: "p = (i, b1)" by (cases p)
    note ob = owned_by_take [OF Some [unfolded p]]
    have own: "unat (gen_val (rec_generation r)) < m" if "get_record g (id_of i) = Some r" for r
      using "1.prems"(3) [OF ob(2) that] .
    have "\<exists>g1. bump_generation (id_of i) Dead g = Some g1"
      by (rule bump_generation_total) (use own "1.prems"(2) Generation_bump_room in blast)
    then obtain g1 where g1: "bump_generation (id_of i) Dead g = Some g1" by blast
    have b1: "gen_below g1 (Suc m)"
      by (rule bump_bound [OF g1]) (use own "1.prems"(1) in \<open>auto simp: gen_below_def\<close>)
    have rest: "unat (gen_val (rec_generation r)) < m"
      if "rid \<in> owned_by who b1" "get_record g1 rid = Some r" for rid r
      using that ob(1) get_record_bump_other [OF g1, of rid] "1.prems"(3) by auto
    have "\<exists>x b' g'. release_owner_loop who (n + 1) b1 g1 = Some (x, b', g') \<and> gen_below g' (Suc m)"
      by (rule "1.IH" [OF Some p [symmetric]]) (use g1 b1 "1.prems"(2) rest in \<open>auto simp: mark_dead_resource_def\<close>)
    then show ?thesis
      using Some p g1 by (subst release_owner_loop.simps) (simp add: mark_dead_resource_def)
  qed
qed

lemma release_owner_room:
  assumes "gen_below g m" "m < 2 ^ 32"
  shows "\<exists>x b' g'. release_owner who b g = Some (x, b', g') \<and> gen_below g' (Suc m)"
  unfolding release_owner_def
  by (rule release_owner_loop_total) (use assms in \<open>auto simp: gen_below_def less_SucI\<close>)

lemma kill_endpoint_room:
  assumes "tab_below r m" "m < 2 ^ 32"
  shows "\<exists>w r'. kill_endpoint ep r = Some (w, r') \<and> tab_below r' (Suc m)"
proof (cases "find_index (table r) ep")
  case None
  then show ?thesis using assms(1) by (auto simp: kill_endpoint_def tab_below_def less_SucI)
next
  case (Some n)
  then have "table r ! n \<in> set (table r)" using find_index_SomeD(1) by simp
  then obtain h where "Generation_bump (re_gen (table r ! n)) = Some h" "unat (gen_val h) < Suc m"
    using Generation_bump_room assms by (fastforce simp: tab_below_def)
  then show ?thesis using Some assms(1)
    by (fastforce simp: kill_endpoint_def Let_def tab_below_def dest!: set_update_subset_insert [THEN subsetD])
qed

section \<open>Every phase returns\<close>

lemma room_Suc: "room m k \<Longrightarrow> room (Suc m) k"
  by (auto simp: room_def gen_below_def tab_below_def less_SucI)

lemma wake_pair_fields:
  "res (wake_other c i r tx (wake_other c i r rx k)) = res k"
  "band (wake_other c i r tx (wake_other c i r rx k)) = band k"
  "routing (wake_other c i r tx (wake_other c i r rx k)) = routing k"
  using wake_pair_cases [of c i r tx rx k] by auto

lemma wake_all_fields:
  "res (fold (\<lambda>w. wake_other c i r (Some w)) ws k) = res k"
  "band (fold (\<lambda>w. wake_other c i r (Some w)) ws k) = band k"
  using wake_all_cases [of c i r ws k] by auto

lemma tab_below_table: "table r' = table r \<Longrightarrow> tab_below r' m = tab_below r m"
  by (simp add: tab_below_def)

lemma kill_reply_total:
  assumes "room m k" "m < 2 ^ 32"
  shows "\<exists>k'. kill_reply_mailbox cid i k = Some k' \<and> room (Suc m) k'"
proof (cases "t_reply_endpoint (tasks (sched k) i) = 0")
  case True
  have "tab_below (clear_call_await i (routing k)) m"
    using assms(1) by (simp add: room_def clear_call_await_def tab_below_def)
  then show ?thesis using True assms(1)
    by (auto simp: kill_reply_mailbox_def ep_from_u64_def emit_def room_def gen_below_def tab_below_def less_SucI)
next
  case False
  let ?rep = "t_reply_endpoint (tasks (sched k) i)" and ?r0 = "clear_call_await i (routing k)"
  have r0: "tab_below ?r0 m" using assms(1) by (simp add: room_def clear_call_await_def tab_below_def)
  obtain rx tx r where ke: "kill_endpoint ?rep ?r0 = Some ((rx, tx), r)" "tab_below r (Suc m)"
    using kill_endpoint_room [OF r0 assms(2)] by (metis prod.exhaust)
  obtain g where g: "mark_dead_resource ?rep (res k) = Some g" "gen_below g (Suc m)"
    using mark_dead_room [of "res k" m ?rep] assms by (auto simp: room_def)
  show ?thesis
    using False ke g
    by (auto simp: kill_reply_mailbox_def ep_from_u64_def emit_def Let_def room_def wake_pair_fields
        bank_mailbox_credit_def tab_below_def)
qed

lemma kill_primary_total:
  assumes "room m k" "Suc m < 2 ^ 32"
  shows "\<exists>k'. kill_primary_endpoint cid i rep k = Some k' \<and> room (Suc (Suc m)) k'"
proof (cases "t_endpoint (tasks (sched k) i) = 0")
  case True
  then show ?thesis using assms(1) room_Suc by (simp add: kill_primary_endpoint_def ep_from_u64_def)
next
  case False
  let ?ep = "t_endpoint (tasks (sched k) i)"
  have m: "m < 2 ^ 32" using assms(2) by simp
  obtain rx tx r where ke: "kill_endpoint ?ep (routing k) = Some ((rx, tx), r)" "tab_below r (Suc m)"
    using kill_endpoint_room [OF _ m] assms(1) unfolding room_def by (metis prod.exhaust)
  obtain ws r2 where dr: "drain_call_waiters ?ep r = Some (ws, r2)" "table r2 = table r"
    using drain_call_waiters_total [OF False, of r] by auto
  obtain g where g: "mark_dead_resource ?ep (res k) = Some g" "gen_below g (Suc m)"
    using mark_dead_room [of "res k" m ?ep] m assms(1) by (auto simp: room_def)
  obtain x b g2 where g2: "release_owner ?ep (band k) g = Some (x, b, g2)" "gen_below g2 (Suc (Suc m))"
    using release_owner_room [OF g(2) assms(2)] by blast
  define k2 where "k2 = fold (\<lambda>w. wake_other cid i (- 12) (Some w)) ws
    (wake_other cid i (- 7) tx (wake_other cid i (- 7) rx (k\<lparr>routing := r\<rparr>))\<lparr>routing := r2\<rparr>)"
  have k2: "res k2 = res k" "band k2 = band k" "routing k2 = r2"
    using wake_all_cases [of cid i "- 12" ws "wake_other cid i (- 7) tx (wake_other cid i (- 7) rx (k\<lparr>routing := r\<rparr>))\<lparr>routing := r2\<rparr>"]
    by (auto simp: k2_def wake_pair_fields)
  obtain out ns where un: "unregister_endpoint (task_name (sched k2) i) ?ep (names_dir k2) = (out, ns)"
    by (cases rule: prod.exhaust)
  obtain n1 k4 where k4: "irq_unregister_endpoint ?ep (k2\<lparr>res := g2, band := b, names_dir := ns\<rparr>) = (n1, k4)"
    by (cases rule: prod.exhaust)
  define k5 where "k5 = (case rep of Some e \<Rightarrow> snd (irq_unregister_endpoint e k4) | None \<Rightarrow> k4)"
  have "routing k4 = r2" "res k4 = g2"
    using irq_unregister_spec(3,4) [of ?ep "k2\<lparr>res := g2, band := b, names_dir := ns\<rparr>"] k4 k2 by simp_all
  then have k5: "routing k5 = r2" "res k5 = g2" by (simp_all add: k5_def irq_unregister_spec split: option.split)
  have "kill_primary_endpoint cid i rep k = Some (k5\<lparr>ids := free_endpoint_id ?ep (ids k5)\<rparr>)"
    using False ke(1) dr(1) g(1) g2(1) un k4 k2
    by (simp add: kill_primary_endpoint_def ep_from_u64_def Let_def wake_pair_fields k2_def [symmetric] k5_def)
  moreover have "tab_below r2 (Suc (Suc m))" using ke(2) dr(2) by (auto simp: tab_below_def less_SucI)
  ultimately show ?thesis using k5 g2(2) by (auto simp: room_def)
qed

lemma interrupt_room: "tab_below r m \<Longrightarrow> tab_below (snd (enqueue_from_interrupt e msg r)) m"
  using find_index_SomeD(1) [of "table r" e]
  by (auto simp: tab_below_def enqueue_from_interrupt_state deliver_entry_frame split: option.splits
      dest!: set_update_subset_insert [THEN subsetD])

lemma kill_report_room: "room m k \<Longrightarrow> room m (kill_report cid i cause k)"
  using kill_report_spec(2,6) [of cid i cause k] interrupt_room by (auto simp: room_def)

text \<open>A kill returns when every generation is more than three below the maximum.\<close>

lemma kill_task_total:
  assumes "room m k" "m + 2 < 2 ^ 32"
  shows "\<exists>k'. kill_task_by_slot look cid i cause k = Some k' \<and> room (m + 3) k'"
proof (cases "kill_claim i k")
  case None
  have "room (m + 3) k" using room_Suc [OF room_Suc [OF room_Suc [OF assms(1)]]] by (simp add: numeral_3_eq_3)
  then show ?thesis using None by (simp add: kill_task_by_slot_def)
next
  case (Some k0)
  then have "room m k0" using assms(1) kill_claim_SomeD(4) [OF Some] by (simp add: room_def)
  then obtain k1 where k1: "kill_reply_mailbox cid i k0 = Some k1" "room (Suc m) k1"
    using kill_reply_total [of m k0 cid i] assms(2) by auto
  have "Suc (Suc m) < 2 ^ 32" using assms(2) by simp
  from kill_primary_total [OF k1(2) this] obtain k2 where
    k2: "kill_primary_endpoint cid i (ep_from_u64 (t_reply_endpoint (tasks (sched k0) i))) k1 = Some k2"
    "room (m + 3) k2"
    by (metis numeral_3_eq_3 add_Suc_right add.right_neutral)
  define k3 where "k3 = kill_poke cid i (kill_quiesce i (kill_report cid i cause k2))"
  have "room (m + 3) k3"
    using kill_report_room [OF k2(2)] by (simp add: room_def k3_def kill_quiesce_spec)
  then have "room (m + 3) (kill_release cid i (kill_reclaim cid i k3))" "room (m + 3) k3"
    by (simp_all add: room_def kill_release_spec)
  then show ?thesis using Some k1(1) k2(1) by (simp add: kill_task_by_slot_def Let_def k3_def [symmetric])
qed

lemma kill_task_sched:
  assumes "killable k i" "kill_task_by_slot look cid i cause k = Some k'"
  shows "t_state (tasks (sched k') i) = TaskDead" "j \<noteq> i \<Longrightarrow> same_task (tasks (sched k) j) (tasks (sched k') j)"
proof -
  have im: "i < MAX_TASKS" using assms(1) by (simp add: killable_def)
  obtain k1 k2 k3 where ph: "kill_reply_mailbox cid i (claimed i k) = Some k1"
    "kill_primary_endpoint cid i (ep_from_u64 (t_reply_endpoint (tasks (sched (claimed i k)) i))) k1 = Some k2"
    "k3 = kill_poke cid i (kill_quiesce i (kill_report cid i cause k2))"
    "k' = k3 \<or> k' = kill_release cid i (kill_reclaim cid i k3)"
    using kill_phases [OF assms] unfolding claimed_def by blast
  have "teardown (sched k1) (sched k2)"
  proof (cases "t_endpoint (tasks (sched k1) i) = 0")
    case True
    then show ?thesis using ph(2) by (simp add: kill_primary_endpoint_def ep_from_u64_def)
  next
    case False
    then show ?thesis using kill_primary_cases [OF ph(2) refl False] by blast
  qed
  then have td: "teardown (sched (claimed i k)) (sched k2)"
    using kill_reply_spec(1) [OF ph(1) im] teardown_trans by blast
  have "teardown (sched k2) (sched k3)"
    unfolding ph(3) using kill_report_spec(1) kill_quiesce_spec(1) by (rule teardown_trans)
  then have td3: "teardown (sched (claimed i k)) (sched k3)" using td teardown_trans by blast
  have "same_task (tasks (sched (claimed i k)) i) (tasks (sched k2) i)" using td by (simp add: teardown_def)
  then have "t_state (tasks (sched k2) i) = TaskDead" by (simp add: same_task_def)
  then show "t_state (tasks (sched k') i) = TaskDead" by (rule kill_tail(7) [OF ph(3,4)])
  show "same_task (tasks (sched k) j) (tasks (sched k') j)" if "j \<noteq> i"
  proof -
    have "same_task (tasks (sched (claimed i k)) j) (tasks (sched k3) j)" using td3 by (simp add: teardown_def)
    then show ?thesis using that ph(4) by (auto simp: claimed_def kill_release_spec)
  qed
qed

section \<open>Killing by name\<close>

definition live_named :: "Sched \<Rightarrow> name_bytes \<Rightarrow> slot set" where
  "live_named s nm = {j. j < MAX_TASKS \<and> live_task s j \<and> t_name (tasks s j) = nm}"

lemma finite_live_named [simp]: "finite (live_named s nm)" by (simp add: live_named_def)

lemma find_task_by_name_cases:
  "find_task_by_name s nm = None \<Longrightarrow> live_named s nm = {}"
  "find_task_by_name s nm = Some i \<Longrightarrow> i \<in> live_named s nm"
proof -
  have ex: "j < MAX_TASKS \<Longrightarrow> j \<noteq> 2 ^ 64 - 1" for j by (simp add: MAX_TASKS_def)
  show "live_named s nm = {}" if "find_task_by_name s nm = None"
    using that ex by (auto simp: find_task_by_name_def find_task_by_name_excluding_def scan_None live_named_def live_task_def)
  show "i \<in> live_named s nm" if "find_task_by_name s nm = Some i"
    using scan_SomeD [OF that [unfolded find_task_by_name_def find_task_by_name_excluding_def]]
    by (auto simp: live_named_def live_task_def)
qed

lemma kill_by_name_loop_total:
  assumes "room m k" "m + 3 * card (live_named (sched k) nm) < 2 ^ 32"
  shows "\<exists>k'. kill_by_name_loop look cid nm cause found k
      = Some (found \<or> live_named (sched k) nm \<noteq> {}, k') \<and> live_named (sched k') nm = {}"
  using assms
proof (induction "card (live_named (sched k) nm)" arbitrary: k m found rule: less_induct)
  case less
  show ?case
  proof (cases "find_task_by_name (sched k) nm")
    case None
    then show ?thesis using find_task_by_name_cases(1) by (subst kill_by_name_loop.simps) simp
  next
    case (Some i)
    note i = find_task_by_name_cases(2) [OF Some]
    then have pos: "card (live_named (sched k) nm) > 0" by (auto simp: card_gt_0_iff)
    obtain k1 where k1: "kill_task_by_slot look cid i cause k = Some k1" "room (m + 3) k1"
      using kill_task_total [OF less.prems(1)] less.prems(2) pos by fastforce
    have "killable k i" using i by (simp add: killable_def live_named_def live_task_def)
    note ks = kill_task_sched [OF this k1(1)]
    have sub: "live_named (sched k1) nm \<subseteq> live_named (sched k) nm - {i}"
      using ks by (fastforce simp: live_named_def live_task_def same_task_def)
    then have c: "card (live_named (sched k1) nm) < card (live_named (sched k) nm)"
      using i by (metis card_Diff1_less card_mono finite_Diff finite_live_named le_less_trans)
    then have "m + 3 + 3 * card (live_named (sched k1) nm) < 2 ^ 32" using less.prems(2) by simp
    from less.hyps [OF c k1(2) this, of True] obtain k'
      where "kill_by_name_loop look cid nm cause True k1 = Some (True, k')" "live_named (sched k') nm = {}" by auto
    then show ?thesis using Some k1(1) i by (subst kill_by_name_loop.simps) auto
  qed
qed

section \<open>The wait for another core\<close>

lemma wait_core_ends:
  "ext \<le> MAX_WAIT_EXTENSIONS \<Longrightarrow> MAX_WAIT_EXTENSIONS < ext + length (filter s_over xs) \<Longrightarrow> wait_core ext xs \<noteq> StillWaiting"
  by (induction ext xs rule: wait_core.induct) (auto simp: MAX_WAIT_EXTENSIONS_def)

lemma wait_core_LetGo: "wait_core ext xs = LetGo \<Longrightarrow> \<exists>x\<in>set xs. \<not> s_using x"
  by (induction ext xs rule: wait_core.induct) (auto split: if_splits)

lemma wait_core_Abandoned:
  "wait_core ext xs = Abandoned \<Longrightarrow> (\<exists>x\<in>set xs. s_using x \<and> s_over x \<and> \<not> s_progress x)
     \<or> MAX_WAIT_EXTENSIONS < ext + length (filter (\<lambda>x. s_using x \<and> s_over x) xs)"
  by (induction ext xs rule: wait_core.induct) (auto split: if_splits)

section \<open>Properties of ending a task\<close>

text \<open>C4: a task that has been killed cannot be reached. Its state is Dead; every send to and receive from its
  endpoint is refused whatever generation the capability carries; every capability on the endpoint minted up to
  then fails as a dead endpoint; its name no longer resolves to it; no interrupt line is routed to it; and it
  owns no delegated resource.\<close>

theorem kill_severs:
  assumes "killable k i" "kill_task_by_slot look cid i cause k = Some k'"
    and "t_endpoint (tasks (sched k) i) = ep" "ep \<noteq> 0"
    and "get_record (res k) ep = Some r" "names_wf (names_dir k)"
  shows "t_state (tasks (sched k') i) = TaskDead
    \<and> fst (routing_enqueue ep m g s (routing k')) = Inl IpcEndpointDead
    \<and> fst (routing_dequeue ep g s (routing k')) = Inl IpcEndpointDead
    \<and> (slot_cap t n = Some c \<and> resource_id c = ep \<and> generation c \<le> rec_generation r
         \<longrightarrow> CapTable_get (res k') t n right = Inl CapEndpointDead)
    \<and> names_lookup (names_dir k') (task_name (sched k) i) \<noteq> Some ep
    \<and> (\<forall>q<MAX_IRQ. irq_table k' q \<noteq> Some ep) \<and> (\<forall>j<DELEGATED_CAP. owner (band k') j \<noteq> Some ep)"
proof -
  note sp = kill_severs_spec [OF assms(1-4)]
  have "CapTable_get (res k') t n right = Inl CapEndpointDead"
    if "slot_cap t n = Some c" "resource_id c = ep" "generation c \<le> rec_generation r"
    using dead_record_refuses [OF _ that(1,3)] sp(3) [OF assms(5)] that(2) by simp
  then show ?thesis using sp ep_gone_refuses [OF sp(2)] assms(6) by blast
qed

text \<open>A kernel with one task, slot 0, that serves endpoint 100 and is called by slot 3.\<close>

definition wit_kernel :: Kernel where
  "wit_kernel = \<lparr>sched = wit_sched, routing = set_call_await 3 100 wit_routing,
     res = GlobalResourceTable_new\<lparr>present := (\<lambda>_. False)(100 := True)\<rparr>, band = Band_new,
     names_dir = wit_names, ids = EndpointIds_init, irq_table = (\<lambda>_. None), hw = [], respawn_flag = False,
     death_unheard = 0, death_dropped = 0, pending_kstack = (\<lambda>_. []), pending_pml4 = (\<lambda>_. 0),
     mem = BitmapAllocator_new, gen_counter = 1, spawn_rr = 0, dma_kept = (\<lambda>_. 0), msi_next = 0,
     msi_vec = (\<lambda>_. 0)\<rparr>"

lemma wit_kernel_facts:
  "killable wit_kernel 0" "t_endpoint (tasks (sched wit_kernel) 0) = 100"
  "get_record (res wit_kernel) 100 = Some EMPTY_RECORD" "names_wf (names_dir wit_kernel)"
  "call_await (routing wit_kernel) 3 = 100"
  by (simp_all add: wit_kernel_def killable_def wit_sched_def wit_task_def MAX_TASKS_def get_record_def
      GlobalResourceTable_new_def DIRECT_CAP_def wit_names_wf set_call_await_def)

lemma wit_kernel_room: "room 2 wit_kernel"
proof -
  have "gen_below (res wit_kernel) 2"
    by (auto simp: gen_below_def wit_kernel_def get_record_def GlobalResourceTable_new_def EMPTY_RECORD_def
        INITIAL_def split: if_splits)
  moreover have "tab_below (routing wit_kernel) 2"
  proof -
    have "unat (gen_val (re_gen e)) < 2" if "e \<in> set (table wit_routing)" for e
      using that
      by (auto simp: wit_routing_def fresh_entry_def Routing_init_def RoutingEntry_empty_def INITIAL_def
          dest!: set_update_subset_insert [THEN subsetD])
    then show ?thesis by (simp add: tab_below_def wit_kernel_def set_call_await_def)
  qed
  ultimately show ?thesis by (simp add: room_def)
qed

theorem kill_severs_witness:
  "\<exists>k'. kill_task_by_slot (\<lambda>_. []) 1 0 (Exited 0) wit_kernel = Some k'
     \<and> fst (routing_enqueue 100 (wit_msg 5) (Generation 1) None (routing k')) = Inl IpcEndpointDead"
proof -
  obtain k' where "kill_task_by_slot (\<lambda>_. []) 1 0 (Exited 0) wit_kernel = Some k'"
    using kill_task_total [OF wit_kernel_room, of "\<lambda>_. []" 1 0 "Exited 0"] by auto
  then show ?thesis
    using kill_severs [OF wit_kernel_facts(1) _ wit_kernel_facts(2) _ wit_kernel_facts(3,4)] by auto
qed



text \<open>C31: killing by name ends, never panics while the generation counters have room for three steps per task
  of that name, leaves no live task with the name, and says whether there was one.\<close>

theorem kill_by_name_complete:
  assumes "room m k" "m + 3 * card (live_named (sched k) nm) < 2 ^ 32"
  shows "\<exists>k'. kill_by_name look cid nm cause k = Some (live_named (sched k) nm \<noteq> {}, k')
    \<and> find_task_by_name (sched k') nm = None"
proof -
  obtain k' where "kill_by_name_loop look cid nm cause False k = Some (live_named (sched k) nm \<noteq> {}, k')"
    "live_named (sched k') nm = {}"
    using kill_by_name_loop_total [OF assms, of look cid cause False] by auto
  then show ?thesis
    using find_task_by_name_cases(2) [of "sched k'" nm]
    by (cases "find_task_by_name (sched k') nm") (auto simp: kill_by_name_def)
qed

theorem kill_by_name_complete_witness:
  "\<exists>k'. kill_by_name (\<lambda>_. []) 1 [] (Exited 0) wit_kernel = Some (True, k') \<and> find_task_by_name (sched k') [] = None"
proof -
  have "card (live_named (sched wit_kernel) []) \<le> card {..<MAX_TASKS}"
    by (rule card_mono) (auto simp: live_named_def)
  then have "2 + 3 * card (live_named (sched wit_kernel) []) < 2 ^ 32" by (simp add: MAX_TASKS_def)
  moreover have "0 \<in> live_named (sched wit_kernel) []"
    by (simp add: live_named_def live_task_def wit_kernel_def wit_sched_def wit_task_def MAX_TASKS_def)
  ultimately show ?thesis
    using kill_by_name_complete [OF wit_kernel_room, of "[]" "\<lambda>_. []" 1 "Exited 0"] by auto
qed

text \<open>The killer's wait for another core is bounded. Whatever that core does, the loop ends by the time five
  windows have passed; it goes on to reclaim only after a pass that saw the core off the task; and it gives
  up only on a core that made no progress during a whole window, or after five full windows.\<close>

theorem kill_wait_bounded:
  "(5 \<le> length (filter s_over xs) \<longrightarrow> wait_core 0 xs \<noteq> StillWaiting)
   \<and> (wait_core 0 xs = LetGo \<longrightarrow> (\<exists>x\<in>set xs. \<not> s_using x))
   \<and> (wait_core 0 xs = Abandoned \<longrightarrow> (\<exists>x\<in>set xs. s_using x \<and> s_over x \<and> \<not> s_progress x)
        \<or> 5 \<le> length (filter (\<lambda>x. s_using x \<and> s_over x) xs))"
  using wait_core_ends [of 0 xs] wait_core_LetGo [of 0 xs] wait_core_Abandoned [of 0 xs]
  by (auto simp: MAX_WAIT_EXTENSIONS_def)

theorem kill_wait_bounded_witness:
  "wait_core 0 (replicate 5 \<lparr>s_using = True, s_over = True, s_progress = True\<rparr>) \<noteq> StillWaiting"
  using kill_wait_bounded [of "replicate 5 \<lparr>s_using = True, s_over = True, s_progress = True\<rparr>"] by simp

end
