(* ===== verification/Cap_Flow.thy ===== *)
theory Cap_Flow
  imports Dispatch Kill_Total
begin

text \<open>
  How messages and capabilities move. \<open>flow i S k k'\<close> says that from \<open>k\<close> to \<open>k'\<close> no capability appears in a task's table
  but those of \<open>S\<close> in the table of task \<open>i\<close>, every new message in the routing table carries capabilities of \<open>S\<close> only, the tables
  stay well formed, and no resource's generation falls. The lemmas give the flow of the operations the system calls are made of.
\<close>

section \<open>Messages in the routing table\<close>

definition entry_msgs :: "RoutingEntry \<Rightarrow> Message set" where
  "entry_msgs e = set (queue_list (re_queue e)) \<union> set_option (pending_send e)"

definition msgs :: "Routing \<Rightarrow> Message set" where
  "msgs r = (\<Union>e\<in>set (table r). entry_msgs e)"

named_theorems msgs_rules "what an operation does to the messages of the routing table"

lemma msgs_table: "table r' = table r \<Longrightarrow> msgs r' = msgs r"
  by (simp add: msgs_def)

lemma entry_msgs_in: "i < length (table r) \<Longrightarrow> m \<in> entry_msgs (table r ! i) \<Longrightarrow> m \<in> msgs r"
  by (auto simp: msgs_def)

lemma msgs_set_entry:
  assumes "i < length (table r)" "entry_msgs e \<subseteq> entry_msgs (table r ! i) \<union> M"
  shows "msgs (r\<lparr>table := (table r)[i := e]\<rparr>) \<subseteq> msgs r \<union> M"
proof
  fix m assume "m \<in> msgs (r\<lparr>table := (table r)[i := e]\<rparr>)"
  then obtain x where x: "x \<in> set ((table r)[i := e])" "m \<in> entry_msgs x" by (auto simp: msgs_def)
  then show "m \<in> msgs r \<union> M"
    using assms set_update_subset_insert [of "table r" i e] entry_msgs_in [OF assms(1)]
    by (auto simp: msgs_def)
qed

lemma entry_msgs_simps [simp]:
  "entry_msgs (e\<lparr>blocked_receiver := x\<rparr>) = entry_msgs e"
  "entry_msgs (fresh_entry ep core g e) = {}"
  by (simp_all add: entry_msgs_def fresh_entry_def)

lemma deliver_entry_msgs:
  assumes "entry_wf e"
  shows "entry_msgs (snd (deliver_entry m s e)) \<subseteq> insert m (entry_msgs e)"
proof -
  have rs: "x = m' \<or> pending_send e = Some x" if "pending_send (record_sender s m' e) = Some x" for m' x
    using that by (auto simp: record_sender_def split: option.splits)
  have eq: "queue_list q = queue_list (re_queue e) @ [m]" if "enqueue m (re_queue e) = Inr q" for q
    using that enqueue_room [of "re_queue e" m] enqueue_Inr_notfull [OF that] assms
    by (auto simp: entry_wf_def MessageQueue_wf_def is_full_def)
  show ?thesis
    by (auto simp: deliver_entry_def entry_msgs_def split: option.splits sum.splits
        dest!: enqueue_Inl_full eq dest: rs)
qed

lemma deliver_msgs:
  assumes "routing_wf r" "find_index (table r) ep = Some i"
  shows "msgs (r\<lparr>table := (table r)[i := snd (deliver_entry m s (table r ! i))]\<rparr>) \<subseteq> msgs r \<union> {m}"
  using find_index_SomeD [OF assms(2)] deliver_entry_msgs [OF routing_wf_entry [OF assms(1)], of i m s]
  by (intro msgs_set_entry) auto

lemma routing_enqueue_msgs [msgs_rules]:
  "routing_wf r \<Longrightarrow> msgs (snd (routing_enqueue ep m g s r)) \<subseteq> msgs r \<union> {m}"
  using deliver_msgs [of r ep _ m s]
  by (auto simp: routing_enqueue_def split: option.split sum.split prod.split)

lemma kernel_enqueue_msgs [msgs_rules]:
  "routing_wf r \<Longrightarrow> msgs (snd (enqueue_from_kernel_blocking ep m s r)) \<subseteq> msgs r \<union> {m}"
  using deliver_msgs [of r ep _ m "Some s"]
  by (auto simp: enqueue_from_kernel_blocking_def split: option.split prod.split)

lemma interrupt_enqueue_msgs [msgs_rules]:
  "routing_wf r \<Longrightarrow> msgs (snd (enqueue_from_interrupt ep m r)) \<subseteq> msgs r \<union> {m}"
  using deliver_msgs [of r ep _ m None] by (auto simp: enqueue_from_interrupt_state split: option.split)

lemma promote_msgs:
  assumes "entry_wf e" "MessageQueue_wf q" "\<not> is_full q" "set (queue_list q) \<subseteq> set (queue_list (re_queue e))"
  shows "entry_msgs (snd (promote_sender (e\<lparr>re_queue := q\<rparr>))) \<subseteq> entry_msgs e"
proof -
  have b: "blocked_sender e = None \<longleftrightarrow> pending_send e = None" using assms(1) by (simp add: entry_wf_def)
  have "pending_send (snd (promote_sender (e\<lparr>re_queue := q\<rparr>))) = None"
    using b by (auto simp: promote_sender_def split: option.split)
  then show ?thesis
    using promote_sender_spec [OF assms(2) b assms(3)] assms(4)
    by (auto simp: entry_msgs_def split: option.splits)
qed

lemma dequeue_entry_msgs:
  assumes wf: "entry_wf e" and d: "dequeue (re_queue e) = (Some m, q)"
  shows "m \<in> entry_msgs e" "entry_msgs (snd (promote_sender (e\<lparr>re_queue := q\<rparr>))) \<subseteq> entry_msgs e"
proof -
  have "MessageQueue_wf (re_queue e)" using wf by simp
  then have q: "queue_list (re_queue e) = m # queue_list q \<and> MessageQueue_wf q \<and> \<not> is_full q"
    using d by (cases rule: dequeue_cases) auto
  then show "m \<in> entry_msgs e" by (simp add: entry_msgs_def)
  show "entry_msgs (snd (promote_sender (e\<lparr>re_queue := q\<rparr>))) \<subseteq> entry_msgs e"
    using q by (intro promote_msgs [OF wf]) auto
qed

lemma matching_entry_msgs:
  assumes wf: "entry_wf e" and d: "dequeue_matching ep (re_queue e) = (Some m, q)"
  shows "m \<in> entry_msgs e" "entry_msgs (snd (promote_sender (e\<lparr>re_queue := q\<rparr>))) \<subseteq> entry_msgs e"
proof -
  have "MessageQueue_wf (re_queue e)" using wf by simp
  then obtain xs ys where q: "queue_list (re_queue e) = xs @ m # ys" "queue_list q = xs @ ys" "MessageQueue_wf q"
    "\<not> is_full q"
    using d by (cases rule: dequeue_matching_cases [of _ ep]) auto
  then show "m \<in> entry_msgs e" by (simp add: entry_msgs_def)
  show "entry_msgs (snd (promote_sender (e\<lparr>re_queue := q\<rparr>))) \<subseteq> entry_msgs e"
    using q by (intro promote_msgs [OF wf]) auto
qed

lemma msgs_keep:
  assumes "i < length (table r)" "entry_msgs x \<subseteq> entry_msgs (table r ! i)"
  shows "msgs (r\<lparr>table := (table r)[i := x]\<rparr>) \<subseteq> msgs r"
  using msgs_set_entry [of i r x "{}"] assms by auto

lemma routing_dequeue_msgs [msgs_rules]:
  assumes wf: "routing_wf r"
  shows "msgs (snd (routing_dequeue ep g s r)) \<subseteq> msgs r
    \<and> (\<forall>m tx. fst (routing_dequeue ep g s r) = Inr (m, tx) \<longrightarrow> m \<in> msgs r)"
proof (cases "find_index (table r) ep")
  case (Some i)
  let ?e = "table r ! i"
  have i: "i < length (table r)" using find_index_SomeD [OF Some] by simp
  have e: "entry_wf ?e" by (rule routing_wf_entry [OF wf i])
  obtain got q where d: "dequeue (re_queue ?e) = (got, q)" by fastforce
  show ?thesis
  proof (cases "check_live ?e g")
    case (Inr u)
    show ?thesis
    proof (cases got)
      case None
      have "MessageQueue_wf (re_queue ?e)" using e by simp
      then have "q = re_queue ?e" using d None by (cases rule: dequeue_cases) auto
      then have "msgs (r\<lparr>table := (table r)[i := ?e\<lparr>re_queue := q\<rparr>]\<rparr>) \<subseteq> msgs r"
        "msgs (r\<lparr>table := (table r)[i := ?e\<lparr>re_queue := q, blocked_receiver := x\<rparr>]\<rparr>) \<subseteq> msgs r" for x
        using i by (intro msgs_keep; simp add: entry_msgs_def)+
      then show ?thesis by (simp add: routing_dequeue_def Some Inr d None Let_def split: option.split)
    next
      case (Some m)
      obtain tx e2 where p: "promote_sender (?e\<lparr>re_queue := q\<rparr>) = (tx, e2)" by fastforce
      have "m \<in> entry_msgs ?e" "entry_msgs e2 \<subseteq> entry_msgs ?e"
        using dequeue_entry_msgs [OF e d [unfolded Some]] p by simp_all
      then show ?thesis
        using msgs_keep [OF i, of e2] entry_msgs_in [OF i]
        by (auto simp: Let_def routing_dequeue_def \<open>find_index (table r) ep = Some i\<close> Inr d Some p)
    qed
  qed (simp add: routing_dequeue_def Some)
qed (simp add: routing_dequeue_def)

lemma dequeue_reply_msgs [msgs_rules]:
  assumes wf: "routing_wf r"
  shows "msgs (snd (dequeue_reply ep g target r)) \<subseteq> msgs r
    \<and> (\<forall>m tx. fst (dequeue_reply ep g target r) = Inr (m, tx) \<longrightarrow> m \<in> msgs r)"
proof (cases "find_index (table r) ep")
  case (Some i)
  let ?e = "table r ! i"
  have i: "i < length (table r)" using find_index_SomeD [OF Some] by simp
  have e: "entry_wf ?e" by (rule routing_wf_entry [OF wf i])
  obtain got q where d: "dequeue_matching target (re_queue ?e) = (got, q)" by fastforce
  show ?thesis
  proof (cases "check_live ?e g")
    case (Inr u)
    show ?thesis
    proof (cases got)
      case None
      have "q = re_queue ?e" using dequeue_matching_None [OF _ d [unfolded None]] e by simp
      then have "msgs (r\<lparr>table := (table r)[i := ?e\<lparr>re_queue := q\<rparr>]\<rparr>) \<subseteq> msgs r"
        using i by (intro msgs_keep; simp add: entry_msgs_def)
      then show ?thesis by (simp add: dequeue_reply_def Some Inr d None Let_def)
    next
      case (Some m)
      obtain tx e2 where p: "promote_sender (?e\<lparr>re_queue := q\<rparr>) = (tx, e2)" by fastforce
      have "m \<in> entry_msgs ?e" "entry_msgs e2 \<subseteq> entry_msgs ?e"
        using matching_entry_msgs [OF e d [unfolded Some]] p by simp_all
      then show ?thesis
        using msgs_keep [OF i, of e2] entry_msgs_in [OF i]
        by (auto simp: Let_def dequeue_reply_def \<open>find_index (table r) ep = Some i\<close> Inr d Some p)
    qed
  qed (simp add: dequeue_reply_def Some)
qed (simp add: dequeue_reply_def)

lemma call_dequeue_msgs [msgs_rules]:
  assumes wf: "routing_wf r"
  shows "msgs (snd (call_dequeue ep g target caller r)) \<subseteq> msgs r
    \<and> (\<forall>m tx. fst (call_dequeue ep g target caller r) = Inr (m, tx) \<longrightarrow> m \<in> msgs r)"
proof -
  obtain got r1 where d: "dequeue_reply ep g target r = (got, r1)" by fastforce
  note m = dequeue_reply_msgs [OF wf, of ep g target, unfolded d]
  have "msgs (r1\<lparr>table := (table r1)[j := (table r1 ! j)\<lparr>blocked_receiver := x\<rparr>]\<rparr>) \<subseteq> msgs r1"
    if "find_index (table r1) ep = Some j" for j x
    using find_index_SomeD [OF that] by (intro msgs_keep) auto
  then show ?thesis
    using m by (auto simp: call_dequeue_def d msgs_table [OF call_await_wf(3)] msgs_table [OF call_await_wf(4)]
        Let_def split: sum.splits option.splits)
qed

lemma kill_endpoint_msgs [msgs_rules]:
  assumes "routing_wf r" "kill_endpoint ep r = Some (w, r')"
  shows "msgs r' \<subseteq> msgs r"
proof (cases "find_index (table r) ep")
  case (Some i)
  have i: "i < length (table r)" using find_index_SomeD [OF Some] by simp
  have "queue_list (drain (re_queue (table r ! i))) = []"
    using drain_spec routing_wf_entry [OF assms(1) i] by auto
  then have "msgs (r\<lparr>table := (table r)[i := (table r ! i)\<lparr>re_live := EpDead, re_gen := g,
      re_queue := drain (re_queue (table r ! i)), blocked_receiver := None, blocked_sender := None,
      pending_send := None\<rparr>]\<rparr>) \<subseteq> msgs r" for g
    by (intro msgs_keep [OF i]) (simp add: entry_msgs_def)
  then have "msgs (r\<lparr>table := (table r)[i := (table r ! i)\<lparr>re_live := EpDead, re_gen := g,
      re_queue := drain (re_queue (table r ! i)), blocked_receiver := None, blocked_sender := None,
      pending_send := None\<rparr>], queued_lost := n\<rparr>) \<subseteq> msgs r" for g n
    by (simp add: msgs_def)
  then show ?thesis using assms(2) by (auto simp: kill_endpoint_def Some Let_def split: bind_splits)
qed (use assms(2) in \<open>auto simp: kill_endpoint_def\<close>)

lemma register_msgs [msgs_rules]:
  "msgs (snd (try_register ep core g r)) \<subseteq> msgs r"
  "msgs (snd (try_register_optional ep core g w r)) \<subseteq> msgs r"
proof -
  have t: "msgs (snd (try_register ep core g r)) \<subseteq> msgs r" for r
  proof (cases "register_slot (table r) ep")
    case (Some i)
    then have "i < length (table r)"
      by (auto simp: register_slot_def dest: find_idx_SomeD split: option.splits)
    then show ?thesis using msgs_keep [of i r "fresh_entry ep core g (table r ! i)"] by (simp add: try_register_def Some)
  qed (simp add: try_register_def)
  then show "msgs (snd (try_register ep core g r)) \<subseteq> msgs r" .
  have "msgs (snd (refuse n r)) = msgs r" "msgs (bank_mailbox_credit r) = msgs r"
    "msgs (snd (take_mailbox_credit r)) = msgs r" for n r
    by (simp_all add: msgs_def refuse_def bank_mailbox_credit_def take_mailbox_credit_def)
  then show "msgs (snd (try_register_optional ep core g w r)) \<subseteq> msgs r"
    using t [of "snd (take_mailbox_credit r)"] t [of r]
    by (auto simp: try_register_optional_def register_optional_at_def Let_def case_prod_unfold split: if_splits bool.splits)
qed

section \<open>Capabilities in the tasks' tables\<close>

definition caps_of :: "Kernel \<Rightarrow> slot \<Rightarrow> Capability set" where
  "caps_of k j = {c. \<exists>n. slot_cap (t_caps (tasks (sched k) j)) n = Some c}"

lemma caps_of_cong: "t_caps (tasks (sched k') j) = t_caps (tasks (sched k) j) \<Longrightarrow> caps_of k' j = caps_of k j"
  by (simp add: caps_of_def)

lemma caps_of_simps [simp]:
  "caps_of (k\<lparr>routing := r\<rparr>) = caps_of k" "caps_of (k\<lparr>res := g\<rparr>) = caps_of k" "caps_of (emit ops k) = caps_of k"
  by (auto intro!: ext caps_of_cong simp: emit_def)

lemma caps_ofD: "c \<in> caps_of k j \<Longrightarrow> \<exists>n. slot_cap (t_caps (tasks (sched k) j)) n = Some c"
  by (simp add: caps_of_def)

lemma caps_ofI: "slot_cap (t_caps (tasks (sched k) j)) n = Some c \<Longrightarrow> c \<in> caps_of k j"
  by (auto simp: caps_of_def)

text \<open>Operations of the scheduler that touch no capability table.\<close>

definition same_caps :: "Sched \<Rightarrow> Sched \<Rightarrow> bool" where
  "same_caps s s' \<longleftrightarrow> (\<forall>j. t_caps (tasks s' j) = t_caps (tasks s j))"

lemma same_caps_refl [simp]: "same_caps s s" by (simp add: same_caps_def)

lemma same_caps_trans [trans]: "same_caps s t \<Longrightarrow> same_caps t u \<Longrightarrow> same_caps s u" by (simp add: same_caps_def)

lemma same_caps_upd: "(\<And>t. t_caps (f t) = t_caps t) \<Longrightarrow> same_caps s (upd_task i f s)"
  by (simp add: same_caps_def upd_task_def)

lemma teardown_same_caps: "teardown s s' \<Longrightarrow> same_caps s s'"
  by (simp add: same_caps_def teardown_def same_task_def)

lemma wake_same_caps: "same_caps s (wake_by_slot c j r s)"
  by (rule teardown_same_caps [OF teardown_wake])

lemma claim_next_same_caps: "same_caps s (snd (claim_next cid n s))"
  by (simp add: claim_next_def claim_cas_def claim_recheck_def claim_publish_def core_release_current_def state_cas_def
      same_caps_def upd_task_def)

lemma state_cas_same_caps: "same_caps s (snd (state_cas i a b s))"
  by (simp add: state_cas_def same_caps_def upd_task_def)

lemma block_same_caps:
  assumes "block_and_reschedule cid st s = Some (r, s')"
  shows "same_caps s s'"
proof -
  let ?s0 = "core_finished_leaving cid s"
  let ?s1 = "snd (state_cas (core_current ?s0 cid) Running st ?s0)"
  have s1: "same_caps s ?s1"
    using state_cas_same_caps [of ?s0] by (simp add: same_caps_def core_finished_leaving_def)
  have "same_caps ?s1 (snd (claim_next cid n (snd (pick_next cid ?s1))))"
    "same_caps ?s1 (core_release_current cid IDLE (snd (pick_next cid ?s1)))" for n
    using claim_next_same_caps [of "snd (pick_next cid ?s1)" cid n] pick_next_tasks [of cid ?s1]
    by (simp_all add: same_caps_def core_release_current_def)
  moreover have "same_caps s (upd_task i (t_wake_pending_update (\<lambda>_. False)) ?s0)" for i
    by (simp add: same_caps_def upd_task_def core_finished_leaving_def)
  ultimately show ?thesis
    using assms s1
    by (auto simp: block_and_reschedule_def Let_def case_prod_unfold core_finished_leaving_def
        split: if_splits bool.splits option.splits intro: same_caps_trans same_caps_upd)
qed

section \<open>The flow of an operation\<close>

definition msg_caps :: "Message \<Rightarrow> Capability set" where
  "msg_caps m = {c. Some c \<in> set (caps m)}"

definition carries :: "Capability set \<Rightarrow> Message \<Rightarrow> bool" where
  "carries S m \<longleftrightarrow> msg_caps m \<subseteq> S"

text \<open>All capabilities there are: in the tables of the tasks and in the messages under way. \<open>derived\<close> adds what can be
  made of them by giving up rights.\<close>

definition all_caps :: "Kernel \<Rightarrow> Capability set" where
  "all_caps k = (\<Union>j. caps_of k j) \<union> (\<Union>m\<in>msgs (routing k). msg_caps m)"

definition derived :: "Capability set \<Rightarrow> Capability set" where
  "derived S = {c. \<exists>d\<in>S. cap_le c d}"

definition flow :: "slot \<Rightarrow> Capability set \<Rightarrow> Kernel \<Rightarrow> Kernel \<Rightarrow> bool" where
  "flow i S k k' \<longleftrightarrow> (routing_wf (routing k) \<longrightarrow> routing_wf (routing k')
     \<and> (\<forall>m\<in>msgs (routing k'). m \<in> msgs (routing k) \<or> msg_caps m \<subseteq> S)
     \<and> (\<forall>j. caps_of k' j \<subseteq> caps_of k j \<union> (if j = i then S else {}))
     \<and> (\<forall>j. CapTable_wf (t_caps (tasks (sched k) j)) \<longrightarrow> CapTable_wf (t_caps (tasks (sched k') j)))
     \<and> gens_up (res k) (res k'))"

named_theorems flow_rules "the flow of an operation that cannot fail"
named_theorems flow_elims "the flow of an operation that returned"

lemma flow_refl [simp]: "flow i S k k" by (simp add: flow_def)

lemma grow_trans: "B \<subseteq> A \<union> X \<Longrightarrow> C \<subseteq> B \<union> X \<Longrightarrow> C \<subseteq> A \<union> X" by blast

lemma flow_trans [trans]:
  assumes "flow i S k k1" "flow i S k1 k2"
  shows "flow i S k k2"
  unfolding flow_def
proof (intro impI conjI ballI allI)
  assume wf: "routing_wf (routing k)"
  note a = assms(1) [unfolded flow_def, rule_format, OF wf]
  note b = assms(2) [unfolded flow_def, rule_format, OF a [THEN conjunct1]]
  show "routing_wf (routing k2)" using b by blast
  show "gens_up (res k) (res k2)" using a b gens_up_trans by blast
  show "caps_of k2 j \<subseteq> caps_of k j \<union> (if j = i then S else {})" for j
    using a [THEN conjunct2, THEN conjunct2, THEN conjunct1, THEN spec, of j]
      b [THEN conjunct2, THEN conjunct2, THEN conjunct1, THEN spec, of j] by (rule grow_trans)
  show "CapTable_wf (t_caps (tasks (sched k2) j))" if "CapTable_wf (t_caps (tasks (sched k) j))" for j
    using a b that by blast
  fix m assume "m \<in> msgs (routing k2)"
  then show "m \<in> msgs (routing k) \<or> msg_caps m \<subseteq> S" using a b by blast
qed

lemmas flow_after = flow_trans [rotated]

lemma derived_mem: "c \<in> S \<Longrightarrow> c \<in> derived S" unfolding derived_def using cap_le_refl by blast

lemma derived_down: "c \<in> derived S \<Longrightarrow> cap_le d c \<Longrightarrow> d \<in> derived S"
  by (auto simp: derived_def intro: cap_le_trans)

lemma flow_sched: "same_caps (sched k) s \<Longrightarrow> flow i S k (k\<lparr>sched := s\<rparr>)"
  using caps_of_cong [of "k\<lparr>sched := s\<rparr>" _ k] by (simp add: flow_def same_caps_def)

lemma flow_routing:
  assumes "routing_wf (routing k) \<Longrightarrow> routing_wf r"
    and "routing_wf (routing k) \<Longrightarrow> msgs r \<subseteq> msgs (routing k) \<union> M" "\<And>m. m \<in> M \<Longrightarrow> msg_caps m \<subseteq> S"
  shows "flow i S k (k\<lparr>routing := r\<rparr>)"
proof -
  have "m \<in> msgs (routing k) \<or> msg_caps m \<subseteq> S" if "routing_wf (routing k)" "m \<in> msgs r" for m
    using assms(2) [OF that(1)] that(2) assms(3) [of m] by blast
  note n = this
  show ?thesis
    unfolding flow_def
  proof (intro impI conjI)
    assume wf: "routing_wf (routing k)"
    show "routing_wf (routing (k\<lparr>routing := r\<rparr>))" using assms(1) [OF wf] by simp
    show "\<forall>m\<in>msgs (routing (k\<lparr>routing := r\<rparr>)). m \<in> msgs (routing k) \<or> msg_caps m \<subseteq> S" using n [OF wf] by simp
  qed simp_all
qed

lemma flow_table: "table r = table (routing k) \<Longrightarrow> flow i S k (k\<lparr>routing := r\<rparr>)"
  by (rule flow_routing [of _ _ "{}"]) (simp_all add: msgs_def routing_wf_def)

lemma flow_res: "gens_up (res k) g \<Longrightarrow> flow i S k (k\<lparr>res := g\<rparr>)"
  by (simp add: flow_def)

lemma flow_fields:
  assumes "routing k' = routing k" "sched k' = sched k" "res k' = res k"
  shows "flow i S k k'"
proof -
  have "caps_of k' j = caps_of k j" for j by (rule caps_of_cong) (simp add: assms)
  then show ?thesis by (simp add: flow_def assms)
qed

lemma flow_emit [simp]: "flow i S k (emit ops k') = flow i S k k'" "flow i S (emit ops k) k' = flow i S k k'"
  by (simp_all add: flow_def) (simp_all add: emit_def)

lemma flow_wake: "flow i S k (wake cid j r k)"
  unfolding wake_def by (rule flow_sched [OF wake_same_caps])

lemma flow_clear_deadline: "flow i S k (clear_deadline cid k)"
  unfolding clear_deadline_def clear_wake_deadline_def
  by (rule flow_sched) (auto simp: same_caps_def upd_task_def)

lemma flow_set_deadline: "flow i S k (k\<lparr>sched := set_wake_deadline j d (sched k)\<rparr>)"
  unfolding set_wake_deadline_def by (rule flow_sched) (auto simp: same_caps_def upd_task_def)

lemma flow_block_current: "block_current cid st k = Some (r, k') \<Longrightarrow> flow i S k k'"
  by (auto simp: block_current_def intro: flow_sched block_same_caps)

lemma flow_block_sender: "block_sender cid k = Some (r, k') \<Longrightarrow> flow i S k k'"
  by (auto simp: block_sender_def split: Option.bind_splits intro: flow_block_current)

lemma flow_block_receiver: "block_receiver cid k = Some (r, k') \<Longrightarrow> flow i S k k'"
  by (auto simp: block_receiver_def split: Option.bind_splits intro: flow_block_current)

lemma flow_leave_timed: "leave_timed cid v k = Some (r, k') \<Longrightarrow> flow i S k k'"
  by (auto simp: leave_timed_def ret_def intro: flow_clear_deadline)

lemmas flow_steps [flow_rules] =
  flow_wake [THEN flow_after] flow_clear_deadline [THEN flow_after] flow_set_deadline [THEN flow_after]

lemmas flow_ops [flow_elims] =
  flow_block_current [THEN flow_after] flow_block_sender [THEN flow_after] flow_block_receiver [THEN flow_after]
  flow_leave_timed [THEN flow_after]

lemma flow_timed_wait: "timed_wait cid deadline k = Some (r, k') \<Longrightarrow> flow i S k k'"
  by (auto simp: timed_wait_def Let_def split: if_splits Option.bind_splits Outcome.splits intro!: flow_rules elim!: flow_elims)

lemma caps_of_remove: "caps_of (remove_cap cid n k) j \<subseteq> caps_of k j"
proof
  fix c assume "c \<in> caps_of (remove_cap cid n k) j"
  then obtain m where "slot_cap (t_caps (tasks (sched (remove_cap cid n k)) j)) m = Some c"
    by (blast dest: caps_ofD)
  then have "slot_cap (t_caps (tasks (sched k) j)) m = Some c"
    by (auto simp: remove_cap_def current_task_remove_cap_def upd_task_def Let_def case_prod_unfold slot_cap_remove
        split: if_splits)
  then show "c \<in> caps_of k j" by (rule caps_ofI)
qed

lemma flow_remove: "flow i S k (remove_cap cid n k)"
proof -
  have "routing (remove_cap cid n k) = routing k" "res (remove_cap cid n k) = res k" by (simp_all add: remove_cap_def)
  moreover have "CapTable_wf (t_caps (tasks (sched (remove_cap cid n k)) j))" if "CapTable_wf (t_caps (tasks (sched k) j))" for j
    using that by (auto simp: remove_cap_def current_task_remove_cap_def Let_def case_prod_unfold upd_task_def remove_wf)
  ultimately show ?thesis using caps_of_remove [of cid n k] by (simp add: flow_def le_supI1)
qed

lemma insert_current:
  assumes "current_task_insert_cap cid c (sched k) = Inr (n, s)"
  shows "core_current s = core_current (sched k)"
    and "caps_of (k\<lparr>sched := s\<rparr>) j \<subseteq> caps_of k j \<union> (if j = me cid k then {c} else {})"
proof -
  show "core_current s = core_current (sched k)"
    using assms by (auto simp: current_task_insert_cap_def upd_task_def Let_def split: if_splits sum.splits)
  show "caps_of (k\<lparr>sched := s\<rparr>) j \<subseteq> caps_of k j \<union> (if j = me cid k then {c} else {})"
  proof
    fix d assume "d \<in> caps_of (k\<lparr>sched := s\<rparr>) j"
    then obtain m where "slot_cap (t_caps (tasks s j)) m = Some d" by (auto dest: caps_ofD)
    then have "slot_cap (t_caps (tasks (sched k) j)) m = Some d \<or> j = me cid k \<and> d = c"
      using assms by (auto simp: current_task_insert_cap_def upd_task_def Let_def slot_cap_insert
          split: if_splits sum.splits)
    then show "d \<in> caps_of k j \<union> (if j = me cid k then {c} else {})" using caps_ofI by fastforce
  qed
qed

lemma flow_insert:
  assumes "current_task_insert_cap cid c (sched k) = Inr (n, s)" "c \<in> S"
  shows "flow (me cid k) S k (k\<lparr>sched := s\<rparr>)"
proof -
  have "caps_of (k\<lparr>sched := s\<rparr>) j \<subseteq> caps_of k j \<union> (if j = me cid k then S else {})" for j
    using insert_current(2) [OF assms(1), of j] assms(2) by (cases "j = me cid k") auto
  moreover have "CapTable_wf (t_caps (tasks s j))" if "CapTable_wf (t_caps (tasks (sched k) j))" for j
    using that assms(1)
    by (auto simp: current_task_insert_cap_def Let_def upd_task_def insert_wf split: if_splits sum.splits)
  ultimately show ?thesis by (simp add: flow_def)
qed

section \<open>Receiving\<close>

lemma wake_current [simp]: "core_current (sched (wake cid j r k)) = core_current (sched k)"
  using teardown_wake [of "sched k" cid j r] by (simp add: wake_def teardown_def)

lemma badge_same [simp]:
  "same_caps s (set_last_recv_badge cid b r s)" "core_current (set_last_recv_badge cid b r s) = core_current s"
  by (simp_all add: set_last_recv_badge_def Let_def same_caps_def upd_task_def)

lemma push_pending_same:
  assumes "push_pending_recv_cap cid n s = (ok, s')"
  shows "same_caps s s'" "core_current s' = core_current s"
  using assms by (auto simp: push_pending_recv_cap_def Let_def same_caps_def upd_task_def split: if_splits)

lemma remove_current [simp]: "core_current (snd (current_task_remove_cap cid n s)) = core_current s"
  by (simp add: current_task_remove_cap_def Let_def case_prod_unfold upd_task_def)

lemma narrow_embedded_le: "cap_le (narrow_embedded_for_receiver c) c"
  by (simp add: narrow_embedded_for_receiver_def)

lemma install_cap_flow:
  assumes "c \<in> derived S"
  shows "flow (me cid k) (derived S) k (install_cap cid c k)" "me cid (install_cap cid c k) = me cid k"
proof -
  let ?c = "narrow_embedded_for_receiver c"
  have "flow (me cid k) (derived S) k (install_cap cid c k) \<and> me cid (install_cap cid c k) = me cid k"
  proof (cases "current_task_insert_cap cid ?c (sched k)")
    case (Inr p)
    obtain n s where p: "p = (n, s)" by fastforce
    obtain ok s' where q: "push_pending_recv_cap cid n s = (ok, s')" by fastforce
    have "flow (me cid k) (derived S) k (k\<lparr>sched := s\<rparr>)"
      using flow_insert Inr p derived_down [OF assms narrow_embedded_le] by blast
    then have f: "flow (me cid k) (derived S) k (k\<lparr>sched := s'\<rparr>)"
      using flow_sched [of "k\<lparr>sched := s\<rparr>" s', THEN flow_after] push_pending_same(1) [OF q] by simp
    then have "flow (me cid k) (derived S) k (remove_cap cid n (k\<lparr>sched := s'\<rparr>))"
      by (rule flow_remove [THEN flow_after])
    then show ?thesis
      using f Inr p q push_pending_same(2) [OF q] insert_current(1) [of cid ?c k n s]
      by (auto simp: install_cap_def remove_cap_def split: bool.split)
  qed (simp add: install_cap_def)
  then show "flow (me cid k) (derived S) k (install_cap cid c k)" "me cid (install_cap cid c k) = me cid k" by auto
qed

lemma install_fold_flow:
  assumes "\<forall>c. Some c \<in> set cs \<longrightarrow> c \<in> derived S"
  shows "flow (me cid k) (derived S) k (fold (\<lambda>c k. case c of Some cap \<Rightarrow> install_cap cid cap k | None \<Rightarrow> k) cs k)
    \<and> me cid (fold (\<lambda>c k. case c of Some cap \<Rightarrow> install_cap cid cap k | None \<Rightarrow> k) cs k) = me cid k"
  using assms
proof (induction cs arbitrary: k)
  case (Cons c cs)
  let ?k1 = "case c of Some cap \<Rightarrow> install_cap cid cap k | None \<Rightarrow> k"
  have "flow (me cid k) (derived S) k ?k1 \<and> me cid ?k1 = me cid k"
    using Cons.prems install_cap_flow by (auto split: option.split)
  then show ?case using Cons.IH [of ?k1] Cons.prems by (auto intro: flow_trans)
qed simp

lemma install_received_flow:
  assumes "msg_caps m \<subseteq> derived S"
  shows "flow (me cid k) (derived S) k (install_received_caps cid m k)"
  unfolding install_received_caps_def
  using assms by (intro install_fold_flow [THEN conjunct1]) (auto simp: msg_caps_def dest: in_set_takeD)

lemma copy_out_flow: "copy_out cid dst bytes k = (ok, k') \<Longrightarrow> flow i S k k'"
  by (auto simp: copy_out_def write_user_bytes_def split: if_splits)

lemma deliver_received_flow:
  assumes "msg_caps m \<subseteq> derived S" "deliver_received cid out_buf n m tx k = (v, k')"
  shows "flow (me cid k) (derived S) k k'"
proof -
  define k1 where "k1 = (case tx of Some s \<Rightarrow> wake cid s 0 k | None \<Rightarrow> k)"
  define k2 where "k2 = k1\<lparr>sched := set_last_recv_badge cid (badge_id m) (badge_right m) (sched k1)\<rparr>"
  define k3 where "k3 = install_received_caps cid m k2"
  have me: "me cid k1 = me cid k" "me cid k2 = me cid k" by (simp_all add: k1_def k2_def split: option.split)
  have "flow (me cid k) (derived S) k k1" by (simp add: k1_def flow_wake split: option.split)
  also have "flow (me cid k) (derived S) k1 k2" unfolding k2_def by (rule flow_sched) simp
  finally have "flow (me cid k) (derived S) k k2" .
  also have "flow (me cid k) (derived S) k2 k3"
    unfolding k3_def using install_received_flow [OF assms(1), where cid = cid and k = k2] me by simp
  finally have f: "flow (me cid k) (derived S) k k3" .
  have "k' = k3 \<or> (\<exists>ok bs. copy_out cid out_buf bs k3 = (ok, k'))"
    using assms(2) unfolding deliver_received_def Let_def k1_def [symmetric] k2_def [symmetric] k3_def [symmetric]
    by (auto split: option.splits prod.splits bool.splits)
  then show ?thesis using f copy_out_flow [THEN flow_after] by blast
qed

section \<open>The flow of the message calls\<close>

text \<open>A system call on core \<open>cid\<close> adds capabilities to the caller's table only, and only capabilities that were there before,
  in a table or in a message, or are narrower.\<close>

abbreviation call_flow :: "nat \<Rightarrow> Kernel \<Rightarrow> Kernel \<Rightarrow> bool" where
  "call_flow cid k k' \<equiv> flow (me cid k) (derived (all_caps k)) k k'"

lemma lookup_caps: "lookup_cap cid n r k = Inr c \<Longrightarrow> c \<in> caps_of k (me cid k)"
  by (auto simp: lookup_cap_def current_task_lookup_cap_def CapTable_get_Inr split: if_splits intro: caps_ofI)

lemma all_capsI: "c \<in> caps_of k j \<Longrightarrow> c \<in> derived (all_caps k)" "m \<in> msgs (routing k) \<Longrightarrow> msg_caps m \<subseteq> derived (all_caps k)"
  by (auto simp: all_caps_def intro!: derived_mem)

lemma grant_caps: "lookup_grant cid n k = Inr c \<Longrightarrow> c \<in> derived (all_caps k)"
  using lookup_caps [of cid n GRANT k] by (auto simp: lookup_grant_def split: sum.splits intro: all_capsI(1))

lemma message_new_bare: "Message_new bs = Inr m \<Longrightarrow> msg_caps m = {}"
  by (auto simp: Message_new_def msg_caps_def split: if_splits)

lemma build_message_bare: "build_message env cid p n k = Inr m \<Longrightarrow> msg_caps m = {}"
  using message_new_bare
  by (fastforce simp: build_message_def Let_def msg_caps_def split: if_splits option.splits sum.splits)

lemma embed_caps: "msg_caps m = {} \<Longrightarrow> msg_caps (embed_cap c (m\<lparr>badge_id := x, badge_right := y\<rparr>)) \<subseteq> {c}"
  "msg_caps m = {} \<Longrightarrow> msg_caps (embed_cap c m) \<subseteq> {c}"
  by (auto simp: msg_caps_def embed_cap_def dest!: set_update_subset_insert [THEN subsetD])

lemma flow_enqueue:
  assumes "routing_enqueue ep m g s (routing k) = (x, r)" "carries S m"
  shows "flow i S k (k\<lparr>routing := r\<rparr>)"
  using routing_enqueue_msgs [of "routing k" ep m g s] routing_enqueue_wf [of "routing k" ep m g s] assms
  by (intro flow_routing [of _ _ "{m}"]) (auto simp: carries_def)

lemma flow_kernel_enqueue:
  assumes "enqueue_from_kernel_blocking ep m s (routing k) = (x, r)" "carries S m"
  shows "flow i S k (k\<lparr>routing := r\<rparr>)"
  using kernel_enqueue_msgs [of "routing k" ep m s] enqueue_from_kernel_blocking_wf [of "routing k" ep m s] assms
  by (intro flow_routing [of _ _ "{m}"]) (auto simp: carries_def)

lemma flow_dequeue:
  assumes "routing_dequeue ep g s (routing k) = (x, r)"
  shows "flow i S k (k\<lparr>routing := r\<rparr>)"
  using routing_dequeue_msgs [of "routing k" ep g s] routing_dequeue_wf [of "routing k" ep g s] assms
  by (intro flow_routing [of _ _ "{}"]) auto

lemma flow_call_dequeue:
  assumes "call_dequeue ep g t s (routing k) = (x, r)"
  shows "flow i S k (k\<lparr>routing := r\<rparr>)"
  using call_dequeue_msgs [of "routing k" ep g t s] call_dequeue_wf [of "routing k" ep g t s] assms
  by (intro flow_routing [of _ _ "{}"]) auto

lemmas flow_more [flow_elims] =
  flow_enqueue [THEN flow_after] flow_kernel_enqueue [THEN flow_after] flow_dequeue [THEN flow_after]
  flow_call_dequeue [THEN flow_after] flow_timed_wait [THEN flow_after]

lemmas flow_more_steps [flow_rules] = flow_remove [THEN flow_after]

lemma enqueue_moving_flow:
  "enqueue_moving cid ep m g n k = Some (out, k') \<Longrightarrow> carries S m \<Longrightarrow> flow i S k k'"
  by (auto simp: enqueue_moving_def ret_def split: prod.splits sum.splits option.splits if_splits
      intro!: flow_rules elim!: flow_elims)

lemma flow_enqueue_moving [flow_elims]:
  "enqueue_moving cid ep m g n k = Some (out, k') \<Longrightarrow> flow i S k0 k \<Longrightarrow> carries S m \<Longrightarrow> flow i S k0 k'"
  using enqueue_moving_flow flow_trans by blast

lemma build_carries [flow_elims]: "build_message env cid p n k = Inr m \<Longrightarrow> carries S m"
  by (simp add: carries_def build_message_bare)

lemma handle_send_flow: "handle_send env cid n p l k = Some (out, k') \<Longrightarrow> call_flow cid k k'"
  by (auto simp: handle_send_def ret_def split: prod.splits sum.splits option.splits if_splits
      intro!: flow_rules elim!: flow_elims)

lemma handle_try_send_flow: "handle_try_send env cid n p l k = Some (out, k') \<Longrightarrow> call_flow cid k k'"
  by (auto simp: handle_try_send_def ret_def split: prod.splits sum.splits option.splits if_splits
      intro!: flow_rules elim!: flow_elims)

lemma embed_carries [flow_elims]:
  assumes "build_message env cid p n k = Inr m" "c \<in> S"
  shows "carries S (embed_cap c m)" "carries S (embed_cap c (m\<lparr>badge_id := x, badge_right := y\<rparr>))"
  using embed_caps [OF build_message_bare [OF assms(1)], of c] assms(2) by (auto simp: carries_def)

lemma handle_send_with_cap_flow: "handle_send_with_cap env cid a p l k = Some (out, k') \<Longrightarrow> call_flow cid k k'"
  by (auto simp: handle_send_with_cap_def Let_def ret_def split: sum.splits
      intro: grant_caps elim!: flow_elims)

lemma handle_resource_invoke_flow: "handle_resource_invoke env cid a p l k = Some (out, k') \<Longrightarrow> call_flow cid k k'"
  by (auto simp: handle_resource_invoke_def Let_def ret_def split: sum.splits option.splits if_splits
      intro: grant_caps elim!: flow_elims)

text \<open>The message a receive path took off a queue was under way before.\<close>

lemma dequeued_caps:
  assumes "routing_wf (routing k)"
  shows "routing_dequeue ep g s (routing k) = (Inr (m, tx), r) \<Longrightarrow> carries (derived (all_caps k)) m"
    and "call_dequeue ep g t u (routing k) = (Inr (m, tx), r) \<Longrightarrow> carries (derived (all_caps k)) m"
  using routing_dequeue_msgs [OF assms, of ep g s] call_dequeue_msgs [OF assms, of ep g t u] all_capsI(2) [of m k]
  by (auto simp: carries_def)

lemma deliver_after:
  assumes "deliver_received cid out_buf n m tx (k\<lparr>routing := r\<rparr>) = (v, k')" "carries (derived S) m"
    and "flow (me cid k) (derived S) k0 (k\<lparr>routing := r\<rparr>)"
  shows "flow (me cid k) (derived S) k0 k'"
  using deliver_received_flow [OF assms(2) [unfolded carries_def] assms(1)] assms(3) flow_trans by simp

lemma handle_recv_flow:
  "routing_wf (routing k) \<Longrightarrow> handle_recv cid n p l k = Some (out, k') \<Longrightarrow> call_flow cid k k'"
  by (auto simp: handle_recv_def recv_pass_def ret_def split: prod.splits sum.splits if_splits
      elim!: flow_elims deliver_after intro: dequeued_caps)

lemma handle_try_recv_flow:
  "routing_wf (routing k) \<Longrightarrow> handle_try_recv cid n p l k = Some (out, k') \<Longrightarrow> call_flow cid k k'"
  by (auto simp: handle_try_recv_def ret_def split: prod.splits sum.splits if_splits
      elim!: flow_elims deliver_after intro: dequeued_caps)

lemma handle_recv_timeout_flow:
  "routing_wf (routing k) \<Longrightarrow> handle_recv_timeout env cid n p t k = Some (out, k') \<Longrightarrow> call_flow cid k k'"
  by (auto simp: handle_recv_timeout_def recv_timeout_pass_def Let_def ret_def split: prod.splits sum.splits if_splits
      elim!: flow_elims deliver_after intro: dequeued_caps)

lemma block_stays:
  "block_current cid st k = Some (Some v, k') \<Longrightarrow> core_current (sched k') = core_current (sched k)"
  by (auto simp: block_current_def block_and_reschedule_def Let_def core_finished_leaving_def upd_task_def state_cas_def
      split: if_splits bool.splits option.splits prod.splits)

lemma enqueue_moving_stays:
  "enqueue_moving cid ep m g n k = Some (Return v, k') \<Longrightarrow> me cid k' = me cid k"
  by (auto simp: enqueue_moving_def block_sender_def ret_def remove_cap_def
      split: prod.splits sum.splits option.splits if_splits Option.bind_splits dest!: block_stays)

lemma call_pass_flow:
  assumes wf: "routing_wf (routing k0)" and f: "flow (me cid k) (derived (all_caps k0)) k0 k"
    and c: "call_pass cid recv_cap ep p n d k = Some (out, k')"
  shows "flow (me cid k) (derived (all_caps k0)) k0 k'"
proof -
  have "routing_wf (routing k)" "\<forall>m\<in>msgs (routing k). m \<in> msgs (routing k0) \<or> carries (derived (all_caps k0)) m"
    using f wf by (simp_all add: flow_def carries_def)
  then have "carries (derived (all_caps k0)) m" if "call_dequeue e g t u (routing k) = (Inr (m, tx), r)" for m e g t u tx r
    using call_dequeue_msgs [of "routing k" e g t u] that all_capsI(2) [of m k0] by (auto simp: carries_def)
  then show ?thesis
    using c f by (auto simp: call_pass_def ret_def split: prod.splits sum.splits if_splits
        elim!: flow_elims deliver_after)
qed

lemma do_call_flow:
  assumes wf: "routing_wf (routing k)" and d: "do_call env cid t rs v p l secs n k = Some (out, k')"
  shows "call_flow cid k k'"
proof -
  have sent: "call_flow cid k k2" if e: "enqueue_moving cid ep (embed_cap c m) g rs k = Some (Return err, k1)"
    and b: "build_message env cid p l k = Inr m" and c: "lookup_grant cid rs k = Inr c"
    and s: "call_sent cid rc ep p n secs err k1 = Some (out2, k2)" for ep c m g err k1 rc out2 k2
  proof -
    have "call_flow cid k k1" using e b by (auto intro: grant_caps [OF c] elim!: flow_elims)
    then show ?thesis
      using s call_pass_flow [OF wf, where cid = cid and k = k1] enqueue_moving_stays [OF e] by (auto simp: call_sent_def ret_def split: if_splits)
  qed
  show ?thesis using d
    by (auto simp: do_call_def ret_def split: sum.splits if_splits Option.bind_splits Outcome.splits)
      ((rule sent, assumption+) | (auto intro: grant_caps elim!: flow_elims))+
qed

lemma handle_call_flow: "routing_wf (routing k) \<Longrightarrow> handle_call env cid a p l k = Some (out, k') \<Longrightarrow> call_flow cid k k'"
  unfolding handle_call_def by (rule do_call_flow)

lemma handle_call_deadline_flow:
  "routing_wf (routing k) \<Longrightarrow> handle_call_deadline env cid a p l k = Some (out, k') \<Longrightarrow> call_flow cid k k'"
  unfolding handle_call_deadline_def by (rule do_call_flow)

end
