(* ===== verification/Cap_Calls.thy ===== *)
theory Cap_Calls
  imports Cap_Flow
begin

text \<open>
  The flow of capabilities through the kill path and through the remaining system calls, and from these through the whole
  dispatcher, for every call but the three that mint.
\<close>

unbundle bit_operations_syntax

section \<open>The flow of ending a task\<close>

lemma flow_irrelevant [simp]:
  "flow i S k0 (k\<lparr>ids := x1\<rparr>) = flow i S k0 k" "flow i S k0 (k\<lparr>band := x2\<rparr>) = flow i S k0 k"
  "flow i S k0 (k\<lparr>names_dir := x3\<rparr>) = flow i S k0 k" "flow i S k0 (k\<lparr>irq_table := x4\<rparr>) = flow i S k0 k"
  "flow i S k0 (k\<lparr>respawn_flag := x5\<rparr>) = flow i S k0 k" "flow i S k0 (k\<lparr>death_unheard := x6\<rparr>) = flow i S k0 k"
  "flow i S k0 (k\<lparr>death_dropped := x7\<rparr>) = flow i S k0 k" "flow i S k0 (k\<lparr>mem := x8\<rparr>) = flow i S k0 k"
  "flow i S k0 (k\<lparr>pending_pml4 := x9\<rparr>) = flow i S k0 k" "flow i S k0 (k\<lparr>pending_kstack := x10\<rparr>) = flow i S k0 k"
  "flow i S k0 (k\<lparr>gen_counter := x11\<rparr>) = flow i S k0 k" "flow i S k0 (k\<lparr>spawn_rr := x12\<rparr>) = flow i S k0 k"
  "flow i S k0 (k\<lparr>dma_kept := x13\<rparr>) = flow i S k0 k" "flow i S k0 (k\<lparr>msi_next := x14\<rparr>) = flow i S k0 k"
  "flow i S k0 (k\<lparr>msi_vec := x15\<rparr>) = flow i S k0 k"
  by (auto intro: flow_fields [THEN flow_after] elim!: flow_after [rotated] simp: flow_fields)

lemmas flow_upd [flow_rules] = flow_sched [THEN flow_after] flow_res [THEN flow_after]

lemma flow_kill_endpoint:
  assumes "kill_endpoint ep (routing k) = Some (w, r)"
  shows "flow i S k (k\<lparr>routing := r\<rparr>)"
  using kill_endpoint_msgs [OF _ assms] kill_endpoint_wf [OF _ assms] by (intro flow_routing [of _ _ "{}"]) auto

lemma flow_wake_other: "flow i S k (wake_other cid j r w k)"
  by (simp add: wake_other_def flow_wake split: option.split)

lemma flow_wake_all: "flow i S k0 k \<Longrightarrow> flow i S k0 (fold (\<lambda>w. wake_other cid j r (Some w)) ws k)"
  by (induction ws arbitrary: k) (auto intro: flow_wake_other [THEN flow_after])

lemmas flow_kill [flow_rules] = flow_wake_other [THEN flow_after] flow_wake_all

lemma same_caps_upd_simp [simp]:
  "(\<And>t. t_caps (f t) = t_caps t) \<Longrightarrow> same_caps s (upd_task i f s)"
  by (rule same_caps_upd)

lemma flow_bank [flow_rules]:
  "r = routing k \<Longrightarrow> flow i S k0 k \<Longrightarrow> flow i S k0 (k\<lparr>routing := bank_mailbox_credit r\<rparr>)"
  by (rule flow_table [THEN flow_after]) (simp_all add: bank_mailbox_credit_def)

lemmas flow_kill_elims [flow_elims] = flow_kill_endpoint [THEN flow_after]

lemma kill_reply_flow:
  assumes "kill_reply_mailbox cid j k = Some k'"
  shows "flow i S k k'"
proof -
  define k0 where "k0 = emit [ReleaseForeground j] (k\<lparr>routing := clear_call_await j (routing k)\<rparr>)"
  have f0: "flow i S k k0" unfolding k0_def by (simp add: flow_table)
  show ?thesis
    using assms f0 unfolding kill_reply_mailbox_def Let_def k0_def [symmetric]
    by (auto split: option.splits Option.bind_splits if_splits
        intro!: flow_rules dest!: gens_up_mark elim!: flow_elims)
qed

lemma flow_drain_waiters [flow_elims]:
  assumes "drain_call_waiters ep r = Some (ws, r2)" "ep \<noteq> 0" "r = routing k" "flow i S k0 k"
  shows "flow i S k0 (k\<lparr>routing := r2\<rparr>)"
  using drain_call_waiters_total [OF assms(2), of r] assms by (intro flow_table [THEN flow_after]) auto

lemma gens_up_release_owner:
  assumes "release_owner who b g = Some (n, b', g')"
  shows "gens_up g g'"
proof -
  note sp = release_owner_loop_spec [OF assms [unfolded release_owner_def]]
  have "\<exists>r'. get_record g' rid = Some r' \<and> rec_generation r \<le> rec_generation r'" if "get_record g rid = Some r" for rid r
    using sp that less_imp_le by (cases "rid \<in> owned_by who b") (blast, simp)
  then show ?thesis by (simp add: gens_up_def)
qed

lemma flow_irq_unregister [flow_rules]: "flow i S k0 k \<Longrightarrow> flow i S k0 (snd (irq_unregister_endpoint ep k))"
  by (simp add: irq_unregister_endpoint_def Let_def)

lemma kill_primary_flow:
  assumes "kill_primary_endpoint cid j rep k = Some k'"
  shows "flow i S k k'"
  using assms unfolding kill_primary_endpoint_def Let_def case_prod_unfold
  by (auto split: option.splits Option.bind_splits if_splits simp: ep_from_u64_def wake_pair_fields wake_all_fields
      intro!: flow_rules dest!: gens_up_mark gens_up_release_owner elim!: flow_elims gens_up_trans [rotated])

lemma flow_interrupt_enqueue [flow_elims]:
  assumes "enqueue_from_interrupt ep m r = (x, r')" "r = routing k" "carries S m" "flow i S k0 k"
  shows "flow i S k0 (k\<lparr>routing := r'\<rparr>)"
  using interrupt_enqueue_msgs [of r ep m] enqueue_from_interrupt_wf [of r ep m] assms
  by (intro flow_routing [of _ _ "{m}", THEN flow_after]) (auto simp: carries_def)

lemma new_carries [flow_elims]: "Message_new bs = Inr m \<Longrightarrow> carries S m"
  by (simp add: carries_def message_new_bare)

lemma death_note_flow: "flow i S k (send_death_note cid j cause k)"
  by (auto simp: send_death_note_def split: option.split sum.split prod.split Enqueue.split
      intro!: flow_rules elim!: flow_elims)

lemma bump_restart_same [simp]: "same_caps s (bump_name_restart nm s)"
  by (simp add: bump_name_restart_def same_caps_def split: option.split)

lemma kill_report_flow: "flow i S k (kill_report cid j cause k)"
  by (auto simp: kill_report_def Let_def intro!: flow_rules death_note_flow [THEN flow_after])

lemma flow_same:
  assumes "same_caps (sched k) (sched k')" "routing k' = routing k" "res k' = res k"
  shows "flow i S k k'"
  by (rule flow_trans [OF flow_sched [OF assms(1)] flow_fields]) (simp_all add: assms)

lemma kill_rest_flow: "flow i S k (kill_poke cid j (kill_quiesce j k))" "flow i S k (kill_release cid j (kill_reclaim cid j k))"
proof -
  show "flow i S k (kill_poke cid j (kill_quiesce j k))"
    by (rule flow_same) (simp_all add: kill_quiesce_spec teardown_same_caps)
  show "flow i S k (kill_release cid j (kill_reclaim cid j k))"
    by (rule flow_same) (simp_all add: kill_release_spec same_caps_def)
qed

lemma kill_claim_flow: "kill_claim j k = Some k' \<Longrightarrow> flow i S k k'"
  by (auto simp: kill_claim_def split: if_splits intro!: flow_rules)

lemma kill_task_flow [flow_elims]:
  assumes "kill_task_by_slot look cid j cause k = Some k'" "flow i S k0 k"
  shows "flow i S k0 k'"
  using assms
  by (auto simp: kill_task_by_slot_def Let_def split: option.splits Option.bind_splits if_splits
      intro!: kill_rest_flow [THEN flow_after] kill_report_flow [THEN flow_after]
      elim!: kill_primary_flow [THEN flow_after] kill_reply_flow [THEN flow_after] kill_claim_flow [THEN flow_after])

lemma kill_loop_flow:
  assumes "kill_by_name_loop look cid nm cause found k = Some y"
  shows "flow i S k (snd y)"
  using assms
proof (rule kill_by_name_loop.raw_induct [where P = "\<lambda>look cid nm cause found k y. flow i S k (snd y)", rotated])
  fix loop look cid nm cause found k y
  assume IH: "\<And>look cid nm cause found k y. loop look cid nm cause found k = Some y \<Longrightarrow> flow i S k (snd y)"
    and b: "(case find_task_by_name (sched k) nm of None \<Rightarrow> Some (found, k)
      | Some j \<Rightarrow> kill_task_by_slot look cid j cause k \<bind> loop look cid nm cause True) = Some y"
  show "flow i S k (snd y)"
  proof (cases "find_task_by_name (sched k) nm")
    case (Some j)
    then obtain k1 where k1: "kill_task_by_slot look cid j cause k = Some k1" "loop look cid nm cause True k1 = Some y"
      using b by (auto split: Option.bind_splits)
    show ?thesis using IH [OF k1(2)] kill_task_flow [OF k1(1) flow_refl] flow_trans by blast
  qed (use b in auto)
qed

lemma kill_by_name_flow [flow_elims]:
  "kill_by_name look cid nm cause k = Some (b, k') \<Longrightarrow> flow i S k0 k \<Longrightarrow> flow i S k0 k'"
  using kill_loop_flow [of look cid nm cause False k "(b, k')"] flow_trans by (auto simp: kill_by_name_def)

section \<open>The flow of the other calls\<close>

lemma sched_ops_same:
  "same_caps s (snd (pop_pending_recv_cap cid s))" "same_caps s (snd (take_last_recv_badge cid s))"
  "same_caps s (snd (current_task_claim_alloc cid n s))" "same_caps s (snd (power_arm t b s))"
  "same_caps s (snd (power_disarm b s))"
  by (simp_all add: pop_pending_recv_cap_def take_last_recv_badge_def current_task_claim_alloc_def power_arm_def
      power_disarm_def Let_def same_caps_def upd_task_def)

lemma yield_same_caps: "same_caps s (yield_current cid respawn s)"
proof -
  define s0 where "s0 = core_finished_leaving cid s"
  define prev where "prev = core_current s0 cid"
  define s1 where "s1 = (if prev < MAX_TASKS \<and> t_valid (tasks s0 prev) then snd (state_cas prev Running Ready s0) else s0)"
  obtain p s2 where p: "pick_next cid s1 = (p, s2)" by fastforce
  have "same_caps s s0" by (simp add: s0_def same_caps_def core_finished_leaving_def)
  also have "same_caps s0 s1" by (simp add: s1_def state_cas_same_caps)
  also have "same_caps s1 s2" using pick_next_tasks [of cid s1] p by (simp add: same_caps_def)
  finally have s2: "same_caps s s2" .
  have "same_caps s2 (core_release_current cid IDLE s2)" by (simp add: same_caps_def core_release_current_def)
  then show ?thesis
    using same_caps_trans [OF s2] s2 state_cas_same_caps [of s2] claim_next_same_caps [of s2 cid]
    unfolding yield_current_def Let_def s0_def [symmetric] prev_def [symmetric] s1_def [symmetric] p
    by (auto split: option.split)
qed

lemma flow_yield [flow_rules]: "flow i S k0 k \<Longrightarrow> flow i S k0 (yield cid k)"
  unfolding yield_def by (rule flow_sched [OF yield_same_caps, THEN flow_after])

lemma flow_write_user [flow_elims]:
  "write_user_bytes cid p bs k = (ok, k') \<Longrightarrow> flow i S k0 k \<Longrightarrow> flow i S k0 k'"
  by (auto simp: write_user_bytes_def split: if_splits)

lemma alloc_pages_flow: "alloc_pages env va is k = Some (out, k') \<Longrightarrow> flow i S k k'"
proof (induction "is" arbitrary: k)
  case (Cons p ps)
  have m: "flow i S (k\<lparr>mem := a\<rparr>) k' \<Longrightarrow> flow i S k k'" for a
    by (rule flow_trans [of i S k "k\<lparr>mem := a\<rparr>"]) simp_all
  show ?case using Cons.prems
    by (auto simp: ret_def Let_def split: Option.bind_splits option.splits if_splits dest!: Cons.IH m)
qed (simp add: ret_def)

lemma gens_up_revoke:
  assumes "revoke_owned rid who b g = Some (ok, b', g')"
  shows "gens_up g g'"
proof (cases ok)
  case True
  then have "revoke_resource rid g = Some g'" using revoke_owned_TrueD(4) [of rid who b g b' g'] assms by simp
  then have "bump_generation rid Revoked g = Some g'" by (simp add: revoke_resource_def)
  then show ?thesis by (rule gens_up_bump)
qed (use revoke_owned_FalseD [of rid who b g b' g'] assms in simp)

lemma flow_insert_cap:
  "insert_cap cid c k = Inr (n, k') \<Longrightarrow> c \<in> S \<Longrightarrow> flow (me cid k) S k k'"
  by (auto simp: insert_cap_def split: sum.splits intro: flow_insert)

lemma gated_slot_flow: "gated_slot cid n r rid ops k = Some (out, k') \<Longrightarrow> flow i S k k'"
  by (auto simp: gated_slot_def ret_def split: sum.splits)

lemma gated_flow: "gated cid rid r k body = Some (out, k') \<Longrightarrow> (body = Some (out, k') \<Longrightarrow> flow i S k k') \<Longrightarrow> flow i S k k'"
  by (auto simp: gated_def ret_def split: if_splits)

lemma plain_calls_flow:
  "handle_log env cid a p l k = Some (out, k') \<Longrightarrow> flow i S k k'"
  "handle_print env cid a p l k = Some (out, k') \<Longrightarrow> flow i S k k'"
  "handle_irq_unmask cid a k = Some (out, k') \<Longrightarrow> flow i S k k'"
  "handle_take_pending_cap cid k = Some (out, k') \<Longrightarrow> flow i S k k'"
  "handle_query_cap_rights cid a k = Some (out, k') \<Longrightarrow> flow i S k k'"
  "handle_remove_cap cid a k = Some (out, k') \<Longrightarrow> flow i S k k'"
  "handle_last_recv_badge cid k = Some (out, k') \<Longrightarrow> flow i S k k'"
  "handle_try_console_read env cid a k = Some (out, k') \<Longrightarrow> flow i S k k'"
  "handle_task_stat env cid a p l k = Some (out, k') \<Longrightarrow> flow i S k k'"
  "handle_task_caps cid a p l k = Some (out, k') \<Longrightarrow> flow i S k k'"
  using sched_ops_same(1,2) [of "sched k" cid]
  by (auto simp: handle_log_def handle_print_def handle_irq_unmask_def handle_take_pending_cap_def
      handle_query_cap_rights_def handle_remove_cap_def handle_last_recv_badge_def handle_try_console_read_def
      handle_task_stat_def handle_task_caps_def Let_def ret_def
      split: sum.splits option.splits if_splits prod.splits intro!: flow_rules elim!: flow_elims)

lemma device_calls_flow:
  "handle_fire_irq cid a k = Some (out, k') \<Longrightarrow> flow i S k k'"
  "handle_reboot cid k = Some (out, k') \<Longrightarrow> flow i S k k'"
  "handle_device_power env cid a k = Some (out, k') \<Longrightarrow> flow i S k k'"
  "handle_cpu_clock env cid a k = Some (out, k') \<Longrightarrow> flow i S k k'"
  "handle_pci_cfg_read env cid a p k = Some (out, k') \<Longrightarrow> flow i S k k'"
  "handle_net_frame_tx env cid a p k = Some (out, k') \<Longrightarrow> flow i S k k'"
  "handle_net_frame_rx env cid a p k = Some (out, k') \<Longrightarrow> flow i S k k'"
  "handle_net_info env cid a k = Some (out, k') \<Longrightarrow> flow i S k k'"
  "handle_gpio env cid a p k = Some (out, k') \<Longrightarrow> flow i S k k'"
  by (auto simp: handle_fire_irq_def handle_reboot_def handle_device_power_def handle_cpu_clock_def handle_pci_cfg_read_def
      handle_net_frame_tx_def handle_net_frame_rx_def handle_net_info_def handle_gpio_def Let_def ret_def
      split: option.splits if_splits prod.splits elim!: gated_flow flow_elims)

lemma disk_calls_flow:
  "handle_usb_disk_info env cid k = Some (out, k') \<Longrightarrow> flow i S k k'"
  "handle_usb_disk_read env cid a p k = Some (out, k') \<Longrightarrow> flow i S k k'"
  "handle_usb_disk_write env cid a p k = Some (out, k') \<Longrightarrow> flow i S k k'"
  "handle_usb_disk_flush env cid k = Some (out, k') \<Longrightarrow> flow i S k k'"
  by (auto simp: handle_usb_disk_info_def handle_usb_disk_read_def handle_usb_disk_write_def handle_usb_disk_flush_def
      Let_def ret_def split: option.splits if_splits prod.splits elim!: gated_flow flow_elims)

lemma power_off_flow: "handle_power_off cid a p k = Some (out, k') \<Longrightarrow> flow i S k k'"
  using sched_ops_same(4) [of "sched k" p] sched_ops_same(5) [of "sched k"]
  by (auto simp: handle_power_off_def Let_def ret_def split: if_splits prod.splits elim!: gated_flow intro!: flow_rules)
    (metis snd_conv)+

lemma console_slot_flow:
  "handle_console_foreground cid a p k = Some (out, k') \<Longrightarrow> flow i S k k'"
  "handle_console_echo cid a p k = Some (out, k') \<Longrightarrow> flow i S k k'"
  "handle_console_boot_complete cid a k = Some (out, k') \<Longrightarrow> flow i S k k'"
  "handle_signal_input_ready cid a k = Some (out, k') \<Longrightarrow> flow i S k k'"
  "handle_console_push cid a p k = Some (out, k') \<Longrightarrow> flow i S k k'"
  unfolding handle_console_foreground_def handle_console_echo_def handle_console_boot_complete_def
    handle_signal_input_ready_def handle_console_push_def
  by (erule gated_slot_flow)+

lemma console_write_flow: "handle_console_write env cid a p l k = Some (out, k') \<Longrightarrow> flow i S k k'"
  by (auto simp: handle_console_write_def deliver_to_console_service_def Let_def ret_def
      split: sum.splits option.splits if_splits prod.splits intro!: flow_rules elim!: flow_elims)

lemma console_read_flow:
  "console_read_pass env cid k = Some (out, k') \<Longrightarrow> flow i S k k'"
  "handle_console_read env cid a k = Some (out, k') \<Longrightarrow> flow i S k k'"
proof -
  have pass: "flow i S k k'" if "console_read_pass env cid k = Some (out, k')" for k
    using that by (auto simp: console_read_pass_def Let_def ret_def
      split: option.splits if_splits Option.bind_splits Outcome.splits elim!: flow_elims)
  show "console_read_pass env cid k = Some (out, k') \<Longrightarrow> flow i S k k'" by (rule pass)
  show "handle_console_read env cid a k = Some (out, k') \<Longrightarrow> flow i S k k'"
    by (auto simp: handle_console_read_def ret_def split: sum.splits dest!: pass)
qed

lemma sleep_flow:
  "sleep_pass cid d k = Some (out, k') \<Longrightarrow> flow i S k k'"
  "hires_wake cid k = Some (out, k') \<Longrightarrow> flow i S k k'"
  "handle_sleep env cid a k = Some (out, k') \<Longrightarrow> flow i S k k'"
proof -
  have pass: "flow i S k k'" if "sleep_pass cid d k = Some (out, k')" for k d
    using that by (auto simp: sleep_pass_def ret_def
      split: if_splits Option.bind_splits Outcome.splits intro!: flow_rules elim!: flow_elims)
  have wake: "flow i S k0 k'" if "hires_wake cid k = Some (out, k')" "flow i S k0 k" for k k0
    using that by (auto simp: hires_wake_def ret_def intro!: flow_rules)
  show "sleep_pass cid d k = Some (out, k') \<Longrightarrow> flow i S k k'" by (rule pass)
  show "hires_wake cid k = Some (out, k') \<Longrightarrow> flow i S k k'" by (erule wake) simp
  show "handle_sleep env cid a k = Some (out, k') \<Longrightarrow> flow i S k k'"
    by (auto simp: handle_sleep_def ret_def Let_def split: if_splits Armed.splits Option.bind_splits option.splits
      dest!: pass intro!: flow_rules elim!: wake flow_elims)
qed

lemma inspect_flow: "handle_inspect_kernel env cid a p l k = Some (out, k') \<Longrightarrow> flow i S k k'"
proof -
  have "flow i S k k'" if "inspect_boot env cid p l k = Some (out, k')"
    using that by (auto simp: inspect_boot_def Let_def ret_def split: if_splits prod.splits elim!: flow_elims)
  then show "handle_inspect_kernel env cid a p l k = Some (out, k') \<Longrightarrow> flow i S k k'"
    unfolding handle_inspect_kernel_def Let_def ret_def by (simp only: split: if_splits) auto
qed

lemma memory_flow: "handle_alloc_mem env cid a k = Some (out, k') \<Longrightarrow> flow i S k k'"
  using sched_ops_same(3) [of "sched k" cid a]
  by (auto simp: handle_alloc_mem_def ret_def split: if_splits prod.splits option.splits
      dest!: alloc_pages_flow intro!: flow_rules elim!: flow_trans [rotated])

lemma park_flow: "handle_park cid k = Some (out, k') \<Longrightarrow> flow i S k k'"
  by (auto simp: handle_park_def park_current_def split: Option.bind_splits intro!: flow_rules dest: block_same_caps)

lemma derive_flow: "handle_derive_cap cid a k = Some (out, k') \<Longrightarrow> call_flow cid k k'"
  by (auto simp: handle_derive_cap_def ret_def split: sum.splits dest!: lookup_caps intro: flow_insert_cap all_capsI)

lemma revoke_flow: "handle_resource_revoke cid a k = Some (out, k') \<Longrightarrow> flow i S k k'"
  by (auto simp: handle_resource_revoke_def ret_def split: option.splits Option.bind_splits dest!: gens_up_revoke
      intro!: flow_res [THEN flow_after])

lemma end_flow:
  "handle_kill env cid p l k = Some (out, k') \<Longrightarrow> flow i S k k'"
  "handle_exit env cid a k = Some (out, k') \<Longrightarrow> flow i S k k'"
  by (auto simp: handle_kill_def handle_exit_def ret_def split: if_splits option.splits Option.bind_splits
      intro!: flow_rules elim!: flow_elims)

text \<open>The three calls that mint: a capability to an endpoint by its name, a delegated resource, a new task.\<close>

definition mints :: "SyscallNumber \<Rightarrow> bool" where
  "mints n \<longleftrightarrow> n \<in> {AcquireSendCap, ResourceMint, SpawnImage}"

lemmas dispatch_flows =
  handle_send_flow handle_try_send_flow handle_send_with_cap_flow handle_resource_invoke_flow plain_calls_flow
  device_calls_flow disk_calls_flow power_off_flow console_slot_flow console_write_flow console_read_flow(2) sleep_flow(3)
  inspect_flow memory_flow park_flow derive_flow revoke_flow end_flow

lemma dispatch_flow:
  assumes "routing_wf (routing k)" "dispatch env b cid n a0 a1 a2 k = Some (out, k')" "\<not> mints n"
  shows "call_flow cid k k'"
proof (cases n)
  case Yield
  then show ?thesis using assms(2) by (auto simp: dispatch_def ret_def intro: flow_rules)
qed (use assms in \<open>simp_all add: dispatch_def mints_def\<close>, (erule dispatch_flows handle_recv_flow [OF assms(1)]
    handle_try_recv_flow [OF assms(1)] handle_recv_timeout_flow [OF assms(1)] handle_call_flow [OF assms(1)]
    handle_call_deadline_flow [OF assms(1)])+)

end
