(* ===== verification/Demo.thy ===== *)
theory Demo
  imports Dispatch Kill_Total
begin

text \<open>
  A small concrete kernel for the witnesses of the properties of the system calls: task 0 runs on core 0, serves endpoint 100 and
  holds three capabilities to it (to send, to pass on, to receive); task 3 is ready. \<open>demo_env\<close> and \<open>demo_board\<close> are
  an environment and a board with nothing attached.
\<close>

section \<open>The kernel\<close>

definition demo_send :: Capability where
  "demo_send = \<lparr>resource_id = 100, rights = SEND, generation = Generation 1\<rparr>"

definition demo_grant :: Capability where
  "demo_grant = \<lparr>resource_id = 100, rights = Rights_union SEND GRANT, generation = Generation 1\<rparr>"

definition demo_recv :: Capability where
  "demo_recv = \<lparr>resource_id = 100, rights = RECV, generation = Generation 1\<rparr>"

definition demo_caps :: CapTable where
  "demo_caps = \<lparr>slots = [Some demo_send, Some demo_grant, Some demo_recv] @ replicate 61 None\<rparr>"

definition demo_sched :: Sched where
  "demo_sched = upd_task 0 (\<lambda>t. t\<lparr>t_caps := demo_caps\<rparr>) wit_sched"

definition demo_res :: GlobalResourceTable where
  "demo_res = GlobalResourceTable_new
    \<lparr>records := (\<lambda>_. EMPTY_RECORD)(100 := \<lparr>rec_generation = Generation 1, rec_liveness = Alive\<rparr>),
     present := (\<lambda>_. False)(100 := True)\<rparr>"

definition demo_kernel :: Kernel where
  "demo_kernel = wit_kernel\<lparr>sched := demo_sched, routing := wit_routing, res := demo_res\<rparr>"

definition demo_env :: Env where
  "demo_env = \<lparr>user_mem = (\<lambda>_. 65), ticks_per_quantum = 0, foreground_allows = (\<lambda>_. True), rx_pop = None,
     hires_arm = (\<lambda>_ _. ArmFull), map_ok = (\<lambda>_. True), device_power = (\<lambda>_ _. False), cpu_clock = (\<lambda>_. None),
     pci_cfg_read32 = (\<lambda>_ _. None), net_tx = (\<lambda>_. False), net_rx = (\<lambda>_. []), net_info = None, gpio_op = (\<lambda>_ _. 0),
     usb_disk_sectors = 0, usb_disk_read = (\<lambda>_. None), usb_disk_write = (\<lambda>_ _. False), usb_disk_absent = True,
     usb_disk_busy = False, usb_disk_flush = False, inspect_fact = (\<lambda>_. 0), core_ticks = (\<lambda>_ _. 0), boot_record = [],
     run_ticks = (\<lambda>_. 0), uptime_secs = (\<lambda>_. 0), core_samples = (\<lambda>_. [])\<rparr>"

definition demo_board :: Board where
  "demo_board = \<lparr>load_result = Inr 4096, core_is_ready = (\<lambda>c. c = 0), ready_count = 1, pci_table = [], xhci_dev = None,
     ehci_dev = None, nic_dev = None, first_memory_bar = (\<lambda>_. 0), soc_nic_present = False, dwc2_present = False,
     fixed_device_present = (\<lambda>_. False), fb_grant = None, dwc2_vectors = [], soc_nic_vectors = [],
     msi_accepted = (\<lambda>_ _. False), power_control = (\<lambda>_. False), mmio_map_ok = True, dma_map_ok = True,
     ctx_frame_ok = True, ctx_map_ok = True, new_kstack = Some 0x1000, new_cr3 = 0x2000\<rparr>"

section \<open>Facts about it\<close>

lemma demo_simps [simp]:
  "routing demo_kernel = wit_routing" "res demo_kernel = demo_res" "sched demo_kernel = demo_sched"
  "core_current demo_sched 0 = 0" "t_caps (tasks demo_sched 0) = demo_caps" "num_cores demo_sched = 2"
  "t_valid (tasks demo_sched 0)" "t_state (tasks demo_sched 0) = Running" "t_endpoint (tasks demo_sched 0) = 100"
  "t_wake_pending (tasks demo_sched 0) = False"
  by (simp_all add: demo_kernel_def demo_sched_def wit_sched_def wit_task_def upd_task_def)

lemma demo_valid [simp]: "current_valid 0 demo_sched"
  by (simp add: current_valid_def MAX_TASKS_def)

lemma demo_record: "get_record demo_res rid = (if rid = 100 then Some \<lparr>rec_generation = Generation 1, rec_liveness = Alive\<rparr> else None)"
  by (simp add: get_record_def demo_res_def GlobalResourceTable_new_def DIRECT_CAP_def)

lemma demo_slot_cap: "slot_cap demo_caps i = (if i = 0 then Some demo_send else if i = 1 then Some demo_grant
    else if i = 2 then Some demo_recv else None)"
  by (auto simp: slot_cap_def demo_caps_def nth_append nth_Cons')

lemma demo_rights:
  "Rights_contains SEND SEND" "Rights_contains (Rights_union SEND GRANT) GRANT" "Rights_contains RECV RECV"
  by (simp_all add: Rights_contains_def Rights_union_def SEND_def GRANT_def RECV_def)

lemma demo_lookup:
  "lookup_cap 0 0 SEND demo_kernel = Inr demo_send" "lookup_cap 0 1 GRANT demo_kernel = Inr demo_grant"
  "lookup_cap 0 2 RECV demo_kernel = Inr demo_recv" "lookup_grant 0 1 demo_kernel = Inr demo_grant"
proof -
  show l: "lookup_cap 0 0 SEND demo_kernel = Inr demo_send" "lookup_cap 0 1 GRANT demo_kernel = Inr demo_grant"
    "lookup_cap 0 2 RECV demo_kernel = Inr demo_recv"
    by (simp_all add: lookup_cap_def current_task_lookup_cap_def CapTable_get_Inr demo_slot_cap demo_record
        get_resource_generation_def demo_send_def demo_grant_def demo_recv_def demo_rights)
  show "lookup_grant 0 1 demo_kernel = Inr demo_grant" by (simp add: lookup_grant_def l del: One_nat_def)
qed

end
