(* ===== verification/Authority.thy ===== *)
theory Authority
  imports Cap_Calls Demo
begin

text \<open>
  Properties of the system-call interface as a whole. \<open>kernel_step N\<close> is one step of the running kernel: a system call of the
  set \<open>N\<close> up to where it returns or blocks, a blocked call going on, an interrupt, a tick, a preemption or a fault. The
  authority in the system is the set of capabilities in the tables and in the messages under way.
\<close>

unbundle bit_operations_syntax

section \<open>Steps of the running kernel\<close>

inductive kernel_step :: "SyscallNumber set \<Rightarrow> Kernel \<Rightarrow> Kernel \<Rightarrow> bool" for N where
  ks_call: "dispatch env b cid n a0 a1 a2 k = Some (out, k') \<Longrightarrow> n \<in> N \<Longrightarrow> kernel_step N k k'"
| ks_recv: "recv_resume cid cap p l k = Some (out, k') \<Longrightarrow> kernel_step N k k'"
| ks_recv_timeout: "recv_timeout_resume cid cap p l d k = Some (out, k') \<Longrightarrow> kernel_step N k k'"
| ks_call_resume: "call_resume cid cap ep p l d k = Some (out, k') \<Longrightarrow> kernel_step N k k'"
| ks_call_sent: "call_sent cid cap ep p l secs err k = Some (out, k') \<Longrightarrow> kernel_step N k k'"
| ks_sleep: "sleep_resume cid d k = Some (out, k') \<Longrightarrow> kernel_step N k k'"
| ks_hires: "hires_wake cid k = Some (out, k') \<Longrightarrow> kernel_step N k k'"
| ks_console: "console_read_pass env cid k = Some (out, k') \<Longrightarrow> kernel_step N k k'"
| ks_irq: "kernel_step N k (irq_deliver cid irq k)"
| ks_tick: "scan_timed_wakes cid (sched k) = Inr s \<Longrightarrow> kernel_step N k (k\<lparr>sched := s\<rparr>)"
| ks_preempt: "kernel_step N k (yield cid k)"
| ks_fault: "kill_current look cid kind addr k = Some k' \<Longrightarrow> kernel_step N k k'"
| ks_drain: "kernel_step N k (drain_pending_kstack cid k)"

lemma resume_flows:
  assumes "routing_wf (routing k)"
  shows "recv_resume cid cap p l k = Some (out, k') \<Longrightarrow> call_flow cid k k'"
    and "recv_timeout_resume cid cap p l d k = Some (out, k') \<Longrightarrow> call_flow cid k k'"
    and "call_resume cid cap ep p l d k = Some (out, k') \<Longrightarrow> call_flow cid k k'"
    and "call_sent cid cap ep p l secs err k = Some (out, k') \<Longrightarrow> call_flow cid k k'"
    and "sleep_resume cid d k = Some (out, k') \<Longrightarrow> call_flow cid k k'"
  using call_pass_flow [OF assms, where cid = cid and k = k] sleep_flow(1) [of cid d k out k'] assms
  by (auto simp: recv_resume_def recv_pass_def recv_timeout_resume_def recv_timeout_pass_def call_resume_def call_sent_def
      sleep_resume_def ret_def split: prod.splits sum.splits if_splits
      elim!: flow_elims deliver_after intro: dequeued_caps)

lemma irq_deliver_flow: "flow i S k (irq_deliver cid irq k)"
proof -
  have c: "carries S (interrupt_event irq)" by (auto simp: carries_def msg_caps_def interrupt_event_def)
  show ?thesis
    by (auto simp: irq_deliver_def Let_def split: option.split prod.split Enqueue.split
        intro!: flow_rules c elim!: flow_elims)
qed

lemma timed_wakes_same: "scan_timed_wakes cid s = Inr s' \<Longrightarrow> same_caps s s'"
proof -
  have one: "same_caps s (timed_wake c now j s)" for c now j s
    unfolding timed_wake_def Let_def
    by (cases "t_wake_deadline (tasks s j) \<noteq> 0 \<and> t_wake_deadline (tasks s j) \<le> now \<and> task_is s j BlockedOnRecv")
      (auto intro!: same_caps_trans [OF same_caps_upd wake_same_caps])
  have "same_caps s (fold (timed_wake c now) xs s)" for c now xs s
    by (induction xs arbitrary: s) (auto intro: same_caps_trans one)
  then show "scan_timed_wakes cid s = Inr s' \<Longrightarrow> same_caps s s'"
    by (auto simp: scan_timed_wakes_def Let_def same_caps_def split: if_splits)
qed

lemma kill_current_flow: "kill_current look cid kind addr k = Some k' \<Longrightarrow> flow i S k k'"
  by (auto simp: kill_current_def Let_def yield_def [symmetric] split: if_splits Option.bind_splits
      intro!: flow_rules elim!: flow_elims)

lemma step_flow:
  assumes "kernel_step N k k'" "routing_wf (routing k)" "\<forall>n\<in>N. \<not> mints n"
  shows "\<exists>i. flow i (derived (all_caps k)) k k'"
  using assms
proof cases
  case (ks_tick cid s)
  then show ?thesis using flow_sched timed_wakes_same by blast
next
  case (ks_drain cid)
  then show ?thesis by (simp add: drain_pending_kstack_def Let_def)
qed (use assms(2,3) in \<open>blast intro: dispatch_flow resume_flows sleep_flow(2) console_read_flow(1) irq_deliver_flow
  kill_current_flow flow_yield [OF flow_refl]\<close>)+

section \<open>Authority only shrinks\<close>

lemma flow_new_caps:
  assumes "routing_wf (routing k)" "flow i S k k'"
  shows "all_caps k' \<subseteq> all_caps k \<union> S"
proof
  note f = assms(2) [unfolded flow_def, rule_format, OF assms(1)]
  fix c assume "c \<in> all_caps k'"
  then consider j where "c \<in> caps_of k' j" | m where "m \<in> msgs (routing k')" "c \<in> msg_caps m"
    by (auto simp: all_caps_def)
  then show "c \<in> all_caps k \<union> S"
  proof cases
    case 1
    then show ?thesis using f by (fastforce simp: all_caps_def split: if_splits)
  next
    case 2
    then show ?thesis using f by (auto simp: all_caps_def)
  qed
qed

lemma flow_all_caps:
  assumes "routing_wf (routing k)" "flow i (derived (all_caps k)) k k'"
  shows "all_caps k' \<subseteq> derived (all_caps k)"
  using flow_new_caps [OF assms] derived_mem by blast

lemma derived_idem: "derived (derived S) = derived S"
  by (auto simp: derived_def intro: cap_le_trans)

lemma derived_mono: "S \<subseteq> T \<Longrightarrow> derived S \<subseteq> derived T" by (auto simp: derived_def)

interpretation kernel_runs: inv_system "kernel_step {n. \<not> mints n}" "\<lambda>k. routing_wf (routing k)"
proof
  fix k k' assume "kernel_step {n. \<not> mints n} k k'" "routing_wf (routing k)"
  then show "routing_wf (routing k')" using step_flow [of _ k k'] by (fastforce simp: flow_def)
qed

section \<open>The typing of the kernel's capabilities\<close>

text \<open>A capability is typed by the resource table: it names a registered resource, at a generation the resource has
  reached. A kernel is well typed when its routing table is well formed, every table has its 64 slots, and every capability in
  a table or under way is typed.\<close>

definition typed_cap :: "GlobalResourceTable \<Rightarrow> Capability \<Rightarrow> bool" where
  "typed_cap g c \<longleftrightarrow> (\<exists>r. get_record g (resource_id c) = Some r \<and> generation c \<le> rec_generation r)"

definition kernel_typed :: "Kernel \<Rightarrow> bool" where
  "kernel_typed k \<longleftrightarrow> routing_wf (routing k) \<and> (\<forall>j. CapTable_wf (t_caps (tasks (sched k) j)))
     \<and> (\<forall>c\<in>all_caps k. typed_cap (res k) c)"

lemma typed_cap_up: "typed_cap g c \<Longrightarrow> gens_up g g' \<Longrightarrow> typed_cap g' c"
  unfolding typed_cap_def gens_up_def using order_trans by blast

lemma typed_cap_le: "typed_cap g d \<Longrightarrow> cap_le c d \<Longrightarrow> typed_cap g c"
  by (simp add: typed_cap_def cap_le_def)

lemma typed_derived: "\<forall>c\<in>S. typed_cap g c \<Longrightarrow> c \<in> derived S \<Longrightarrow> typed_cap g c"
  by (auto simp: derived_def intro: typed_cap_le)

lemma minted_typed: "mint_cap g rid r = Some c \<Longrightarrow> typed_cap g c"
  by (auto simp: mint_cap_def typed_cap_def)

text \<open>A flow whose new capabilities are typed keeps the kernel typed.\<close>

lemma flow_typed:
  assumes t: "kernel_typed k" and f: "flow i S k k'" and S: "\<forall>c\<in>S. typed_cap (res k') c"
  shows "kernel_typed k'"
proof -
  have wf: "routing_wf (routing k)" using t by (simp add: kernel_typed_def)
  note g = f [unfolded flow_def, rule_format, OF wf]
  have "typed_cap (res k') c" if "c \<in> all_caps k'" for c
  proof (cases "c \<in> S")
    case False
    then have "typed_cap (res k) c" using flow_new_caps [OF wf f] that t by (auto simp: kernel_typed_def)
    then show ?thesis using g typed_cap_up by blast
  qed (use S in simp)
  then show ?thesis using g t by (simp add: kernel_typed_def)
qed

lemma derived_typed:
  assumes "kernel_typed k" "flow i (derived (all_caps k)) k k'"
  shows "kernel_typed k'"
proof (rule flow_typed [OF assms], intro ballI)
  fix c assume "c \<in> derived (all_caps k)"
  then have "typed_cap (res k) c" using assms(1) typed_derived by (auto simp: kernel_typed_def)
  then show "typed_cap (res k') c" using assms typed_cap_up by (auto simp: kernel_typed_def flow_def)
qed

lemma acquire_typed:
  assumes "kernel_typed k" "handle_acquire_send_cap env cid p l g k = Some (out, k')"
  shows "kernel_typed k'"
proof -
  have "k' = k \<or> (\<exists>c n. typed_cap (res k) c \<and> insert_cap cid c k = Inr (n, k'))"
    using assms(2) by (auto simp: handle_acquire_send_cap_def Let_def ret_def minted_typed
        split: option.splits if_splits sum.splits Option.bind_splits)
  then show ?thesis
  proof (elim disjE exE conjE)
    fix c n assume c: "typed_cap (res k) c" "insert_cap cid c k = Inr (n, k')"
    then have "res k' = res k" by (auto simp: insert_cap_def split: sum.splits)
    then show ?thesis using flow_typed [OF assms(1) flow_insert_cap [OF c(2), of "{c}"]] c(1) by simp
  qed (use assms(1) in simp)
qed

lemma gens_up_allocate:
  assumes "allocate who b g = Some (got, b', g')"
  shows "gens_up g g'"
proof (cases got)
  case None
  then show ?thesis using assms
    by (auto simp: allocate_def Let_def split: option.splits Option.bind_splits)
next
  case (Some rid)
  note a = assms [unfolded Some]
  have "\<exists>r'. get_record g' j = Some r' \<and> rec_generation r \<le> rec_generation r'" if "get_record g j = Some r" for j r
    using allocate_record [OF a] allocate_other [OF a, of j] that less_imp_le
    by (cases "j = rid") (auto simp: get_resource_generation_def)
  then show ?thesis by (simp add: gens_up_def)
qed

lemma typed_flow_cap:
  assumes "kernel_typed k" "typed_cap (res k) c" "flow i {c} k k'"
  shows "kernel_typed k'"
  using flow_typed [OF assms(1,3)] assms typed_cap_up by (auto simp: kernel_typed_def flow_def)

text \<open>What a mint does once the identifier is allocated: the new capability alone may appear.\<close>

lemma mint_tail_flow:
  assumes "(case insert_cap cid c k of
       Inl _ \<Rightarrow> ret (- 1) (k\<lparr>band := b\<rparr>)
     | Inr (i, k2) \<Rightarrow>
        (case write_user_bytes cid p bs k2 of
           (True, k3) \<Rightarrow> ret (int i) k3
         | (False, k3) \<Rightarrow>
            (let k4 = remove_cap cid i k3 in do {
               (ok, b', g') \<leftarrow> revoke_owned rid who (band k4) (res k4);
               ret (- 1) (k4\<lparr>band := b', res := g'\<rparr>)
             }))) = Some (out, k')"
  shows "flow (me cid k) {c} k k'"
proof (cases "insert_cap cid c k")
  case (Inr q)
  obtain i k2 where q: "q = (i, k2)" by fastforce
  have "flow (me cid k) {c} k k2" using flow_insert_cap Inr q by blast
  then show ?thesis using assms Inr q
    by (auto simp: ret_def Let_def split: prod.splits bool.splits Option.bind_splits
        intro!: flow_rules dest!: gens_up_revoke elim!: flow_elims)
qed (use assms in \<open>auto simp: ret_def\<close>)

lemma mint_typed:
  assumes t: "kernel_typed k" and h: "handle_resource_mint cid r p k = Some (out, k')"
  shows "kernel_typed k'"
proof (cases "holds cid RESOURCE_MINT_RESOURCE WRITE k \<and> current_task_endpoint cid (sched k) \<noteq> None")
  case True
  then obtain who where who: "current_task_endpoint cid (sched k) = Some who" by blast
  obtain got b g where a: "allocate who (band k) (res k) = Some (got, b, g)"
    using True h who by (auto simp: handle_resource_mint_def Let_def split: Option.bind_splits)
  let ?k1 = "k\<lparr>band := b, res := g\<rparr>"
  have "flow 0 {} k ?k1" using gens_up_allocate [OF a] by (auto intro!: flow_rules)
  then have t1: "kernel_typed ?k1" by (rule flow_typed [OF t]) simp
  show ?thesis
  proof (cases got)
    case None
    then show ?thesis using h True who a t1 by (auto simp: handle_resource_mint_def Let_def ret_def)
  next
    case (Some rid)
    then obtain c where "mint_cap g rid (ucast r AND (Rights_union (Rights_union READ WRITE) GRANT)) = Some c"
      and "flow (me cid ?k1) {c} ?k1 k'"
      using h True who a mint_tail_flow [where k = ?k1 and cid = cid and rid = rid and who = who]
      by (auto simp: handle_resource_mint_def Let_def split: Option.bind_splits)
    then show ?thesis using typed_flow_cap [OF t1] minted_typed by fastforce
  qed
qed (use h t in \<open>auto simp: handle_resource_mint_def ret_def split: if_splits option.splits\<close>)

lemma step_split:
  assumes "kernel_step N k k'"
  shows "kernel_step {n. \<not> mints n} k k'
    \<or> (\<exists>env b cid n a0 a1 a2 out. n \<in> N \<and> mints n \<and> dispatch env b cid n a0 a1 a2 k = Some (out, k'))"
  using assms
proof cases
  case (ks_call env b cid n a0 a1 a2 out)
  then show ?thesis by (cases "mints n") (blast intro: kernel_step.ks_call)+
qed (blast intro: kernel_step.intros)+

lemma mint_calls_typed:
  assumes "dispatch env b cid n a0 a1 a2 k = Some (out, k')" "mints n" "n \<noteq> SpawnImage" "kernel_typed k"
  shows "kernel_typed k'"
  using assms acquire_typed [OF assms(4)] mint_typed [OF assms(4)] by (auto simp: mints_def dispatch_def)

lemma step_typed:
  assumes "kernel_step {n. n \<noteq> SpawnImage} k k'" "kernel_typed k"
  shows "kernel_typed k'"
  using step_split [OF assms(1)]
proof
  assume s: "kernel_step {n. \<not> mints n} k k'"
  have "routing_wf (routing k)" using assms(2) by (simp add: kernel_typed_def)
  then show ?thesis using step_flow [OF s] derived_typed [OF assms(2)] by auto
qed (use mint_calls_typed assms(2) in blast)

interpretation typed_runs: inv_system "kernel_step {n. n \<noteq> SpawnImage}" kernel_typed
  by unfold_locales (rule step_typed)

lemma typed_assert: "kernel_typed k \<Longrightarrow> assert_caps k = Some ()"
  unfolding assert_caps_def assert_consistent_iff
proof (intro ballI allI impI)
  fix t i c assume k: "kernel_typed k" and t: "t \<in> set (active_tables k)" and c: "slot_cap t i = Some c"
  obtain j where "t = t_caps (tasks (sched k) j)" using t by (auto simp: active_tables_def)
  then have "c \<in> caps_of k j" using c caps_ofI by blast
  then have "c \<in> all_caps k" by (auto simp: all_caps_def)
  then have "typed_cap (res k) c" using k by (simp add: kernel_typed_def)
  then show "cap_consistent (res k) c"
    by (auto simp: typed_cap_def cap_consistent_def get_resource_generation_def less_eq_Generation_def not_less)
qed

section \<open>Properties\<close>

lemma demo_no_msgs: "msgs wit_routing = {}"
proof -
  have "entry_msgs e = {}" if "e \<in> set (table wit_routing)" for e
    using that set_update_subset_insert [of "table Routing_init" 0 "fresh_entry 100 0 (Generation 1) RoutingEntry_empty"]
    by (auto simp: wit_routing_def Routing_init_def RoutingEntry_empty_def entry_msgs_def fresh_entry_def)
  then show ?thesis by (simp add: msgs_def)
qed

lemma demo_all_caps: "all_caps demo_kernel \<subseteq> {demo_send, demo_grant, demo_recv}"
proof -
  have "caps_of demo_kernel j \<subseteq> {demo_send, demo_grant, demo_recv}" for j
  proof (cases "j = 0")
    case True
    then show ?thesis by (auto simp: caps_of_def demo_slot_cap split: if_splits)
  next
    case False
    then have "t_caps (tasks demo_sched j) = CapTable_empty"
      by (simp add: demo_sched_def wit_sched_def wit_task_def upd_task_def)
    then show ?thesis by (auto simp: caps_of_def slot_cap_def CapTable_empty_def split: if_splits)
  qed
  then show ?thesis using demo_no_msgs by (force simp: all_caps_def)
qed

lemma demo_typed: "kernel_typed demo_kernel"
proof -
  have "CapTable_wf (t_caps (tasks demo_sched j))" for j
    by (simp add: demo_sched_def wit_sched_def wit_task_def upd_task_def demo_caps_def CapTable_wf_def MAX_CAPS_PER_TASK_def
        CapTable_empty_def)
  then show ?thesis
    using demo_all_caps by (auto simp: kernel_typed_def wit_routing_wf typed_cap_def demo_record demo_send_def demo_grant_def
        demo_recv_def)
qed

lemma demo_derive: "\<exists>k'. dispatch demo_env demo_board 0 DeriveCap 1 0 0 demo_kernel = Some (Return 3, k')"
proof -
  have "find_idx (\<lambda>s. s = None) (slots demo_caps) = Some 3"
    by (simp add: demo_caps_def find_idx_def numeral_eq_Suc upt_rec)
  then show ?thesis
    by (auto simp: dispatch_def handle_derive_cap_def demo_lookup(2) [simplified] insert_cap_def
        current_task_insert_cap_def CapTable_insert_def ret_def Let_def)
qed

text \<open>C1: No operation but the three that mint makes authority. Along any run of system calls other than
  \<open>AcquireSendCap\<close>, \<open>ResourceMint\<close> and \<open>SpawnImage\<close>, of blocked calls going on, interrupts, ticks, preemptions and faults,
  every capability that is in some task's table or in a message under way at the end is a copy of one that was there at the
  start, for the same incarnation of the same resource, with no right added.\<close>

theorem authority_only_shrinks:
  assumes "routing_wf (routing k)" "(kernel_step {n. \<not> mints n})\<^sup>*\<^sup>* k k'"
  shows "all_caps k' \<subseteq> derived (all_caps k)"
  using assms(2)
proof (induction rule: rtranclp_induct)
  case base
  then show ?case by (auto intro: derived_mem)
next
  case (step k1 k2)
  have wf: "routing_wf (routing k1)" using kernel_runs.run_inv [OF step.hyps(1)] assms(1) .
  then have "all_caps k2 \<subseteq> derived (all_caps k1)" using step_flow [OF step.hyps(2)] flow_all_caps by auto
  also have "\<dots> \<subseteq> derived (all_caps k)" using derived_mono [OF step.IH] derived_idem by blast
  finally show ?case .
qed

theorem authority_only_shrinks_witness:
  "\<exists>k'. dispatch demo_env demo_board 0 DeriveCap 1 0 0 demo_kernel = Some (Return 3, k')
     \<and> all_caps k' \<subseteq> derived {demo_send, demo_grant, demo_recv}"
proof -
  obtain k' where k': "dispatch demo_env demo_board 0 DeriveCap 1 0 0 demo_kernel = Some (Return 3, k')"
    using demo_derive by blast
  then have "kernel_step {n. \<not> mints n} demo_kernel k'" by (rule ks_call) (simp add: mints_def)
  then show ?thesis
    using authority_only_shrinks [of demo_kernel k'] k' wit_routing_wf derived_mono [OF demo_all_caps] by auto
qed



end
