(* ===== verification/Syscall_Props.thy ===== *)
theory Syscall_Props
  imports Authority
begin

text \<open>
  What each system call needs and what the calls that move authority do with it: the table of the capabilities that every call
  checks before it has an effect, and the move of a capability with a message.
\<close>

unbundle bit_operations_syntax

section \<open>The authority a call needs\<close>

text \<open>A call names the slot of the capability it uses, perhaps for one resource only, or has the kernel look for a resource in
  any slot.\<close>

datatype Need = InSlot slot Rights | Scoped slot Rights ResourceId | Held ResourceId Rights

fun need_met :: "nat \<Rightarrow> Kernel \<Rightarrow> Need \<Rightarrow> bool" where
  "need_met cid k (InSlot i r) = (case lookup_cap cid i r k of Inr _ \<Rightarrow> True | Inl _ \<Rightarrow> False)"
| "need_met cid k (Scoped i r rid) = (case lookup_scoped cid i r rid k of Inr _ \<Rightarrow> True | Inl _ \<Rightarrow> False)"
| "need_met cid k (Held rid r) = holds cid rid r k"

definition needs :: "SyscallNumber \<Rightarrow> u64 \<Rightarrow> u64 \<Rightarrow> u64 \<Rightarrow> Need list" where
  "needs n a0 a1 a2 = (case n of
     Send \<Rightarrow> [InSlot (unat a0) SEND]
   | TrySend \<Rightarrow> [InSlot (unat a0) SEND]
   | Recv \<Rightarrow> [InSlot (unat a0) RECV]
   | TryRecv \<Rightarrow> [InSlot (unat a0) RECV]
   | RecvTimeout \<Rightarrow> [InSlot (unat (a0 AND 0xFFFF)) RECV]
   | SendWithCap \<Rightarrow> [InSlot (unat (a0 AND 0xFFFF)) SEND, InSlot (unat (drop_bit 16 a0 AND 0xFFFF)) GRANT]
   | Call \<Rightarrow> [InSlot (unat (a0 AND 0xFFFF)) SEND, InSlot (unat (drop_bit 16 a0 AND 0xFFFF)) GRANT,
       InSlot (unat (drop_bit 16 a2 AND 0xFFFF)) RECV]
   | CallDeadline \<Rightarrow> [InSlot (unat (a0 AND 0xFF)) SEND, InSlot (unat (drop_bit 8 a0 AND 0xFF)) GRANT,
       InSlot (unat (drop_bit 16 a0 AND 0xFF)) RECV]
   | DeriveCap \<Rightarrow> [InSlot (unat a0) GRANT]
   | ResourceInvoke \<Rightarrow> [InSlot (unat (a0 AND 0xFFF)) (ucast (drop_bit 24 a0 AND 0xFF)),
       InSlot (unat (drop_bit 12 a0 AND 0xFFF)) GRANT]
   | Log \<Rightarrow> [Scoped (unat a0) WRITE LOG_WRITE_RESOURCE]
   | Print \<Rightarrow> [Scoped (unat a0) WRITE LOG_WRITE_RESOURCE]
   | ConsoleWrite \<Rightarrow> [Scoped (unat a0) WRITE LOG_WRITE_RESOURCE]
   | ConsoleRead \<Rightarrow> [Scoped (unat a0) READ CONSOLE_READ_RESOURCE]
   | TryConsoleRead \<Rightarrow> [Scoped (unat a0) READ CONSOLE_READ_RESOURCE]
   | ConsoleEcho \<Rightarrow> [Scoped (unat a0) READ CONSOLE_READ_RESOURCE]
   | ConsoleForeground \<Rightarrow> [Scoped (unat a0) READ CONSOLE_READ_RESOURCE]
   | ConsoleBootComplete \<Rightarrow> [Scoped (unat a0) READ CONSOLE_READ_RESOURCE]
   | SignalInputReady \<Rightarrow> [Scoped (unat a0) WRITE CONSOLE_PUSH_RESOURCE]
   | ConsolePush \<Rightarrow> [Scoped (unat a0) WRITE CONSOLE_PUSH_RESOURCE]
   | SpawnImage \<Rightarrow> [Scoped (unat a2) WRITE SPAWN_RESOURCE, Held IMAGE_SPAWN_RESOURCE WRITE]
   | KillTask \<Rightarrow> [Held SERVICE_CONTROL_RESOURCE WRITE]
   | ResourceMint \<Rightarrow> [Held RESOURCE_MINT_RESOURCE WRITE]
   | TaskStat \<Rightarrow> [Held INTROSPECT_RESOURCE READ]
   | TaskCaps \<Rightarrow> [Held INTROSPECT_RESOURCE READ]
   | InspectKernel \<Rightarrow> (if unat a0 \<in> set UNGATED then [] else [Held INTROSPECT_RESOURCE READ])
   | Reboot \<Rightarrow> [Held REBOOT_RESOURCE WRITE]
   | PowerOff \<Rightarrow> [Held (if a0 = 3 \<or> a0 = 4 then REBOOT_RESOURCE else POWER_OFF_RESOURCE) WRITE]
   | FireIrq \<Rightarrow> [Held FIRE_IRQ_RESOURCE WRITE]
   | DevicePower \<Rightarrow> [Held DEVICE_POWER_RESOURCE WRITE]
   | CpuClock \<Rightarrow> [Held CPU_CLOCK_RESOURCE WRITE]
   | PciCfgRead \<Rightarrow> [Held PCI_CFG_RESOURCE READ]
   | NetFrameTx \<Rightarrow> [Held NET_DEVICE_RESOURCE WRITE]
   | NetFrameRx \<Rightarrow> [Held NET_DEVICE_RESOURCE WRITE]
   | NetInfo \<Rightarrow> [Held NET_DEVICE_RESOURCE WRITE]
   | Gpio \<Rightarrow> [Held GPIO_DEVICE_RESOURCE WRITE]
   | UsbDiskInfo \<Rightarrow> [Held USB_DISK_RESOURCE WRITE]
   | UsbDiskRead \<Rightarrow> [Held USB_DISK_RESOURCE WRITE]
   | UsbDiskWrite \<Rightarrow> [Held USB_DISK_RESOURCE WRITE]
   | UsbDiskFlush \<Rightarrow> [Held USB_DISK_RESOURCE WRITE]
   | _ \<Rightarrow> [])"

text \<open>A refusal is a negative answer with nothing changed.\<close>

definition refusal :: "Kernel \<Rightarrow> (Outcome \<times> Kernel) panics \<Rightarrow> bool" where
  "refusal k r \<longleftrightarrow> (\<exists>v. v < 0 \<and> r = Some (Return v, k))"

lemma cap_err_negative [simp]: "cap_err_to_i64 e < 0"
  by (cases e) (simp_all add: cap_err_to_i64_def)

lemma refusal_ret [simp]: "refusal k (ret v k) \<longleftrightarrow> v < 0"
  by (auto simp: refusal_def ret_def)

lemma refusal_need_simps:
  "\<not> need_met cid k (InSlot i r) \<longleftrightarrow> (\<exists>e. lookup_cap cid i r k = Inl e)"
  "\<not> need_met cid k (Scoped i r rid) \<longleftrightarrow> (\<exists>e. lookup_scoped cid i r rid k = Inl e)"
  by (auto split: sum.splits)

lemmas refusal_defs = dispatch_def needs_def refusal_need_simps handle_send_def handle_try_send_def handle_recv_def
  handle_try_recv_def handle_recv_timeout_def handle_send_with_cap_def handle_call_def handle_call_deadline_def do_call_def
  handle_derive_cap_def handle_resource_invoke_def handle_log_def handle_print_def handle_console_write_def
  handle_console_read_def handle_try_console_read_def gated_slot_def handle_console_echo_def handle_console_foreground_def
  handle_console_boot_complete_def handle_signal_input_ready_def handle_console_push_def handle_spawn_image_def
  handle_kill_def handle_resource_mint_def handle_task_stat_def handle_task_caps_def handle_inspect_kernel_def gated_def
  handle_reboot_def handle_power_off_def handle_fire_irq_def handle_device_power_def handle_cpu_clock_def
  handle_pci_cfg_read_def handle_net_frame_tx_def handle_net_frame_rx_def handle_net_info_def handle_gpio_def
  handle_usb_disk_info_def handle_usb_disk_read_def handle_usb_disk_write_def handle_usb_disk_flush_def Let_def

lemma build_message_negative: "build_message env cid p l k = Inl e \<Longrightarrow> e < 0"
  by (auto simp: build_message_def Let_def ipc_err_to_i64_def split: if_splits option.splits sum.splits IpcError.splits)

text \<open>C2: Every access is checked. A system call that needs a capability (the table \<open>needs\<close>: the slots it names with the
  right it uses, or a resource the caller must hold) and whose caller lacks any of them answers with a negative code and changes
  nothing: no message moves, no device is asked for anything, no byte of user memory is written.\<close>

theorem unauthorised_call_refused:
  assumes "need \<in> set (needs n a0 a1 a2)" "\<not> need_met cid k need"
  shows "refusal k (dispatch env b cid n a0 a1 a2 k)"
  using assms
  by (cases n) (auto simp: refusal_defs ipc_err_to_i64_def lookup_grant_def simp del: need_met.simps(1,2)
      dest: build_message_negative split: if_splits sum.split option.split)

theorem unauthorised_call_refused_witness:
  "\<not> need_met 0 demo_kernel (Held SERVICE_CONTROL_RESOURCE WRITE)
   \<and> refusal demo_kernel (dispatch demo_env demo_board 0 KillTask 4096 5 0 demo_kernel)"
proof -
  have "\<not> need_met 0 demo_kernel (Held SERVICE_CONTROL_RESOURCE WRITE)"
    by (auto simp: holds_def current_task_holds_resource_def holds_resource_iff demo_slot_cap demo_send_def demo_grant_def
        demo_recv_def SERVICE_CONTROL_RESOURCE_def split: if_splits)
  then show ?thesis using unauthorised_call_refused [of "Held SERVICE_CONTROL_RESOURCE WRITE" KillTask 4096 5 0] by (simp add: needs_def)
qed

section \<open>A capability moves with its message\<close>

text \<open>The messages queued at an endpoint or kept for it.\<close>

definition at_endpoint :: "Routing \<Rightarrow> EndpointId \<Rightarrow> Message set" where
  "at_endpoint r ep = (case find_index (table r) ep of None \<Rightarrow> {} | Some i \<Rightarrow> entry_msgs (table r ! i))"

lemma enqueue_blocking_cases:
  assumes "routing_wf r" "routing_enqueue ep m g (Some s) r = (x, r')"
  shows "x = Inl IpcEndpointDead \<and> r' = r \<or> (x = Inl QueueFull \<or> (\<exists>w. x = Inr w)) \<and> m \<in> at_endpoint r' ep"
proof (cases "\<exists>i. find_index (table r) ep = Some i \<and> check_live (table r ! i) g = Inr ()")
  case True
  then obtain i where i: "find_index (table r) ep = Some i" and c: "check_live (table r ! i) g = Inr ()" by blast
  obtain y e' where d: "deliver_entry m (Some s) (table r ! i) = (y, e')" by fastforce
  have r': "x = y" "r' = r\<lparr>table := (table r)[i := e']\<rparr>" using assms(2) i c d by (auto simp: routing_enqueue_def)
  have e: "entry_wf (table r ! i)" using routing_wf_entry [OF assms(1)] find_index_SomeD(1) [OF i] .
  have f: "find_index (table r') ep = Some i"
    using i deliver_entry_frame [of m "Some s" "table r ! i"] by (simp add: r' d find_index_update)
  have "m \<in> entry_msgs e'" "x = Inl QueueFull \<or> (\<exists>w. x = Inr w)"
    using deliver_entry_spec [OF e d] r' by (auto simp: entry_msgs_def split: if_splits)
  then show ?thesis using f find_index_SomeD(1) [OF i] by (simp add: at_endpoint_def r')
next
  case False
  then show ?thesis using assms(2) by (auto simp: routing_enqueue_def check_live_def split: option.splits sum.splits if_splits)
qed

lemma remove_cap_tables:
  assumes "lookup_grant cid i k = Inr c" and t: "same_caps (sched (remove_cap cid i k)) (sched k')"
  shows "slot_cap (t_caps (tasks (sched k') (me cid k))) i = None"
    and "j \<noteq> i \<Longrightarrow> slot_cap (t_caps (tasks (sched k') (me cid k))) j = slot_cap (t_caps (tasks (sched k) (me cid k))) j"
    and "n \<noteq> me cid k \<Longrightarrow> t_caps (tasks (sched k') n) = t_caps (tasks (sched k) n)"
proof -
  have "current_valid cid (sched k)"
    using assms(1) by (auto simp: lookup_grant_def lookup_cap_def current_task_lookup_cap_def split: sum.splits if_splits)
  then show "slot_cap (t_caps (tasks (sched k') (me cid k))) i = None"
    "j \<noteq> i \<Longrightarrow> slot_cap (t_caps (tasks (sched k') (me cid k))) j = slot_cap (t_caps (tasks (sched k) (me cid k))) j"
    "n \<noteq> me cid k \<Longrightarrow> t_caps (tasks (sched k') n) = t_caps (tasks (sched k) n)"
    using t by (simp_all add: same_caps_def remove_cap_def current_task_remove_cap_def Let_def case_prod_unfold upd_task_def
        slot_cap_remove)
qed

lemma enqueue_moving_cases:
  assumes "routing_wf (routing k)" "enqueue_moving cid ep m g i k = Some (out, k')"
  shows "k' = k \<and> out = Return (- 7)
    \<or> same_caps (sched (remove_cap cid i k)) (sched k') \<and> m \<in> at_endpoint (routing k') ep"
proof -
  obtain x r where e: "routing_enqueue ep m g (Some (me cid k)) (routing k) = (x, r)" by fastforce
  let ?q = "remove_cap cid i (k\<lparr>routing := r\<rparr>)"
  have q: "routing ?q = r" "sched ?q = sched (remove_cap cid i k)" by (simp_all add: remove_cap_def)
  have "k' = k \<and> out = Return (- 7)
    \<or> m \<in> at_endpoint r ep \<and> (k' = ?q \<or> (\<exists>w. k' = wake cid w 0 ?q) \<or> block_sender cid ?q = Some (out, k'))"
    using enqueue_blocking_cases [OF assms(1) e] assms(2) [unfolded enqueue_moving_def e prod.case]
  proof (elim disjE conjE exE)
    fix w assume "x = Inr w" "m \<in> at_endpoint r ep"
    then show ?thesis using assms(2) by (cases w) (auto simp: enqueue_moving_def e ret_def)
  qed (simp_all add: ret_def ipc_err_to_i64_def)
  then consider "k' = k" "out = Return (- 7)" | "m \<in> at_endpoint r ep" "k' = ?q"
    | w where "m \<in> at_endpoint r ep" "k' = wake cid w 0 ?q" | "m \<in> at_endpoint r ep" "block_sender cid ?q = Some (out, k')"
    by blast
  then show ?thesis
  proof cases
    case (3 w)
    then show ?thesis using q wake_same_caps [of "sched ?q" cid w 0] by (simp add: wake_def)
  next
    case 4
    then have "routing k' = routing ?q" "same_caps (sched ?q) (sched k')"
      using block_same_caps by (auto simp: block_sender_def block_current_def split: Option.bind_splits)
    then show ?thesis using 4 q by simp
  qed (use q in simp_all)
qed

text \<open>C5: A capability sent with a message moves: it is never copied and never lost. Either the call is refused with nothing
  changed, or afterwards a message from the caller that carries the capability is at the endpoint sent to and the caller's slot
  is empty, every other slot and every other task's table being as before.\<close>

theorem capability_moves_with_message:
  assumes "routing_wf (routing k)" "lookup_grant cid (unat (drop_bit 16 packed AND 0xFFFF)) k = Inr c"
    and "dispatch env b cid SendWithCap packed p l k = Some (out, k')"
  shows "k' = k \<and> (\<exists>v<0. out = Return v)
    \<or> (\<exists>target m. lookup_cap cid (unat (packed AND 0xFFFF)) SEND k = Inr target
        \<and> m \<in> at_endpoint (routing k') (resource_id target) \<and> msg_caps m = {c}
        \<and> sender_ep m = (case current_task_endpoint cid (sched k) of Some e \<Rightarrow> e | None \<Rightarrow> 0)
        \<and> (\<forall>n i. slot_cap (t_caps (tasks (sched k') n)) i =
             (if n = me cid k \<and> i = unat (drop_bit 16 packed AND 0xFFFF) then None
              else slot_cap (t_caps (tasks (sched k) n)) i)))"
proof (cases "k' = k \<and> (\<exists>v<0. out = Return v)")
  case False
  let ?i = "unat (drop_bit 16 packed AND 0xFFFF)"
  have n: "out = Return v \<Longrightarrow> k' = k \<Longrightarrow> \<not> v < 0" for v using False by blast
  obtain target m where t: "lookup_cap cid (unat (packed AND 0xFFFF)) SEND k = Inr target"
    and m: "build_message env cid p l k = Inr m"
    and e: "enqueue_moving cid (resource_id target) (embed_cap c m) (generation target) ?i k = Some (out, k')"
    using assms(2,3) build_message_negative [of env cid p l k]
    by (auto dest!: n simp: dispatch_def handle_send_with_cap_def Let_def ret_def split: sum.splits)
  have "msg_caps (embed_cap c m) = {c}" "sender_ep (embed_cap c m) =
      (case current_task_endpoint cid (sched k) of Some e \<Rightarrow> e | None \<Rightarrow> 0)"
    using m embed_caps(2) [OF build_message_bare [OF m], of c]
    by (auto simp: build_message_def Message_new_def embed_cap_def msg_caps_def Let_def MAX_EMBEDDED_CAPS_def
        set_update_memI split: if_splits option.splits sum.splits)
  moreover have "same_caps (sched (remove_cap cid ?i k)) (sched k')"
    "embed_cap c m \<in> at_endpoint (routing k') (resource_id target)"
    using enqueue_moving_cases [OF assms(1) e] by (auto dest!: n)
  ultimately show ?thesis using remove_cap_tables [OF assms(2)] t by (metis (no_types, lifting))
qed blast

lemma demo_packed [simp]:
  "unat (drop_bit 16 (0x10000 :: u64) AND 0xFFFF) = 1" "unat ((0x10000 :: u64) AND 0xFFFF) = 0"
  by (simp_all add: drop_bit_eq_div)

lemma demo_enqueue:
  "\<exists>r. routing_enqueue 100 m (Generation 1) s wit_routing = (Inr None, r)"
proof -
  have "check_live (table wit_routing ! 0) (Generation 1) = Inr ()"
    by (simp add: check_live_def wit_routing_entry)
  moreover obtain y e where d: "deliver_entry m s (table wit_routing ! 0) = (y, e)" by fastforce
  moreover have "entry_wf (table wit_routing ! 0)"
    using routing_wf_entry [OF wit_routing_wf find_index_SomeD(1) [OF wit_routing_entry(1)]] .
  then have "y = Inr None" using deliver_entry_spec [OF _ d] by (simp add: wit_routing_entry)
  ultimately show ?thesis by (simp add: routing_enqueue_def wit_routing_entry)
qed

theorem capability_moves_with_message_witness:
  "\<exists>k' m. dispatch demo_env demo_board 0 SendWithCap 0x10000 0 0 demo_kernel = Some (Return 0, k')
     \<and> m \<in> at_endpoint (routing k') 100 \<and> msg_caps m = {demo_grant}
     \<and> slot_cap (t_caps (tasks (sched k') 0)) 1 = None"
proof -
  let ?m = "\<lparr>payload = replicate MAX_MESSAGE_SIZE 0, payload_len = 0, caps = replicate 4 None, cap_count = 0,
    badge_id = 0, badge_right = 0, sender_ep = 100\<rparr>"
  have "build_message demo_env 0 0 0 demo_kernel = Inr ?m"
    by (simp add: build_message_def Message_new_def MAX_EMBEDDED_CAPS_def current_task_endpoint_def ep_from_u64_def)
  then have "dispatch demo_env demo_board 0 SendWithCap 0x10000 0 0 demo_kernel
      = enqueue_moving 0 100 (embed_cap demo_grant ?m) (Generation 1) 1 demo_kernel"
    unfolding dispatch_def handle_send_with_cap_def Let_def demo_packed SyscallNumber.case demo_lookup sum.case
    by (simp add: demo_send_def)
  moreover obtain r where "routing_enqueue 100 (embed_cap demo_grant ?m) (Generation 1) (Some 0) wit_routing = (Inr None, r)"
    using demo_enqueue by blast
  ultimately obtain k' where d: "dispatch demo_env demo_board 0 SendWithCap 0x10000 0 0 demo_kernel = Some (Return 0, k')"
    by (simp add: enqueue_moving_def ret_def)
  have "lookup_grant 0 (unat (drop_bit 16 (0x10000 :: u64) AND 0xFFFF)) demo_kernel = Inr demo_grant"
    unfolding demo_packed by (rule demo_lookup)
  note capability_moves_with_message [OF _ this d, unfolded demo_packed]
  then show ?thesis using d wit_routing_wf demo_lookup(1) by (auto simp: demo_send_def)
qed

end
