(* ===== verification/Reply_Wait.thy ===== *)
theory Reply_Wait
  imports Syscall_Props
begin

text \<open>
  The wait of a caller for its reply (\<open>do_call\<close> of \<open>kernel/src/syscall/dispatch.rs\<close>) against the death of the peer
  (\<open>kill_task_by_slot\<close> of \<open>kernel/src/task/scheduler.rs\<close>): two runs in which the caller does not get what the comments
  of the code promise.
\<close>

lemma wake_other_err:
  assumes "live_task (sched q) w" "w < MAX_TASKS" "w \<noteq> i"
  shows "live_task (sched (wake_other cid i r who q)) w"
    and "t_wakeup_err (tasks (sched (wake_other cid i r who q)) w)
      = (if who = Some w then r else t_wakeup_err (tasks (sched q) w))"
  using assms
  by (auto simp: wake_other_def wake_def wake_by_slot_def upd_task_def Let_def live_task_def task_is_def split: option.split)

lemma wake_other_routing [simp]: "routing (wake_other cid i r who q) = routing q"
  by (simp add: wake_other_def wake_def split: option.split)

lemma wake_all_err:
  assumes "live_task (sched q) w" "w < MAX_TASKS" "w \<noteq> i" "w \<in> set ws \<or> t_wakeup_err (tasks (sched q) w) = r"
  shows "t_wakeup_err (tasks (sched (fold (\<lambda>v. wake_other cid i r (Some v)) ws q)) w) = r"
  using assms
proof (induction ws arbitrary: q)
  case (Cons v vs)
  have "live_task (sched (wake_other cid i r (Some v) q)) w" using wake_other_err(1) [OF Cons.prems(1-3)] .
  moreover have "w \<in> set vs \<or> t_wakeup_err (tasks (sched (wake_other cid i r (Some v) q)) w) = r"
    using Cons.prems(4) wake_other_err(2) [OF Cons.prems(1-3)] by auto
  ultimately show ?case using Cons.IH Cons.prems(2,3) by simp
qed simp

lemma kill_endpoint_others:
  assumes "kill_endpoint ep r = Some (w, r')" "e \<noteq> ep"
  shows "find_index (table r') e = find_index (table r) e" "find_index (table r) e = Some j \<Longrightarrow> table r' ! j = table r ! j"
proof -
  have "find_index (table r') e = find_index (table r) e \<and> (\<forall>j. find_index (table r) e = Some j \<longrightarrow> table r' ! j = table r ! j)"
  proof (cases "find_index (table r) ep")
    case None
    then show ?thesis using assms(1) by (simp add: kill_endpoint_def)
  next
    case (Some n)
    let ?f = "\<lambda>g. (table r ! n)\<lparr>re_live := EpDead, re_gen := g, re_queue := drain (re_queue (table r ! n)),
      blocked_receiver := None, blocked_sender := None, pending_send := None\<rparr>"
    obtain g where t: "table r' = (table r)[n := ?f g]"
      using assms(1) Some by (auto simp: kill_endpoint_def Let_def split: Option.bind_splits)
    have "find_index (table r') e = find_index (table r) e" unfolding t by (rule find_index_update) simp_all
    moreover have "j \<noteq> n" if "find_index (table r) e = Some j" for j
      using find_index_SomeD [OF that] find_index_SomeD [OF Some] assms(2) by auto
    ultimately show ?thesis by (auto simp: t)
  qed
  then show "find_index (table r') e = find_index (table r) e"
    "find_index (table r) e = Some j \<Longrightarrow> table r' ! j = table r ! j" by auto
qed

text \<open>Whether an endpoint holds a reply depends on its entry only.\<close>

lemma dequeue_reply_cong:
  assumes "find_index (table r') e = find_index (table r) e" "\<And>j. find_index (table r) e = Some j \<Longrightarrow> table r' ! j = table r ! j"
  shows "fst (dequeue_reply e g t r') = fst (dequeue_reply e g t r)"
  using assms by (auto simp: dequeue_reply_def Let_def case_prod_unfold split: option.split sum.split)

text \<open>The death of a task's primary endpoint, as a caller that awaits it sees it.\<close>

lemma primary_death_wakes:
  assumes k': "kill_primary_endpoint cid i rep k = Some k'" "t_endpoint (tasks (sched k) i) = ep" "ep \<noteq> 0"
    and w: "call_await (routing k) w = ep" "w < MAX_TASKS" "w \<noteq> i" "live_task (sched k) w"
  shows "t_wakeup_err (tasks (sched k') w) = - 12" "woken (sched k') w"
    "e \<noteq> ep \<Longrightarrow> fst (dequeue_reply e g t (routing k')) = fst (dequeue_reply e g t (routing k))"
proof -
  obtain rx tx r ws r2 where ke: "kill_endpoint ep (routing k) = Some ((rx, tx), r)"
    and dr: "drain_call_waiters ep r = Some (ws, r2)" and r': "routing k' = r2"
    using kill_primary_cases [OF k'] by blast
  have ws: "w \<in> set ws" "table r2 = table r"
    using drain_call_waiters_total [OF k'(3), of r] dr w kill_endpoint_gone(2) [OF ke] by (auto simp: waiting_on_def)
  define q where "q = wake_other cid i (- 7) tx (wake_other cid i (- 7) rx (k\<lparr>routing := r\<rparr>))"
  have q: "live_task (sched q) w" "routing q = r" unfolding q_def using w by (simp_all add: wake_other_err(1))
  have "sched k' = sched (fold (\<lambda>v. wake_other cid i (- 12) (Some v)) ws (q\<lparr>routing := r2\<rparr>))"
    using k'(1) ke dr k'(2,3) q(2)
    by (auto simp: kill_primary_endpoint_def ep_from_u64_def Let_def irq_unregister_spec q_def [symmetric] case_prod_unfold
        split: Option.bind_splits option.splits)
  then show "t_wakeup_err (tasks (sched k') w) = - 12" using wake_all_err [of "q\<lparr>routing := r2\<rparr>"] q(1) w(2,3) ws by simp
  show "woken (sched k') w" using kill_primary_cases [OF k'] ke dr ws(1) w(3) by auto
  show "e \<noteq> ep \<Longrightarrow> fst (dequeue_reply e g t (routing k')) = fst (dequeue_reply e g t (routing k))"
    using kill_endpoint_others [OF ke] ws(2) r' by (intro dequeue_reply_cong) simp_all
qed

text \<open>C37: A reply that is queued before the peer dies can be lost to its death. The kill wakes every task that awaits the
  dead endpoint with \<open>-12\<close>, also one whose reply is in its queue already; that task leaves its call with \<open>-12\<close> without looking
  at the queue, where one more pass would have found the reply.\<close>

theorem queued_reply_lost:
  assumes "kill_primary_endpoint cid i rep k = Some k1" "t_endpoint (tasks (sched k) i) = target" "target \<noteq> 0"
    and "call_await (routing k) w = target" "w < MAX_TASKS" "w \<noteq> i" "live_task (sched k) w"
    and "fst (dequeue_reply (resource_id cap) (generation cap) target (routing k)) = Inr (m, tx)" "resource_id cap \<noteq> target"
    and "routing k2 = routing k1" "me c k2 = w" "t_wakeup_err (tasks (sched k2) w) = t_wakeup_err (tasks (sched k1) w)"
  shows "call_resume c cap target p l d k2 = Some (Return (- 12), clear_deadline c k2)
    \<and> fst (call_dequeue (resource_id cap) (generation cap) target w (routing k2)) = Inr (m, tx)"
proof
  have "resume_err c k2 = - 12" using primary_death_wakes(1) [OF assms(1-7)] assms(11,12) by (simp add: resume_err_def)
  then show "call_resume c cap target p l d k2 = Some (Return (- 12), clear_deadline c k2)"
    by (simp add: call_resume_def leave_timed_def ret_def)
  have "fst (dequeue_reply (resource_id cap) (generation cap) target (routing k2)) = Inr (m, tx)"
    using primary_death_wakes(3) [OF assms(1-7,9)] assms(8,10) by simp
  then show "fst (call_dequeue (resource_id cap) (generation cap) target w (routing k2)) = Inr (m, tx)"
    by (auto simp: call_dequeue_def split: prod.split sum.split)
qed

text \<open>C38: A call that ran into its deadline still counts as awaiting its target. The record of the wait stays when the call
  returns, so the later death of that target wakes the task out of whatever it waits for then: a plain receive on
  another endpoint ends with \<open>-12\<close>, though its endpoint is alive.\<close>

theorem timed_out_call_still_awaits:
  assumes "call_dequeue (resource_id cap) (generation cap) target (me c k) (routing k) = (Inl QueueEmpty, r)"
    and "d \<noteq> 0" "d \<le> monotonic_ticks (sched k)" "me c k < MAX_TASKS" "target \<noteq> 0"
    and "kill_primary_endpoint cid i rep k2 = Some k3" "t_endpoint (tasks (sched k2) i) = target" "me c k \<noteq> i"
    and "call_await (routing k2) (me c k) = call_await r (me c k)" "live_task (sched k2) (me c k)" "me c2 k3 = me c k"
  shows "call_pass c cap target p l d k = Some (Return RECV_TIMED_OUT, clear_deadline c (k\<lparr>routing := r\<rparr>))
    \<and> recv_resume c2 cap2 p2 l2 k3 = Some (Return (- 12), k3)"
proof
  show "call_pass c cap target p l d k = Some (Return RECV_TIMED_OUT, clear_deadline c (k\<lparr>routing := r\<rparr>))"
    using assms(1-3) by (simp add: call_pass_def timed_wait_def leave_timed_def ret_def)
  have "call_await r (me c k) = target"
    using assms(1,4) by (auto simp: call_dequeue_def Let_def set_call_await_def split: prod.splits sum.splits if_splits)
  then have "resume_err c2 k3 = - 12"
    using primary_death_wakes(1) [OF assms(6,7,5) _ assms(4,8,10)] assms(9,11) by (simp add: resume_err_def)
  then show "recv_resume c2 cap2 p2 l2 k3 = Some (Return (- 12), k3)" by (simp add: recv_resume_def ret_def)
qed

section \<open>Witnesses\<close>

text \<open>Task 3 serves endpoint 5, which task 0 called; the reply waits at task 0's endpoint 100.\<close>

definition lost_kernel :: Kernel where
  "lost_kernel = demo_kernel\<lparr>routing := set_call_await 0 5 wit_routing2,
     sched := upd_task 3 (\<lambda>t. t\<lparr>t_endpoint := 5\<rparr>) demo_sched\<rparr>"

lemma release_nothing: "release_owner who Band_new g = Some (0, Band_new, g)"
proof -
  have "scan (\<lambda>i. False) 0 DELEGATED_CAP = None" by (simp add: scan_None)
  then show ?thesis by (simp add: release_owner_def release_owner_loop.simps Band_take_one_owned_def Band_new_def)
qed

lemma kill_primary_exists:
  assumes "t_endpoint (tasks (sched k) i) = ep" "ep \<noteq> 0" "kill_endpoint ep (routing k) = Some (w, r)"
    and "mark_dead_resource ep (res k) = Some g" "band k = Band_new"
  shows "\<exists>k'. kill_primary_endpoint cid i rep k = Some k'"
proof -
  obtain rx tx where w: "w = (rx, tx)" by fastforce
  define q where "q = wake_other cid i (- 7) tx (wake_other cid i (- 7) rx (k\<lparr>routing := r\<rparr>))"
  have q: "res q = res k" "band q = band k" "routing q = r"
    by (simp_all add: q_def wake_other_def wake_def split: option.split)
  obtain ws r2 where d: "drain_call_waiters ep r = Some (ws, r2)" using drain_call_waiters_total [OF assms(2)] by blast
  obtain s where "fold (\<lambda>v. wake_other cid i (- 12) (Some v)) ws (q\<lparr>routing := r2\<rparr>) = q\<lparr>routing := r2, sched := s\<rparr>"
    using wake_all_cases [of cid i "- 12" ws "q\<lparr>routing := r2\<rparr>"] by auto
  then show ?thesis
    using assms w d q
    by (simp add: kill_primary_endpoint_def ep_from_u64_def Let_def q_def [symmetric] release_nothing case_prod_unfold)
qed

lemma lost_facts:
  "t_endpoint (tasks (sched lost_kernel) 3) = 5" "call_await (routing lost_kernel) 0 = 5" "live_task (sched lost_kernel) 0"
  "me 0 lost_kernel = 0" "band lost_kernel = Band_new" "res lost_kernel = demo_res"
  by (simp_all add: lost_kernel_def upd_task_def demo_sched_def wit_sched_def wit_task_def live_task_def set_call_await_def
      MAX_TASKS_def demo_kernel_def wit_kernel_def)

lemma lost_kill: "\<exists>k'. kill_primary_endpoint 1 3 None lost_kernel = Some k'"
proof (rule kill_primary_exists [OF lost_facts(1)])
  have "find_index (table wit_routing2) 5 = None"
  proof -
    have t: "table wit_routing2 = (table wit_routing)[0 := snd (deliver_entry (wit_msg 5) None (table wit_routing ! 0))]"
      by (simp add: wit_routing2_def routing_enqueue_def wit_routing_entry check_live_def case_prod_beta)
    have "find_index (table wit_routing2) 5 = find_index (table wit_routing) 5"
      unfolding t by (rule find_index_update) (simp_all add: frame_rules)
    also have "\<dots> = None"
      by (auto simp: find_index_None wit_routing_def Routing_init_def fresh_entry_def RoutingEntry_empty_def nth_list_update)
    finally show ?thesis .
  qed
  then show "kill_endpoint 5 (routing lost_kernel) = Some ((None, None), routing lost_kernel)"
    by (simp add: kill_endpoint_def lost_kernel_def)
  show "mark_dead_resource 5 (res lost_kernel) = Some demo_res"
    by (simp add: lost_facts mark_dead_resource_def bump_generation_def demo_res_def DIRECT_CAP_def)
qed (simp_all add: lost_facts)

lemma lost_reply: "\<exists>tx. fst (dequeue_reply 100 (Generation 1) 5 (routing lost_kernel)) = Inr (wit_msg 5, tx)"
proof -
  have "routing_wf (routing lost_kernel)" "table (routing lost_kernel) = table wit_routing2"
    using wit_routing2(1) by (simp_all add: lost_kernel_def)
  then show ?thesis
    using dequeue_reply_spec [of "routing lost_kernel" 100 0 "Generation 1" 5] wit_routing2
    by (auto simp: wit_msg_def append_eq_Cons_conv Cons_eq_append_conv)
qed

theorem queued_reply_lost_witness:
  "\<exists>k1. kill_primary_endpoint 1 3 None lost_kernel = Some k1 \<and>
     call_resume 0 demo_recv 5 0 0 0 k1 = Some (Return (- 12), clear_deadline 0 k1)"
proof -
  obtain k1 tx where k1: "kill_primary_endpoint 1 3 None lost_kernel = Some k1"
    and tx: "fst (dequeue_reply 100 (Generation 1) 5 (routing lost_kernel)) = Inr (wit_msg 5, tx)"
    using lost_kill lost_reply by blast
  have "teardown (sched lost_kernel) (sched k1)" using kill_primary_cases [OF k1 lost_facts(1)] by auto
  then have "me 0 k1 = 0" using lost_facts(4) by (simp add: teardown_def)
  then show ?thesis
    using queued_reply_lost [OF k1 lost_facts(1) _ lost_facts(2) _ _ lost_facts(3), of demo_recv "wit_msg 5" tx k1 0] k1 tx
    by (simp add: demo_recv_def MAX_TASKS_def)
qed

theorem timed_out_call_still_awaits_witness:
  "\<exists>k3. recv_resume 0 demo_recv 4096 16 k3 = Some (Return (- 12), k3) \<and>
     kill_primary_endpoint 1 3 None (demo_kernel\<lparr>routing := set_call_await 0 100 wit_routing\<rparr>) = Some k3"
proof -
  let ?k = "demo_kernel\<lparr>routing := set_call_await 0 100 wit_routing\<rparr>"
  have "dequeue_reply 100 (Generation 1) 100 wit_routing = (Inl QueueEmpty, wit_routing)"
    using dequeue_reply_spec [OF wit_routing_wf wit_routing_entry(1), of "Generation 1" 100]
    by (simp add: wit_routing_entry check_live_def)
  then obtain r where r: "call_dequeue 100 (Generation 1) 100 0 wit_routing = (Inl QueueEmpty, r)" "call_await r 0 = 100"
    by (auto simp: call_dequeue_def target_alive_def wit_routing_entry set_call_await_def MAX_TASKS_def)
  have t: "t_endpoint (tasks (sched ?k) 3) = 100" "live_task (sched ?k) 0"
    by (simp_all add: demo_sched_def upd_task_def wit_sched_def wit_task_def live_task_def)
  obtain w r' where "kill_endpoint 100 (routing ?k) = Some (w, r')"
    by (simp add: kill_endpoint_def wit_routing_entry Generation_bump_def checked_add_def Let_def)
  moreover obtain g where "mark_dead_resource 100 (res ?k) = Some g"
    by (simp add: mark_dead_resource_def bump_generation_def demo_res_def GlobalResourceTable_new_def DIRECT_CAP_def
        Generation_bump_def checked_add_def)
  ultimately obtain k3 where k3: "kill_primary_endpoint 1 3 None ?k = Some k3"
    using kill_primary_exists [OF t(1)] by (force simp: demo_kernel_def wit_kernel_def)
  have "teardown (sched ?k) (sched k3)" using kill_primary_cases [OF k3 t(1)] by auto
  then have "me 0 k3 = 0" by (simp add: teardown_def)
  moreover have "monotonic_ticks demo_sched = 500" by (simp add: demo_sched_def upd_task_def wit_sched_def)
  ultimately show ?thesis
    using timed_out_call_still_awaits [where cap = demo_recv and target = 100 and c = 0 and k = demo_kernel and r = r and d = 1
      and ?k2.0 = ?k and ?k3.0 = k3 and ?c2.0 = 0 and ?cap2.0 = demo_recv and ?p2.0 = 4096 and ?l2.0 = 16, OF _ _ _ _ _ k3 t(1)] r t k3
    by (simp add: demo_recv_def set_call_await_def MAX_TASKS_def)
qed

end
