(* ===== verification/Spawn_Props.thy ===== *)
theory Spawn_Props
  imports Syscall_Props
begin

text \<open>
  What a spawn adds to the authority in the system. \<open>adds S k k'\<close> says that every capability table of \<open>k'\<close> has what it had
  in \<open>k\<close> or something of \<open>S\<close>, and that no message is new. The lemmas follow the spawn through its steps and through its
  undoing; the properties bound what the new task, and the caller, can hold afterwards.
\<close>

unbundle bit_operations_syntax

section \<open>What an operation adds\<close>

definition adds :: "Capability set \<Rightarrow> Kernel \<Rightarrow> Kernel \<Rightarrow> bool" where
  "adds S k k' \<longleftrightarrow> (routing_wf (routing k) \<longrightarrow> routing_wf (routing k') \<and> msgs (routing k') \<subseteq> msgs (routing k)
     \<and> (\<forall>j. caps_of k' j \<subseteq> caps_of k j \<union> S))"

named_theorems adds_rules "what an operation that cannot fail adds"
named_theorems adds_elims "what an operation that returned adds"

lemma adds_refl [simp]: "adds S k k" by (simp add: adds_def)

lemma adds_trans [trans]: "adds S k0 k \<Longrightarrow> adds S k k' \<Longrightarrow> adds S k0 k'" unfolding adds_def by blast

lemmas adds_after = adds_trans [rotated]

lemma adds_mono: "adds S k k' \<Longrightarrow> S \<subseteq> T \<Longrightarrow> adds T k k'" unfolding adds_def by blast

lemma adds_all_caps: "adds S k k' \<Longrightarrow> routing_wf (routing k) \<Longrightarrow> all_caps k' \<subseteq> all_caps k \<union> S"
  unfolding adds_def all_caps_def by blast

lemma adds_irrelevant [simp]:
  "adds S k0 (k\<lparr>ids := x1\<rparr>) = adds S k0 k" "adds S k0 (k\<lparr>res := x2\<rparr>) = adds S k0 k"
  "adds S k0 (k\<lparr>names_dir := x3\<rparr>) = adds S k0 k" "adds S k0 (k\<lparr>irq_table := x4\<rparr>) = adds S k0 k"
  "adds S k0 (k\<lparr>mem := x5\<rparr>) = adds S k0 k" "adds S k0 (k\<lparr>gen_counter := x6\<rparr>) = adds S k0 k"
  "adds S k0 (k\<lparr>spawn_rr := x7\<rparr>) = adds S k0 k" "adds S k0 (k\<lparr>dma_kept := x8\<rparr>) = adds S k0 k"
  "adds S k0 (k\<lparr>msi_next := x9\<rparr>) = adds S k0 k" "adds S k0 (k\<lparr>msi_vec := x10\<rparr>) = adds S k0 k"
  "adds S k0 (emit ops k) = adds S k0 k"
  by (simp_all add: adds_def caps_of_def) (simp add: emit_def)

lemma adds_sched: "same_caps (sched k) s \<Longrightarrow> adds S k (k\<lparr>sched := s\<rparr>)"
  by (auto simp: adds_def same_caps_def caps_of_def)

lemma adds_routing:
  "(routing_wf (routing k) \<Longrightarrow> routing_wf r \<and> msgs r \<subseteq> msgs (routing k)) \<Longrightarrow> adds S k (k\<lparr>routing := r\<rparr>)"
  by (simp add: adds_def)

lemma adds_kill: "kill_endpoint ep (routing k) = Some (w, r) \<Longrightarrow> adds S k (k\<lparr>routing := r\<rparr>)"
  using kill_endpoint_wf [of "routing k" ep w r] kill_endpoint_msgs [of "routing k" ep w r] by (intro adds_routing) auto

lemma adds_register: "try_register ep c g (routing k) = (x, r) \<Longrightarrow> adds S k (k\<lparr>routing := r\<rparr>)"
  using register_msgs(1) [of ep c g "routing k"] try_register_wf [of "routing k" ep c g] by (intro adds_routing) auto

lemma adds_register_optional: "try_register_optional ep c g b (routing k) = (x, r) \<Longrightarrow> adds S k (k\<lparr>routing := r\<rparr>)"
  using register_msgs(2) [of ep c g b "routing k"] register_optional_wf [of "routing k" "count_free (table (routing k))" ep c g b]
  by (intro adds_routing) (auto simp: try_register_optional_def)

lemma adds_child_insert:
  assumes "child_insert i c k = Some k'" "c \<in> S"
  shows "adds S k k'"
proof -
  obtain n tbl where i: "CapTable_insert c (t_caps (tasks (sched k) i)) = Inr (n, tbl)"
    and k': "k' = k\<lparr>sched := upd_task i (\<lambda>t. t\<lparr>t_caps := tbl\<rparr>) (sched k)\<rparr>"
    using assms(1) by (auto simp: child_insert_def split: sum.splits)
  have "caps_of k' j \<subseteq> caps_of k j \<union> S" for j
    using assms(2) by (auto simp: caps_of_def k' upd_task_def slot_cap_insert [OF i] split: if_splits)
  then show ?thesis by (simp add: adds_def k')
qed

lemmas adds_steps [adds_rules] = adds_sched [THEN adds_after]

lemma adds_kill_next [adds_elims]:
  "kill_endpoint ep r0 = Some (w, r) \<Longrightarrow> adds S k0 (k\<lparr>routing := r0\<rparr>) \<Longrightarrow> adds S k0 (k\<lparr>routing := r\<rparr>)"
  using adds_kill [of ep "k\<lparr>routing := r0\<rparr>" w r] adds_trans by fastforce

lemmas adds_ops [adds_elims] = adds_register [THEN adds_after] adds_register_optional [THEN adds_after]
  adds_child_insert [THEN adds_after]

lemma task_setters_same_caps [simp]:
  "same_caps s (set_task_peers i ps s)" "same_caps s (set_task_hw_bdf i b s)" "same_caps s (set_task_reply_endpoint i e s)"
  "same_caps s (set_task_hw_kind i h s)" "same_caps s (set_task_watched i w s)" "same_caps s (set_task_memory_budget i l m s)"
  "same_caps s (release_task_slot i s)" "same_caps s (commit_task i nm r u t e s)"
  "same_caps s (snd (take_task_hw_bdf i s))" "same_caps s (snd (take_task_reply_endpoint i s))"
  by (simp_all add: set_task_peers_def set_task_hw_bdf_def set_task_reply_endpoint_def set_task_hw_kind_def
      set_task_watched_def set_task_memory_budget_def release_task_slot_def commit_task_def take_task_hw_bdf_def
      take_task_reply_endpoint_def)

section \<open>The undoing of a spawn\<close>

lemma cleanup_adds:
  assumes "cleanup_partial_spawn i nm own k = Some k'"
  shows "adds S k k'"
proof -
  define k2 where "k2 = k\<lparr>sched := snd (take_task_reply_endpoint i (snd (take_task_hw_bdf i (sched k))))\<rparr>"
  have "same_caps (sched k) (snd (take_task_reply_endpoint i (snd (take_task_hw_bdf i (sched k)))))"
    by (rule same_caps_trans [of _ "snd (take_task_hw_bdf i (sched k))"]) simp_all
  then have k2: "adds S k k2" unfolding k2_def by (rule adds_sched)
  show ?thesis
    using assms k2
    by (auto simp: cleanup_partial_spawn_def Let_def case_prod_unfold k2_def [symmetric] split: option.splits Option.bind_splits
        intro!: adds_rules elim!: adds_elims)
qed

lemma spawn_fail_adds [adds_elims]: "spawn_fail i nm own e k = Some (x, k') \<Longrightarrow> adds S k0 k \<Longrightarrow> adds S k0 k'"
  using cleanup_adds [THEN adds_after] by (auto simp: spawn_fail_def)

section \<open>The steps of a spawn\<close>

text \<open>The capabilities a mint for a resource and a right may give, at whatever generation the resource is.\<close>

definition minted :: "ResourceId \<Rightarrow> Rights \<Rightarrow> Capability set" where
  "minted rid r = {c. resource_id c = rid \<and> rights c = r}"

lemma mint_minted: "mint_cap g rid r = Some c \<Longrightarrow> c \<in> minted rid r"
  by (auto simp: mint_cap_def minted_def split: option.splits)

lemma child_insert_keeps: "child_insert i c k = Some k' \<Longrightarrow> ids k' = ids k \<and> names_dir k' = names_dir k"
  by (auto simp: child_insert_def split: sum.splits)

lemma give_all_adds:
  assumes "give_all i nm own gs k = Some (x, k')" "\<And>rid r. (rid, r) \<in> set gs \<Longrightarrow> minted rid r \<subseteq> S"
  shows "adds S k k' \<and> (x = Inr () \<longrightarrow> ids k' = ids k \<and> names_dir k' = names_dir k)"
  using assms
proof (induction gs arbitrary: k)
  case (Cons g gs)
  obtain rid r where g: "g = (rid, r)" by fastforce
  obtain c where c: "mint_cap (res k) rid r = Some c" and
    rest: "(case child_insert i c k of None \<Rightarrow> spawn_fail i nm own CapTableFull k | Some k1 \<Rightarrow> give_all i nm own gs k1) = Some (x, k')"
    using Cons.prems(1) by (auto simp: g split: Option.bind_splits)
  have cS: "c \<in> S" using mint_minted [OF c] Cons.prems(2) [of rid r] by (auto simp: g)
  show ?case
  proof (cases "child_insert i c k")
    case None
    then show ?thesis using rest cleanup_adds by (auto simp: spawn_fail_def)
  next
    case (Some k1)
    then have "adds S k1 k' \<and> (x = Inr () \<longrightarrow> ids k' = ids k1 \<and> names_dir k' = names_dir k1)"
      using Cons.IH [of k1] Cons.prems(2) rest by auto
    then show ?thesis using adds_child_insert [OF Some cS] adds_trans child_insert_keeps [OF Some] by auto
  qed
qed auto

lemma give_optional_adds:
  assumes "give_optional i rid r k = Some (x, k')"
  shows "minted rid r \<subseteq> S \<Longrightarrow> adds S k k'" "ids k' = ids k" "names_dir k' = names_dir k"
proof -
  obtain c where c: "mint_cap (res k) rid r = Some c" and k': "k' = k \<or> child_insert i c k = Some k'"
    using assms by (auto simp: give_optional_def split: Option.bind_splits option.splits)
  show "minted rid r \<subseteq> S \<Longrightarrow> adds S k k'" using k' mint_minted [OF c] adds_child_insert by auto
  show "ids k' = ids k" "names_dir k' = names_dir k" using k' child_insert_keeps by auto
qed

text \<open>The identifiers of the new task's endpoints: the next one the allocator hands out, and the one after it.\<close>

definition fresh_ids :: "EndpointIds \<Rightarrow> EndpointId set" where
  "fresh_ids i = (case alloc_endpoint_id i of
     None \<Rightarrow> {}
   | Some (e, i1) \<Rightarrow> insert e (case alloc_endpoint_id i1 of None \<Rightarrow> {} | Some (e2, _) \<Rightarrow> {e2}))"

definition own_caps :: "EndpointId set \<Rightarrow> Capability set" where
  "own_caps E = {c. resource_id c \<in> E \<and> rights c \<in> {RECV, SEND, Rights_union SEND GRANT}}"

lemma own_capsI: "e \<in> E \<Longrightarrow> minted e RECV \<subseteq> own_caps E" "e \<in> E \<Longrightarrow> minted e (Rights_union SEND GRANT) \<subseteq> own_caps E"
  "e \<in> E \<Longrightarrow> minted e SEND \<subseteq> own_caps E"
  by (auto simp: own_caps_def minted_def)

lemma spawn_reply_adds:
  assumes "spawn_reply a i k = Some k'" "\<And>e i'. alloc_endpoint_id (ids k) = Some (e, i') \<Longrightarrow> e \<in> E"
  shows "adds (own_caps E) k k'" "names_dir k' = names_dir k"
proof -
  obtain e ids1 gen c g where e: "alloc_endpoint_id (ids k) = Some (e, ids1)"
    and "next_generation (gen_counter k) = Some (gen, c)" "register_at_gen e gen (res k) = Some g"
    using assms(1) by (auto simp: spawn_reply_def split: Option.bind_splits)
  note st = this
  define k1 where "k1 = k\<lparr>ids := ids1, gen_counter := c, res := g\<rparr>"
  have k1: "adds (own_caps E) k k1" "names_dir k1 = names_dir k" by (simp_all add: k1_def)
  obtain x r where x: "try_register_optional e (sp_core a) gen (sp_watched a \<or> sp_name a = SUPERVISOR) (routing k1) = (x, r)"
    by fastforce
  define k2 where "k2 = k1\<lparr>routing := r, sched := set_task_reply_endpoint i (Some e) (sched k1)\<rparr>"
  have k2: "adds (own_caps E) k k2" "names_dir k2 = names_dir k"
    using k1 x unfolding k2_def by (auto intro!: adds_rules elim!: adds_elims simp: k1(2))
  have m: "minted e RECV \<subseteq> own_caps E" "minted e (Rights_union SEND GRANT) \<subseteq> own_caps E"
    using own_capsI assms(2) [OF e] by auto
  have "adds (own_caps E) k k' \<and> names_dir k' = names_dir k"
  proof (cases x)
    case (Inl y)
    then have "k' = k1\<lparr>routing := r, ids := free_endpoint_id e (ids k1)\<rparr>"
      using assms(1) st x by (simp add: spawn_reply_def k1_def Let_def)
    then show ?thesis using k1 x by (auto elim!: adds_elims)
  next
    case (Inr y)
    then obtain got k3 where k3: "give_optional i e RECV k2 = Some (got, k3)"
      and rest: "(if got then map_option snd (give_optional i e (Rights_union SEND GRANT) k3) else Some k3) = Some k'"
      using assms(1) st x by (auto simp: spawn_reply_def k1_def k2_def Let_def split: Option.bind_splits)
    have "adds (own_caps E) k k3" "names_dir k3 = names_dir k"
      using give_optional_adds [OF k3] m k2 adds_trans by auto
    then show ?thesis using rest give_optional_adds [of i e _ k3] m adds_trans by (fastforce split: if_splits)
  qed
  then show "adds (own_caps E) k k'" "names_dir k' = names_dir k" by auto
qed

lemma irq_register_all:
  "adds S k0 (fold (\<lambda>q. irq_register q e) qs k) = adds S k0 k" "names_dir (fold (\<lambda>q. irq_register q e) qs k) = names_dir k"
proof -
  have "names_dir (irq_register q e k) = names_dir k" for q k by (simp add: irq_register_def emit_def)
  then show "names_dir (fold (\<lambda>q. irq_register q e) qs k) = names_dir k" by (induction qs arbitrary: k) simp_all
qed (induction qs arbitrary: k, simp_all add: irq_register_def)

lemma spawn_endpoint_adds:
  assumes "spawn_endpoint a i k = Some (x, k')" "names_wf (names_dir k)"
  defines "E \<equiv> fresh_ids (ids k)"
  shows "adds (own_caps E) k k' \<and> (\<forall>e. x = Inr (Some e) \<longrightarrow> e \<in> E) \<and>
    ((\<exists>y. x = Inr y) \<longrightarrow> (\<forall>p e. names_lookup (names_dir k') p = Some e \<longrightarrow> e \<in> E \<or> names_lookup (names_dir k) p = Some e))"
proof (cases "sp_recv a")
  case False
  then show ?thesis using assms(1) by (auto simp: spawn_endpoint_def)
next
  case True
  obtain ep ids1 gen c g where e: "alloc_endpoint_id (ids k) = Some (ep, ids1)"
    and "next_generation (gen_counter k) = Some (gen, c)" "register_at_gen ep gen (res k) = Some g"
    using assms(1) True by (auto simp: spawn_endpoint_def split: Option.bind_splits)
  note st = this
  have E: "ep \<in> E" "\<And>e2 i2. alloc_endpoint_id ids1 = Some (e2, i2) \<Longrightarrow> e2 \<in> E"
    by (simp_all add: E_def fresh_ids_def e)
  define k1 where "k1 = k\<lparr>ids := ids1, gen_counter := c, res := g\<rparr>"
  obtain ok r where ok: "try_register ep (sp_core a) gen (routing k1) = (ok, r)" by fastforce
  have k1r: "adds (own_caps E) k (k1\<lparr>routing := r\<rparr>)" 
    using adds_register [OF ok, THEN adds_after] by (simp add: k1_def)
  show ?thesis
  proof (cases ok)
    case False
    then have f: "spawn_fail i (sp_name a) None NoMemory (k1\<lparr>routing := r\<rparr>) = Some (x, k')"
      using assms(1) True st ok by (simp add: spawn_endpoint_def k1_def Let_def)
    then show ?thesis using spawn_fail_adds [OF f k1r] by (auto simp: spawn_fail_def)
  next
    case ok': True
    define k2 where "k2 = k1\<lparr>routing := r, names_dir := names_register (sp_name a) ep (names_dir k1)\<rparr>"
    have k2: "adds (own_caps E) k k2" and i2: "ids k2 = ids1" using k1r by (simp_all add: k2_def k1_def)
    have nm: "e \<in> E \<or> names_lookup (names_dir k) p = Some e" if "names_lookup (names_dir k2) p = Some e" for p e
      using that register_spec(2) [OF assms(2), of "sp_name a" ep p] E(1) by (auto simp: k2_def k1_def split: if_splits)
    obtain got k3 where k3: "give_all i (sp_name a) (Some ep) [(ep, RECV)] k2 = Some (got, k3)"
      and rest: "(case got of Inl e \<Rightarrow> Some (Inl e, k3) | Inr _ \<Rightarrow> do {
          (own, k4) \<leftarrow> give_optional i ep (Rights_union SEND GRANT) k3;
          k5 \<leftarrow> spawn_reply a i k4;
          Some (Inr (Some ep), fold (\<lambda>q. irq_register q ep) (sp_irqs a) k5) }) = Some (x, k')"
      using assms(1) True st ok ok' by (auto simp: spawn_endpoint_def k1_def k2_def Let_def split: Option.bind_splits)
    have a3: "adds (own_caps E) k k3 \<and> (got = Inr () \<longrightarrow> ids k3 = ids1 \<and> names_dir k3 = names_dir k2)"
      using give_all_adds [OF k3, of "own_caps E"] own_capsI(1) [OF E(1)] adds_trans [OF k2, of k3] i2 by auto
    show ?thesis
    proof (cases got)
      case (Inl e)
      then show ?thesis using rest a3 by auto
    next
      case (Inr u)
      then obtain own k4 k5 where k4: "give_optional i ep (Rights_union SEND GRANT) k3 = Some (own, k4)"
        and k5: "spawn_reply a i k4 = Some k5" and k': "x = Inr (Some ep)" "k' = fold (\<lambda>q. irq_register q ep) (sp_irqs a) k5"
        using rest by (auto split: Option.bind_splits)
      have "adds (own_caps E) k k4" "ids k4 = ids1" "names_dir k4 = names_dir k2"
        using give_optional_adds [OF k4] own_capsI(2) [OF E(1)] a3 Inr adds_trans by auto
      then have "adds (own_caps E) k k5" "names_dir k5 = names_dir k2"
        using spawn_reply_adds [OF k5, of E] E(2) adds_trans by auto
      then show ?thesis using nm E(1) by (simp add: k' irq_register_all)
    qed
  qed
qed

text \<open>The peers: what the caller supplied, and a capability to send to an endpoint of a registered name.\<close>

definition peer_caps :: "names \<Rightarrow> Capability set" where
  "peer_caps ns = {c. (\<exists>p. names_lookup ns p = Some (resource_id c)) \<and> rights c \<in> {SEND, Rights_union SEND GRANT}}"

definition install_caps :: "SpawnArgs \<Rightarrow> Capability set" where
  "install_caps a = (case sp_installs a of Some es \<Rightarrow> snd ` set es | None \<Rightarrow> {})"

lemma wire_installs_adds:
  assumes "wire_installs i es ws k = (ws', k')" "snd ` set es \<subseteq> S"
  shows "adds S k k' \<and> names_dir k' = names_dir k"
  using assms
proof (induction i es ws k rule: wire_installs.induct)
  case (2 i label c es ws k)
  show ?case
  proof (cases "length ws \<ge> MAX_SEND_PEERS")
    case False
    note IH = "2.IH" [OF False]
    show ?thesis
    proof (cases "child_insert i c k")
      case (Some k1)
      have "adds S k1 k' \<and> names_dir k' = names_dir k1" using IH(2) [OF Some] "2.prems" False Some by auto
      then show ?thesis
        using adds_child_insert [OF Some, of S] child_insert_keeps [OF Some] "2.prems"(2) adds_trans [of S k k1 k'] by auto
    qed (use IH(1) "2.prems" False in auto)
  qed (use "2.prems" in auto)
qed auto

lemma wire_peers_adds:
  assumes "wire_peers i grant prov ps ws k = Some (ws', k')" "peer_caps (names_dir k) \<subseteq> S"
  shows "adds S k k'"
  using assms
proof (induction ps arbitrary: ws k)
  case (Cons p ps)
  show ?case
  proof (cases "length ws \<ge> MAX_SEND_PEERS \<or> p \<in> set prov \<or> names_lookup (names_dir k) p = None")
    case False
    then obtain e got k1 where e: "names_lookup (names_dir k) p = Some e"
      and g: "give_optional i e (if grant then Rights_union SEND GRANT else SEND) k = Some (got, k1)"
      and r: "wire_peers i grant prov ps (if got then ws @ [take TASK_NAME_MAX p] else ws) k1 = Some (ws', k')"
      using Cons.prems(1) by (auto split: Option.bind_splits)
    have "minted e (if grant then Rights_union SEND GRANT else SEND) \<subseteq> S"
      using e Cons.prems(2) by (auto simp: peer_caps_def minted_def)
    then have "adds S k k1" "names_dir k1 = names_dir k" using give_optional_adds [OF g] by auto
    then show ?thesis using Cons.IH [OF r] Cons.prems(2) adds_trans by simp
  qed (use Cons in \<open>auto split: if_splits\<close>)
qed auto

lemma spawn_mmio_adds: "spawn_mmio b a i own k = Some (x, k') \<Longrightarrow> adds S k k'"
  by (auto simp: spawn_mmio_def Let_def split: if_splits option.splits elim!: adds_elims)

lemma spawn_dma_adds: "spawn_dma b a i own k = Some (x, k') \<Longrightarrow> adds S k k'"
  by (auto simp: spawn_dma_def Let_def split: if_splits option.splits prod.splits intro!: adds_rules elim!: adds_elims)

lemma spawn_commit_adds:
  assumes "spawn_commit b a m i own ws k = Some (x, k')"
  shows "adds S k k' \<and> (\<forall>y. x = Inr y \<longrightarrow> y = own)"
proof (cases "ctx_frame_ok b")
  case False
  then show ?thesis using assms by (auto simp: spawn_commit_def spawn_fail_def intro: cleanup_adds)
next
  case True
  define k1 where "k1 = k\<lparr>sched := set_task_peers i (declare_rest (sp_peers a) (filter from_utf8 ws)) (sched k)\<rparr>"
  have k1: "adds S k k1" unfolding k1_def by (rule adds_sched) simp
  have "same_caps (sched k1) (commit_task i nm cr True ks own (set_task_hw_kind i h (set_task_watched i w
      (set_task_memory_budget i l u (sched k1)))))" for nm cr ks h w l u
    by (simp add: same_caps_def commit_task_def set_task_hw_kind_def set_task_watched_def set_task_memory_budget_def upd_task_def)
  then show ?thesis
    using assms True adds_trans [OF k1] adds_sched [of k1] cleanup_adds
    by (auto simp: spawn_commit_def Let_def k1_def [symmetric] spawn_fail_def split: if_splits option.splits)
qed

text \<open>The stable resources minted for the new task.\<close>

definition granted :: "(ResourceId \<times> Rights) list \<Rightarrow> Capability set" where
  "granted gs = {c. (resource_id c, rights c) \<in> set gs}"

lemma granted_minted: "(rid, r) \<in> set gs \<Longrightarrow> minted rid r \<subseteq> granted gs"
  by (auto simp: minted_def granted_def)

lemma spawn_build_adds:
  assumes "spawn_build b a m i own k = Some (x, k')"
    and S: "granted (child_grants b a) \<subseteq> S" "install_caps a \<subseteq> S" "peer_caps (names_dir k) \<subseteq> S"
  shows "adds S k k' \<and> (\<forall>y. x = Inr y \<longrightarrow> y = own)"
proof -
  obtain g k1 where k1: "give_all i (sp_name a) own (child_grants b a) k = Some (g, k1)"
    using assms(1) by (auto simp: spawn_build_def split: Option.bind_splits)
  have a1: "adds S k k1 \<and> (g = Inr () \<longrightarrow> names_dir k1 = names_dir k)"
    using give_all_adds [OF k1, of S] granted_minted S(1) by blast
  show ?thesis
  proof (cases g)
    case (Inl e)
    then show ?thesis using assms(1) k1 a1 by (auto simp: spawn_build_def)
  next
    case (Inr u)
    define es where "es = (case sp_installs a of Some es \<Rightarrow> es | None \<Rightarrow> [])"
    obtain ws k2 where k2: "wire_installs i es [] k1 = (ws, k2)" by fastforce
    have "snd ` set es \<subseteq> S" using S(2) by (auto simp: es_def install_caps_def split: option.splits)
    then have a2: "adds S k k2" "names_dir k2 = names_dir k"
      using wire_installs_adds [OF k2, of S] a1 Inr adds_trans [of S k k1 k2] by auto
    obtain wired k3 y k4 where k3: "wire_peers i (sp_peers_grant a) (map (take TASK_NAME_MAX \<circ> fst) es) (sp_peers a) ws k2 = Some (wired, k3)"
      and k4: "spawn_mmio b a i own k3 = Some (y, k4)"
      and rest: "(case y of Inl e \<Rightarrow> Some (Inl e, k4) | Inr _ \<Rightarrow> do {
         (d, k5) \<leftarrow> spawn_dma b a i own k4;
         (case d of Inl e \<Rightarrow> Some (Inl e, k5) | Inr _ \<Rightarrow> spawn_commit b a m i own wired k5) }) = Some (x, k')"
      using assms(1) k1 Inr k2 by (auto simp: spawn_build_def es_def [symmetric] split: Option.bind_splits)
    have "adds S k k3" using wire_peers_adds [OF k3, of S] S(3) a2 adds_trans [of S k k2 k3] by simp
    then have a4: "adds S k k4" using spawn_mmio_adds [OF k4] by (rule adds_trans)
    show ?thesis
    proof (cases y)
      case (Inr u)
      then obtain d k5 where k5: "spawn_dma b a i own k4 = Some (d, k5)" using rest by (auto split: Option.bind_splits)
      have a5: "adds S k k5" using a4 spawn_dma_adds [OF k5] by (rule adds_trans)
      show ?thesis
      proof (cases d)
        case r: (Inr v)
        then have "spawn_commit b a m i own wired k5 = Some (x, k')" using rest Inr k5 by simp
        then show ?thesis using spawn_commit_adds adds_trans [OF a5] by blast
      qed (use rest Inr k5 a5 in auto)
    qed (use rest a4 in auto)
  qed
qed

definition base_grants :: "SpawnArgs \<Rightarrow> (ResourceId \<times> Rights) list" where
  "base_grants a = (LOG_WRITE_RESOURCE, WRITE) #
    (if p_spawn (privileges_of (sp_privs a) (sp_name a)) then [(SPAWN_RESOURCE, WRITE)] else [])"

text \<open>Everything a spawn may put into a table.\<close>

definition spawn_caps :: "Board \<Rightarrow> SpawnArgs \<Rightarrow> Kernel \<Rightarrow> Capability set" where
  "spawn_caps b a k = granted (base_grants a @ child_grants b a) \<union> own_caps (fresh_ids (ids k))
     \<union> peer_caps (names_dir k) \<union> install_caps a"

lemma reserve_adds:
  assumes "reserve_task_slot c (sched k) = Some (i, s)"
  shows "adds S k (k\<lparr>sched := task_cap_init_empty i s\<rparr>)"
proof -
  have "slot_cap CapTable_empty n = None" for n by (simp add: slot_cap_def CapTable_empty_def)
  then have "caps_of (k\<lparr>sched := task_cap_init_empty i s\<rparr>) j \<subseteq> caps_of k j" for j
    using assms by (auto simp: caps_of_def reserve_task_slot_def task_cap_init_empty_def upd_task_def split: option.splits if_splits)
  then show ?thesis by (auto simp: adds_def)
qed

lemma spawn_service_adds:
  assumes "spawn_service_with_image b a k = Some (x, k')" "names_wf (names_dir k)"
  shows "adds (spawn_caps b a k) k k' \<and> (\<forall>e. x = Inr (Some e) \<longrightarrow> e \<in> fresh_ids (ids k))"
proof -
  let ?S = "spawn_caps b a k"
  have inS: "granted (base_grants a) \<subseteq> ?S" "granted (child_grants b a) \<subseteq> ?S" "own_caps (fresh_ids (ids k)) \<subseteq> ?S"
    "peer_caps (names_dir k) \<subseteq> ?S" "install_caps a \<subseteq> ?S"
    by (auto simp: spawn_caps_def granted_def)
  consider "k' = k" "\<exists>e. x = Inl e" | m i s where "load_result b = Inr m" "reserve_task_slot (sp_core a) (sched k) = Some (i, s)"
    using assms(1) by (auto simp: spawn_service_with_image_def split: sum.splits option.splits)
  then show ?thesis
  proof cases
    case 2
    define k0 where "k0 = k\<lparr>sched := task_cap_init_empty i s\<rparr>"
    have a0: "adds ?S k k0" unfolding k0_def by (rule reserve_adds [OF 2(2)])
    obtain g k1 where k1: "give_all i (sp_name a) None (base_grants a) k0 = Some (g, k1)"
      and r1: "(case g of Inl e \<Rightarrow> Some (Inl e, k1) | Inr _ \<Rightarrow> do {
          (own, k2) \<leftarrow> spawn_endpoint a i k1;
          (case own of Inl e \<Rightarrow> Some (Inl e, k2) | Inr ep \<Rightarrow> spawn_build b a m i ep k2) }) = Some (x, k')"
      using assms(1) 2 by (auto simp: spawn_service_with_image_def k0_def base_grants_def Let_def split: Option.bind_splits)
    have g1: "adds ?S k0 k1 \<and> (g = Inr () \<longrightarrow> ids k1 = ids k0 \<and> names_dir k1 = names_dir k0)"
      using inS(1) granted_minted by (intro give_all_adds [OF k1]) blast
    then have a1: "adds ?S k k1" using a0 adds_trans by blast
    show ?thesis
    proof (cases g)
      case (Inr u)
      then have k1k: "ids k1 = ids k" "names_dir k1 = names_dir k" using g1 by (simp_all add: k0_def)
      obtain own k2 where k2: "spawn_endpoint a i k1 = Some (own, k2)"
        and r2: "(case own of Inl e \<Rightarrow> Some (Inl e, k2) | Inr ep \<Rightarrow> spawn_build b a m i ep k2) = Some (x, k')"
        using r1 Inr by (auto split: Option.bind_splits)
      note e2 = spawn_endpoint_adds [OF k2, unfolded k1k, OF assms(2)]
      then have "adds (own_caps (fresh_ids (ids k))) k1 k2" by (rule conjunct1)
      from adds_trans [OF a1 adds_mono [OF this inS(3)]] have a2: "adds ?S k k2" .
      show ?thesis
      proof (cases own)
        case i2: (Inr ep)
        have "names_lookup (names_dir k2) p = Some e \<Longrightarrow> e \<in> fresh_ids (ids k) \<or> names_lookup (names_dir k) p = Some e" for p e
          using e2 i2 by blast
        then have "peer_caps (names_dir k2) \<subseteq> own_caps (fresh_ids (ids k)) \<union> peer_caps (names_dir k)"
          unfolding peer_caps_def own_caps_def by blast
        then have "peer_caps (names_dir k2) \<subseteq> ?S" using inS(3,4) by blast
        then show ?thesis
          using spawn_build_adds [of b a m i ep k2 x k' ?S] r2 i2 inS(2,5) adds_trans [OF a2, of k'] e2 by auto
      qed (use r2 a2 in auto)
    qed (use r1 a1 in auto)
  qed auto
qed

section \<open>The system call\<close>

definition image_caps :: "Board \<Rightarrow> ImageArgs \<Rightarrow> Kernel \<Rightarrow> Capability set" where
  "image_caps b a k = {c. \<exists>s. sp_privs s = Some (im_privs a) \<and> sp_name s \<noteq> SUPERVISOR \<and> sp_installs s = im_installs a
     \<and> c \<in> spawn_caps b s k}"

lemma pci_msi_keeps:
  "routing (snd (pci_msi_vector b h c k)) = routing k" "sched (snd (pci_msi_vector b h c k)) = sched k"
  "ids (snd (pci_msi_vector b h c k)) = ids k" "names_dir (snd (pci_msi_vector b h c k)) = names_dir k"
  by (simp_all add: pci_msi_vector_def Let_def emit_def split: option.split)

lemma resolve_keeps:
  assumes "resolve_spawn_core b o' p k = (x, k')"
  shows "routing k' = routing k" "sched k' = sched k" "ids k' = ids k" "names_dir k' = names_dir k"
  using assms by (auto simp: resolve_spawn_core_def next_core_def split: option.splits if_splits)

lemma adds_same: "routing k' = routing k \<Longrightarrow> sched k' = sched k \<Longrightarrow> adds S k k'"
  by (simp add: adds_def caps_of_def)

lemma spawn_image_adds:
  assumes "spawn_from_image b a k = Some (x, k')" "names_wf (names_dir k)"
  shows "adds (image_caps b a k) k k' \<and> (\<forall>e. x = Inr (Some e) \<longrightarrow> e \<in> fresh_ids (ids k))"
proof (cases "im_name a = SUPERVISOR \<or> name_taken (im_name a) (im_handover a) (sched k)")
  case True
  then show ?thesis using assms(1) by (auto simp: spawn_from_image_def split: if_splits)
next
  case False
  obtain y k1 where k1: "resolve_spawn_core b (im_override a) (im_preferred a) k = (y, k1)" by fastforce
  note keep1 = resolve_keeps [OF k1]
  show ?thesis
  proof (cases y)
    case (Inl e)
    then show ?thesis using assms(1) False k1 adds_same keep1 by (auto simp: spawn_from_image_def)
  next
    case (Inr core)
    define h where "h = (if hw_class_is_pci (im_hw_class a) then hw_pci_of (im_hw_class a) (im_dma a) (im_bdf a)
      else hw_class_of (im_hw_class a))"
    obtain vec k2 where k2: "(if hw_class_is_pci (im_hw_class a) \<and> im_hw_class a AND HW_PCI_IRQ \<noteq> 0
        then pci_msi_vector b h (unat core) k1 else (0, k1)) = (vec, k2)" by fastforce
    define k3 where "k3 = (if h = Ehci then emit [ProgramEhciMsi (unat core)] k2 else k2)"
    have "routing k2 = routing k1" "sched k2 = sched k1" "ids k2 = ids k1" "names_dir k2 = names_dir k1"
      using k2 pci_msi_keeps [of b h "unat core" k1] by (auto split: if_splits)
    then have keep: "routing k3 = routing k" "sched k3 = sched k" "ids k3 = ids k" "names_dir k3 = names_dir k"
      using keep1 by (simp_all add: k3_def emit_def)
    obtain s where s: "spawn_service_with_image b s k3 = Some (x, k')" "sp_privs s = Some (im_privs a)"
      "sp_name s = im_name a" "sp_installs s = im_installs a"
      using assms(1) False k1 Inr k2 by (auto simp: spawn_from_image_def h_def [symmetric] k3_def Let_def)
    have "adds (spawn_caps b s k3) k3 k'" using spawn_service_adds [OF s(1)] assms(2) keep(4) by simp
    moreover have "spawn_caps b s k3 \<subseteq> image_caps b a k" using s False keep by (auto simp: spawn_caps_def image_caps_def)
    ultimately have "adds (image_caps b a k) k3 k'" by (rule adds_mono)
    moreover have "adds (image_caps b a k) k k3" using keep(1,2) by (rule adds_same)
    ultimately show ?thesis using spawn_service_adds [OF s(1)] assms(2) keep(3,4) adds_trans by auto
  qed
qed

lemma parse_installs_held: "parse_installs cid n buf k = Inr es \<Longrightarrow> snd ` set es \<subseteq> caps_of k (me cid k)"
proof (induction n arbitrary: buf es)
  case (Suc n)
  then obtain l rest where buf: "buf = l # rest" by (cases buf) auto
  obtain held es' where "lookup_cap cid (unat (rest ! unat l) + 256 * unat (rest ! (unat l + 1))) GRANT k = Inr held"
    "parse_installs cid n (drop (unat l + 2) rest) k = Inr es'" "es = (take (unat l) rest, held) # es'"
    using Suc.prems by (auto simp: buf Let_def split: if_splits sum.splits)
  then show ?case using Suc.IH lookup_caps by auto
qed auto

text \<open>The privilege check: every bit the request has set stands for a resource the caller holds with \<open>GRANT\<close>.\<close>

lemma privileges_held:
  assumes "\<not> (w \<noteq> 0 \<and> privileges_caller_lacks cid w k)"
  shows "bit w 0 \<Longrightarrow> holds cid SPAWN_RESOURCE GRANT k" "bit w 1 \<Longrightarrow> holds cid CONSOLE_PUSH_RESOURCE GRANT k"
    "bit w 2 \<Longrightarrow> holds cid INTROSPECT_RESOURCE GRANT k" "bit w 3 \<Longrightarrow> holds cid SERVICE_CONTROL_RESOURCE GRANT k"
    "bit w 4 \<Longrightarrow> holds cid FIRE_IRQ_RESOURCE GRANT k" "bit w 5 \<Longrightarrow> holds cid REBOOT_RESOURCE GRANT k"
    "bit w 6 \<Longrightarrow> holds cid ACQUIRE_ANY_RESOURCE GRANT k" "bit w 7 \<Longrightarrow> holds cid RESOURCE_MINT_RESOURCE GRANT k"
    "bit w 8 \<Longrightarrow> holds cid GPIO_DEVICE_RESOURCE GRANT k" "bit w 9 \<Longrightarrow> holds cid SET_CLOCK_RESOURCE GRANT k"
    "bit w 10 \<Longrightarrow> holds cid SET_CLOCK_RESOURCE GRANT k" "bit w 11 \<Longrightarrow> holds cid NET_DEVICE_RESOURCE GRANT k"
    "bit w 12 \<Longrightarrow> holds cid PCI_CFG_RESOURCE GRANT k" "bit w 13 \<Longrightarrow> holds cid CPU_CLOCK_RESOURCE GRANT k"
    "bit w 14 \<Longrightarrow> holds cid POWER_OFF_RESOURCE GRANT k"
proof -
  have "\<forall>(m, rid)\<in>set privbits. w AND m \<noteq> 0 \<longrightarrow> holds cid rid GRANT k"
    using assms by (cases "w = 0") (auto simp: privileges_caller_lacks_def list_ex_iff)
  note this [unfolded privbits_def list.set ball_simps(5,7) prod.case bit_iff_and_push_bit_not_eq_0 [symmetric]]
  then show "bit w 0 \<Longrightarrow> holds cid SPAWN_RESOURCE GRANT k" "bit w 1 \<Longrightarrow> holds cid CONSOLE_PUSH_RESOURCE GRANT k"
    "bit w 2 \<Longrightarrow> holds cid INTROSPECT_RESOURCE GRANT k" "bit w 3 \<Longrightarrow> holds cid SERVICE_CONTROL_RESOURCE GRANT k"
    "bit w 4 \<Longrightarrow> holds cid FIRE_IRQ_RESOURCE GRANT k" "bit w 5 \<Longrightarrow> holds cid REBOOT_RESOURCE GRANT k"
    "bit w 6 \<Longrightarrow> holds cid ACQUIRE_ANY_RESOURCE GRANT k" "bit w 7 \<Longrightarrow> holds cid RESOURCE_MINT_RESOURCE GRANT k"
    "bit w 8 \<Longrightarrow> holds cid GPIO_DEVICE_RESOURCE GRANT k" "bit w 9 \<Longrightarrow> holds cid SET_CLOCK_RESOURCE GRANT k"
    "bit w 10 \<Longrightarrow> holds cid SET_CLOCK_RESOURCE GRANT k" "bit w 11 \<Longrightarrow> holds cid NET_DEVICE_RESOURCE GRANT k"
    "bit w 12 \<Longrightarrow> holds cid PCI_CFG_RESOURCE GRANT k" "bit w 13 \<Longrightarrow> holds cid CPU_CLOCK_RESOURCE GRANT k"
    "bit w 14 \<Longrightarrow> holds cid POWER_OFF_RESOURCE GRANT k" by simp_all
qed

lemma mem_if_list: "x \<in> set (if P then xs else []) \<longleftrightarrow> P \<and> x \<in> set xs" by simp

lemma granted_cases:
  assumes "\<not> (w \<noteq> 0 \<and> privileges_caller_lacks cid w k)" "sp_privs s = Some w" "sp_name s \<noteq> SUPERVISOR"
    and "(rid, r) \<in> set (base_grants s @ child_grants b s)"
  shows "(rid, r) \<in> {(LOG_WRITE_RESOURCE, WRITE), (CONSOLE_READ_RESOURCE, READ), (DEVICE_POWER_RESOURCE, WRITE)}
    \<or> holds cid rid GRANT k \<and> r \<in> {READ, WRITE}"
proof -
  have "(rid, r) \<in> set (case fixed_kind h of Some x \<Rightarrow> (if P x then [(DEVICE_POWER_RESOURCE, WRITE)] else []) | None \<Rightarrow> [])
      \<Longrightarrow> (rid, r) = (DEVICE_POWER_RESOURCE, WRITE)" for h P
    by (auto split: option.splits if_splits)
  note dp = this
  show ?thesis
    using assms(4) unfolding base_grants_def child_grants_def assms(2) privileges_of_def resource_mint_of_def Let_def
      option.case set_append Un_iff mem_if_list list.set insert_iff empty_iff prod.inject Privileges.select_convs
    by (elim disjE conjE) (auto dest!: dp simp: assms(3) privileges_held [OF assms(1)])
qed

lemma spawn_answer_adds:
  assumes "spawn_answer cid got k = Some (out, k')" "c \<in> all_caps k'"
  shows "c \<in> all_caps k \<or> (\<exists>e. got = Inr (Some e) \<and> resource_id c = e \<and> rights c = Rights_union SEND GRANT)"
proof -
  have "k' = k \<or> (\<exists>e d i. got = Inr (Some e) \<and> mint_cap (res k) e (Rights_union SEND GRANT) = Some d
      \<and> insert_cap cid d k = Inr (i, k'))"
    using assms(1) by (auto simp: spawn_answer_def ret_def split: sum.splits option.splits Option.bind_splits)
  then show ?thesis
  proof (elim disjE exE conjE)
    fix e d i assume d: "got = Inr (Some e)" "mint_cap (res k) e (Rights_union SEND GRANT) = Some d" "insert_cap cid d k = Inr (i, k')"
    obtain s where s: "current_task_insert_cap cid d (sched k) = Inr (i, s)" "k' = k\<lparr>sched := s\<rparr>"
      using d(3) by (auto simp: insert_cap_def split: sum.splits)
    have "caps_of k' j \<subseteq> caps_of k j \<union> {d}" for j
      using insert_current(2) [OF s(1), of j] by (auto simp: s(2) split: if_splits)
    then have "c \<in> all_caps k \<or> c = d" using assms(2) by (auto simp: all_caps_def s(2))
    then show ?thesis using mint_minted [OF d(2)] d(1) by (auto simp: minted_def)
  qed (use assms(2) in simp)
qed


end
