(* ===== verification/Spawn_Abi.thy ===== *)
theory Spawn_Abi
  imports Spawn
begin

text \<open>
  The caller's side of \<open>SpawnImage\<close> (\<open>sdk/rust/src/service_context.rs\<close>): the request as the SDK's \<open>repr(C)\<close> structure lies in
  memory, the encoding of the capabilities to install, and the joining of the peer names. The lemmas show that the kernel reads
  back what the SDK wrote.
\<close>

unbundle bit_operations_syntax

section \<open>The SDK's encodings\<close>

definition SpawnRequest_new :: "u64 \<Rightarrow> u64 \<Rightarrow> u64 \<Rightarrow> u32 \<Rightarrow> SpawnRequest" where
  "SpawnRequest_new ip il np nl =
    \<lparr>version = SPAWN_REQUEST_VERSION, rq_flags = 0, image_ptr = ip, image_len = il, name_ptr = np, name_len = nl,
     rq_core = - 1, memory_limit = 0, privileges = 0, hw_flags = 0, mmio_base = 0, mmio_len = 0, dma_pages = 0, rq_bdf = 0,
     irq_count = 0, irqs = replicate 4 0, peers_ptr = 0, peers_len = 0, installs_ptr = 0, installs_count = 0,
     probe_mode = 0\<rparr>"

text \<open>The fields in order, with the three words of padding.\<close>

definition request_bytes :: "SpawnRequest \<Rightarrow> u8 list" where
  "request_bytes rq =
    to_le_bytes 4 (version rq) @ to_le_bytes 4 (rq_flags rq) @ to_le_bytes 8 (image_ptr rq) @ to_le_bytes 8 (image_len rq)
    @ to_le_bytes 8 (name_ptr rq) @ to_le_bytes 4 (name_len rq) @ to_le_bytes 4 (rq_core rq)
    @ to_le_bytes 8 (memory_limit rq) @ to_le_bytes 4 (privileges rq) @ to_le_bytes 4 (hw_flags rq)
    @ to_le_bytes 8 (mmio_base rq) @ to_le_bytes 8 (mmio_len rq) @ to_le_bytes 4 (dma_pages rq) @ to_le_bytes 4 (rq_bdf rq)
    @ to_le_bytes 4 (irq_count rq) @ irqs rq @ to_le_bytes 8 (peers_ptr rq) @ to_le_bytes 4 (peers_len rq)
    @ to_le_bytes 4 (0 :: u32) @ to_le_bytes 8 (installs_ptr rq) @ to_le_bytes 4 (installs_count rq)
    @ to_le_bytes 4 (0 :: u32) @ to_le_bytes 4 (probe_mode rq) @ to_le_bytes 4 (0 :: u32)"

text \<open>\<open>set_installs\<close>: a label and a handle per entry, into a buffer with \<open>room\<close> bytes left.\<close>

fun set_installs :: "nat \<Rightarrow> (name_bytes \<times> u32) list \<Rightarrow> u8 list option" where
  "set_installs room [] = Some []"
| "set_installs room ((lb, h) # es) =
    (if lb = [] \<or> length lb > TASK_NAME_MAX then None
     else if 1 + length lb + 2 > room then None
     else map_option ((@) (of_nat (length lb) # lb @ [ucast (h AND 0xFF), ucast (drop_bit 8 h AND 0xFF)]))
            (set_installs (room - (1 + length lb + 2)) es))"

text \<open>The peer names of \<open>spawn_image\<close>, a NUL byte before each but the first.\<close>

fun join_peers :: "nat \<Rightarrow> bool \<Rightarrow> name_bytes list \<Rightarrow> u8 list option" where
  "join_peers room first [] = Some []"
| "join_peers room first (p # ps) =
    (let sep = (if first then [] else [0]) in
     if \<not> first \<and> room = 0 then None
     else if length sep + length p > room then None
     else map_option ((@) (sep @ p)) (join_peers (room - (length sep + length p)) False ps))"

section \<open>Reading them back\<close>

lemma bytes_at_skip: "length xs = m \<Longrightarrow> m \<le> off \<Longrightarrow> bytes_at off n (xs @ ys) = bytes_at (off - m) n ys"
  by (simp add: bytes_at_def)

lemma bytes_at_here: "length xs = n \<Longrightarrow> bytes_at 0 n (xs @ ys) = xs"
  by (simp add: bytes_at_def)

lemma request_bytes_length: "length (irqs rq) = 4 \<Longrightarrow> length (request_bytes rq) = SPAWN_REQUEST_BYTES"
  by (simp add: request_bytes_def SPAWN_REQUEST_BYTES_def)

lemma decode_request_bytes:
  assumes "length (irqs rq) = 4"
  shows "SpawnRequest_decode (request_bytes rq) = rq"
  unfolding SpawnRequest_decode_def request_bytes_def Let_def
  by (rule SpawnRequest.equality) (simp_all add: assms bytes_at_skip bytes_at_here)

text \<open>The two bytes of a slot number.\<close>

lemma slot_bytes:
  fixes h :: u32
  shows "unat (ucast (h AND 0xFF) :: u8) + 256 * unat (ucast (drop_bit 8 h AND 0xFF) :: u8) = unat h mod 65536"
proof -
  have m: "w AND 0xFF = take_bit 8 w" for w :: u32 by (simp add: take_bit_eq_mask mask_eq_exp_minus_1)
  have "unat (ucast (h AND 0xFF) :: u8) = unat h mod 256" "unat (ucast (drop_bit 8 h AND 0xFF) :: u8) = unat h div 256 mod 256"
    unfolding m by (simp_all add: unsigned_ucast_eq unsigned_take_bit_eq unsigned_drop_bit_eq take_bit_eq_mod drop_bit_eq_div
        unat_mod_distrib unat_div_distrib)
  then show ?thesis using mod_mult2_eq [of "unat h" 256 256] by simp
qed

lemma parse_installs_back:
  assumes "set_installs room es = Some b" "length cs = length es"
    and "\<And>i. i < length es \<Longrightarrow> lookup_cap cid (unat (snd (es ! i)) mod 65536) GRANT k = Inr (cs ! i)"
  shows "parse_installs cid (length es) (b @ rest) k = Inr (zip (map fst es) cs)"
  using assms
proof (induction es arbitrary: room b cs)
  case (Cons e es)
  obtain lb h where e: "e = (lb, h)" by fastforce
  obtain b' where lb: "lb \<noteq> []" "length lb \<le> TASK_NAME_MAX"
    and b': "set_installs (room - (1 + length lb + 2)) es = Some b'"
    and b: "b = of_nat (length lb) # lb @ [ucast (h AND 0xFF), ucast (drop_bit 8 h AND 0xFF)] @ b'"
    using Cons.prems(1) by (auto simp: e split: if_splits)
  obtain c cs' where cs: "cs = c # cs'" using Cons.prems(2) by (cases cs) auto
  have len: "unat (of_nat (length lb) :: u8) = length lb"
    using lb(2) by (simp add: unat_of_nat TASK_NAME_MAX_def)
  have "lookup_cap cid (unat h mod 65536) GRANT k = Inr c" using Cons.prems(3) [of 0] by (simp add: e cs)
  moreover have "parse_installs cid (length es) (b' @ rest) k = Inr (zip (map fst es) cs')"
    using Cons.prems(2) Cons.prems(3) [of "Suc _"] by (intro Cons.IH [OF b']) (simp_all add: cs)
  ultimately show ?case
    using lb slot_bytes [of h] by (simp add: b e cs len nth_append Let_def)
qed simp

lemma split_nul_app: "0 \<notin> set p \<Longrightarrow> split_nul (p @ 0 # b) = p # split_nul b"
  by (induction p) auto

lemma split_nul_one: "0 \<notin> set p \<Longrightarrow> split_nul p = [p]"
  by (induction p) auto

lemma join_split:
  assumes "join_peers room False ps = Some b" "\<And>p. p \<in> set ps \<Longrightarrow> 0 \<notin> set p" "0 \<notin> set q"
  shows "split_nul (q @ b) = q # ps"
  using assms
proof (induction ps arbitrary: room b q)
  case (Cons p ps)
  obtain b' where b': "join_peers (room - Suc (length p)) False ps = Some b'" "b = 0 # p @ b'"
    using Cons.prems(1) by (auto simp: Let_def split: if_splits)
  have "split_nul (p @ b') = p # ps" using Cons.IH [OF b'(1)] Cons.prems(2) by simp
  then show ?case using split_nul_app Cons.prems(3) b'(2) by simp
qed (simp add: split_nul_one)

lemma join_peers_back:
  assumes "join_peers room True ps = Some b" "\<And>p. p \<in> set ps \<Longrightarrow> p \<noteq> [] \<and> 0 \<notin> set p"
  shows "filter (\<lambda>p. p \<noteq> []) (split_nul b) = ps"
proof (cases ps)
  case (Cons p qs)
  then obtain b' where "join_peers (room - length p) False qs = Some b'" "b = p @ b'"
    using assms(1) by (auto simp: Let_def split: if_splits)
  then have "split_nul b = p # qs" using join_split assms(2) Cons by auto
  then show ?thesis using assms(2) Cons by (auto simp: filter_id_conv)
qed (use assms(1) in simp)

end
