(* ===== verification/Spawn_Demo.thy ===== *)
theory Spawn_Demo
  imports Spawn_Props Spawn_Abi
begin

text \<open>
  Properties of \<open>SpawnImage\<close> across the kernel and the SDK, and a concrete spawn as their witness: task 0 holds the two
  capabilities the call needs and asks for a task without an endpoint.
\<close>

unbundle bit_operations_syntax

section \<open>The request of the witnesses\<close>

definition spawn_cap :: Capability where
  "spawn_cap = \<lparr>resource_id = SPAWN_RESOURCE, rights = WRITE, generation = INITIAL\<rparr>"

definition image_cap :: Capability where
  "image_cap = \<lparr>resource_id = IMAGE_SPAWN_RESOURCE, rights = WRITE, generation = INITIAL\<rparr>"

definition spawner_caps :: CapTable where
  "spawner_caps = \<lparr>slots = [Some spawn_cap, Some image_cap] @ replicate 62 None\<rparr>"

definition spawner_kernel :: Kernel where
  "spawner_kernel = demo_kernel\<lparr>sched := upd_task 0 (\<lambda>t. t\<lparr>t_caps := spawner_caps\<rparr>) demo_sched,
     res := GlobalResourceTable_new\<lparr>present := (\<lambda>_. True)\<rparr>\<rparr>"

text \<open>The request lies at \<open>0x1000\<close>, and every other byte is an \<open>A\<close>.\<close>

definition spawn_env :: "u32 \<Rightarrow> Env" where
  "spawn_env n = demo_env\<lparr>user_mem := (\<lambda>p. if 0x1000 \<le> p \<and> p < 0x1080
     then request_bytes (SpawnRequest_new 0x4000 1 0x2000 n) ! unat (p - 0x1000) else 65)\<rparr>"

lemma user_ptr_ok: "0 < p \<Longrightarrow> 0 < n \<Longrightarrow> unat p + n < 2 ^ 47 \<Longrightarrow> validate_user_ptr p n"
  by (auto simp: validate_user_ptr_def USER_END_def checked_add_def word_le_nat_alt unat_word_ariths unat_of_nat Let_def)

lemma spawn_env_request:
  "read_user_bytes (spawn_env n) 0 spawner_kernel 0x1000 128 = Some (request_bytes (SpawnRequest_new 0x4000 1 0x2000 n))"
proof -
  let ?b = "request_bytes (SpawnRequest_new 0x4000 1 0x2000 n)"
  have len: "length ?b = 128" by (simp add: request_bytes_length SpawnRequest_new_def SPAWN_REQUEST_BYTES_def)
  have p: "0x1000 \<le> 0x1000 + (of_nat i :: u64) \<and> 0x1000 + (of_nat i :: u64) < 0x1080" if "i < 128" for i
    using that by (simp add: word_le_nat_alt word_less_nat_alt unat_word_ariths unat_of_nat)
  have "map (\<lambda>i. user_mem (spawn_env n) (0x1000 + of_nat i)) [0..<128] = map ((!) ?b) [0..<128]"
    by (rule map_cong) (use p in \<open>auto simp: spawn_env_def unat_of_nat\<close>)
  also have "\<dots> = ?b" using map_nth [of ?b] unfolding len .
  finally have "map (\<lambda>i. user_mem (spawn_env n) (0x1000 + of_nat i)) [0..<128] = ?b" .
  moreover have "validate_user_ptr 0x1000 128" by (rule user_ptr_ok) simp_all
  ultimately show ?thesis
    by (simp add: read_user_bytes_def MAX_MESSAGE_SIZE_def spawner_kernel_def demo_sched_def wit_sched_def upd_task_def)
qed

lemma spawn_env_name:
  assumes "0 < n" "n \<le> 128"
  shows "read_user_bytes (spawn_env m) 0 spawner_kernel 0x2000 n = Some (replicate n 65)"
proof -
  have p: "\<not> 0x2000 + (of_nat i :: u64) < 0x1080" if "i < 128" for i
    using that by (simp add: word_less_nat_alt unat_word_ariths unat_of_nat)
  have "map (\<lambda>i. user_mem (spawn_env m) (0x2000 + of_nat i)) [0..<n] = replicate n 65"
    using p assms(2) by (intro nth_equalityI) (auto simp: spawn_env_def)
  moreover have "validate_user_ptr 0x2000 n" using assms by (intro user_ptr_ok) simp_all
  ultimately show ?thesis using assms
    by (simp add: read_user_bytes_def MAX_MESSAGE_SIZE_def spawner_kernel_def demo_sched_def wit_sched_def upd_task_def)
qed

lemma spawner_record: "get_record (res spawner_kernel) rid = (if rid < DIRECT_CAP then Some EMPTY_RECORD else None)"
  by (simp add: get_record_def spawner_kernel_def GlobalResourceTable_new_def)

lemma spawner_slots: "slot_cap (t_caps (tasks (sched spawner_kernel) 0)) i =
    (if i = 0 then Some spawn_cap else if i = 1 then Some image_cap else None)"
  by (auto simp: spawner_kernel_def upd_task_def slot_cap_def spawner_caps_def nth_append nth_Cons')

lemma spawner_authority:
  "lookup_scoped 0 0 WRITE SPAWN_RESOURCE spawner_kernel = Inr spawn_cap" "holds 0 IMAGE_SPAWN_RESOURCE WRITE spawner_kernel"
proof -
  have v: "current_valid 0 (sched spawner_kernel)" "me 0 spawner_kernel = 0"
    by (simp_all add: current_valid_def spawner_kernel_def upd_task_def demo_sched_def wit_sched_def wit_task_def MAX_TASKS_def)
  have w: "Rights_contains WRITE WRITE" by (simp add: Rights_contains_def)
  have "CapTable_get (res spawner_kernel) (t_caps (tasks (sched spawner_kernel) 0)) 0 WRITE = Inr spawn_cap"
    unfolding CapTable_get_Inr
    by (simp add: spawner_slots spawner_record get_resource_generation_def spawn_cap_def w SPAWN_RESOURCE_def DIRECT_CAP_def
        EMPTY_RECORD_def)
  then show "lookup_scoped 0 0 WRITE SPAWN_RESOURCE spawner_kernel = Inr spawn_cap"
    by (simp add: lookup_scoped_def lookup_cap_def current_task_lookup_cap_def v spawn_cap_def)
  show "holds 0 IMAGE_SPAWN_RESOURCE WRITE spawner_kernel"
    using spawner_slots [of 1] w
    by (auto simp: holds_def current_task_holds_resource_def v holds_resource_iff image_cap_def intro!: exI [of _ 1])
qed

lemma spawner_refused:
  "request_refused 0 (SpawnRequest_new ip il np n) k \<longleftrightarrow> unat n = 0 \<or> unat n > 128"
  by (simp add: request_refused_def SpawnRequest_new_def MAX_DMA_PAGES_def hw_class_known_def TASK_NAME_MAX_def)

section \<open>The name buffer\<close>

text \<open>C39: A spawn request with a name of 65 to 128 bytes panics the kernel. The check admits names of up to 128 bytes, but the
  name is copied into a buffer of 64.\<close>

theorem long_name_panics:
  assumes "lookup_scoped cid (unat a2) WRITE SPAWN_RESOURCE k = Inr cap" "holds cid IMAGE_SPAWN_RESOURCE WRITE k"
    and "read_user_bytes env cid k a0 128 = Some raw" "\<not> request_refused cid (SpawnRequest_decode raw) k"
    and "read_user_bytes env cid k (name_ptr (SpawnRequest_decode raw)) (unat (name_len (SpawnRequest_decode raw))) = Some nm"
    and "64 < unat (name_len (SpawnRequest_decode raw))"
  shows "dispatch env b cid SpawnImage a0 128 a2 k = None"
proof -
  have "length nm = unat (name_len (SpawnRequest_decode raw))"
    using assms(5) by (auto simp: read_user_bytes_def split: if_splits)
  then show ?thesis
    using assms by (simp add: dispatch_def handle_spawn_image_def SPAWN_REQUEST_BYTES_def request_name_def Let_def)
qed

theorem long_name_panics_witness:
  "dispatch (spawn_env 65) demo_board 0 SpawnImage 0x1000 128 0 spawner_kernel = None"
proof -
  let ?rq = "SpawnRequest_new 0x4000 1 0x2000 65"
  have d: "SpawnRequest_decode (request_bytes ?rq) = ?rq" by (rule decode_request_bytes) (simp add: SpawnRequest_new_def)
  show ?thesis
    by (rule long_name_panics [of 0 0 spawner_kernel _ "spawn_env 65" "0x1000", OF _ spawner_authority(2) spawn_env_request])
      (simp_all add: spawner_authority d spawner_refused, simp_all add: SpawnRequest_new_def spawn_env_name)
qed

section \<open>Requests across the boundary\<close>

text \<open>C40: The kernel reads back what the SDK wrote. A request is 128 bytes and decodes to the same fields; the encoded capabilities
  to install come back as the same labels, each with the capability of the caller's slot (the low 16 bits of the handle), whatever
  follows them in memory; the joined peer names split into the same names.\<close>

theorem spawn_request_roundtrip:
  assumes "length (irqs rq) = 4" "set_installs n1 es = Some ib" "length cs = length es"
    and "\<And>i. i < length es \<Longrightarrow> lookup_cap cid (unat (snd (es ! i)) mod 65536) GRANT k = Inr (cs ! i)"
    and "join_peers n2 True ps = Some pb" "\<And>p. p \<in> set ps \<Longrightarrow> p \<noteq> [] \<and> 0 \<notin> set p"
  shows "length (request_bytes rq) = SPAWN_REQUEST_BYTES \<and> SpawnRequest_decode (request_bytes rq) = rq
    \<and> parse_installs cid (length es) (ib @ rest) k = Inr (zip (map fst es) cs)
    \<and> filter (\<lambda>p. p \<noteq> []) (split_nul pb) = ps"
  using request_bytes_length decode_request_bytes parse_installs_back join_peers_back assms by blast

theorem spawn_request_roundtrip_witness:
  "SpawnRequest_decode (request_bytes (SpawnRequest_new 0x4000 1 0x2000 2)) = SpawnRequest_new 0x4000 1 0x2000 2
   \<and> parse_installs 0 1 [1, 70, 1, 0, 9] demo_kernel = Inr [([70], demo_grant)]
   \<and> filter (\<lambda>p. p \<noteq> []) (split_nul [70, 0, 71, 72]) = [[70], [71, 72]]"
proof -
  have i: "set_installs 10 [([70], 1)] = Some [1, 70, 1, 0]" by (simp add: TASK_NAME_MAX_def)
  have p: "join_peers 10 True [[70], [71, 72]] = Some [70, 0, 71, 72]" by simp
  have c: "lookup_cap 0 (unat (snd ([([70 :: u8], 1 :: u32)] ! j)) mod 65536) GRANT demo_kernel = Inr ([demo_grant] ! j)"
    if "j < length [([70 :: u8], 1 :: u32)]" for j using that demo_lookup(2) by simp
  have n: "q \<noteq> [] \<and> 0 \<notin> set q" if "q \<in> set [[70 :: u8], [71, 72]]" for q using that by auto
  note spawn_request_roundtrip [of "SpawnRequest_new 0x4000 1 0x2000 2", OF _ i _ c p n, of "[9]"]
  then show ?thesis by (simp add: SpawnRequest_new_def)
qed

section \<open>A spawn that succeeds\<close>

definition log_cap :: Capability where
  "log_cap = \<lparr>resource_id = LOG_WRITE_RESOURCE, rights = WRITE, generation = INITIAL\<rparr>"

lemma spawn_name_free: "find_task_by_name (sched spawner_kernel) [65] = None"
  by (simp add: find_task_by_name_def find_task_by_name_excluding_def scan_None spawner_kernel_def upd_task_def demo_sched_def
      wit_sched_def wit_task_def)

definition child_sched :: Sched where
  "child_sched = upd_task 1 (\<lambda>t. t\<lparr>t_core := 0, t_pending_count := 0, t_valid := True, t_caps := CapTable_empty\<rparr>)
     (sched spawner_kernel)"

lemma spawner_slot:
  "\<exists>s. reserve_task_slot 0 (sched spawner_kernel) = Some (1, s) \<and> task_cap_init_empty 1 s = child_sched"
proof -
  let ?P = "\<lambda>i. \<not> t_valid (tasks (sched spawner_kernel) i)"
  have P: "\<not> ?P 0" "?P (Suc 0)"
    by (simp_all add: spawner_kernel_def upd_task_def demo_sched_def wit_sched_def wit_task_def)
  have "scan ?P 0 (Suc 223) = Some 1" unfolding scan.simps(2) [of ?P 0] using P by (simp add: scan_hit)
  then have "scan ?P 0 MAX_TASKS = Some 1" by (simp add: MAX_TASKS_def)
  then show ?thesis by (simp add: reserve_task_slot_def task_cap_init_empty_def upd_task_def child_sched_def)
qed

definition child_args :: SpawnArgs where
  "child_args = \<lparr>sp_name = [65], sp_core = 0, sp_recv = False, sp_peers = [], sp_peers_grant = False,
     sp_limit = 64 * 1024 * 1024, sp_irqs = [], sp_console = False, sp_privs = Some 0, sp_hw = HwNone, sp_dma = 0,
     sp_installs = None, sp_watched = False\<rparr>"

lemma child_grants_none: "child_grants demo_board child_args = []"
  by (simp add: child_grants_def child_args_def privileges_of_def resource_mint_of_def fixed_kind_def SUPERVISOR_def Let_def)

lemma child_spawned:
  assumes "sched k = sched spawner_kernel" "res k = res spawner_kernel"
  shows "\<exists>k'. spawn_service_with_image demo_board child_args k = Some (Inr None, k') \<and> log_cap \<in> caps_of k' 1"
proof -
  have m: "mint_cap (res k) LOG_WRITE_RESOURCE WRITE = Some log_cap"
    by (simp add: mint_cap_def assms(2) spawner_record log_cap_def LOG_WRITE_RESOURCE_def DIRECT_CAP_def EMPTY_RECORD_def)
  obtain tbl where tbl: "CapTable_insert log_cap CapTable_empty = Inr (0, tbl)" and s0: "slot_cap tbl 0 = Some log_cap"
    by (simp add: CapTable_insert_def CapTable_empty_def find_idx_replicate slot_cap_def MAX_CAPS_PER_TASK_def)
  define k1 where "k1 = k\<lparr>sched := upd_task 1 (\<lambda>t. t\<lparr>t_caps := tbl\<rparr>) child_sched\<rparr>"
  have ci: "child_insert 1 log_cap (k\<lparr>sched := child_sched\<rparr>) = Some k1"
    by (simp add: child_insert_def k1_def tbl child_sched_def upd_task_def)
  obtain k' where k': "spawn_commit demo_board child_args 4096 1 None [] k1 = Some (Inr None, k')"
      and sc: "same_caps (sched k1) (sched k')"
    using spawn_commit_adds by (auto simp: spawn_commit_def demo_board_def Let_def same_caps_def commit_task_def set_task_hw_kind_def
      set_task_watched_def set_task_memory_budget_def set_task_peers_def upd_task_def)
  have "spawn_build demo_board child_args 4096 1 None k1 = Some (Inr None, k')"
    using k' by (simp add: spawn_build_def child_grants_none)
      (simp add: child_args_def spawn_mmio_def mmio_bar_def hw_found_def spawn_dma_def needs_dma_def)
  then have "spawn_service_with_image demo_board child_args k = Some (Inr None, k')"
    using spawner_slot assms(1) m ci
    by (auto simp: spawn_service_with_image_def child_args_def demo_board_def privileges_of_def spawn_endpoint_def Let_def)
  moreover have "log_cap \<in> caps_of k' 1"
    using sc s0 caps_ofI [of k' 1 0] by (simp add: same_caps_def k1_def upd_task_def child_sched_def)
  ultimately show ?thesis by blast
qed

lemma spawn_runs:
  "\<exists>k'. dispatch (spawn_env 1) demo_board 0 SpawnImage 0x1000 128 0 spawner_kernel = Some (Return 0, k') \<and> log_cap \<in> caps_of k' 1"
proof -
  let ?rq = "SpawnRequest_new 0x4000 1 0x2000 1" and ?k = "spawner_kernel\<lparr>spawn_rr := 1\<rparr>"
  have d: "SpawnRequest_decode (request_bytes ?rq) = ?rq" by (rule decode_request_bytes) (simp add: SpawnRequest_new_def)
  obtain k' where k': "spawn_service_with_image demo_board child_args ?k = Some (Inr None, k')" "log_cap \<in> caps_of k' 1"
    using child_spawned [of ?k] by auto
  have "hw_class_of 0 = HwNone" "\<not> hw_class_is_pci 0" by (simp_all add: hw_class_of_def hw_class_is_pci_def)
  moreover have "resolve_spawn_core demo_board None (- 1) spawner_kernel = (Inr 0, ?k)"
    by (simp add: resolve_spawn_core_def next_core_def demo_board_def spawner_kernel_def demo_kernel_def wit_kernel_def)
  moreover have "\<not> name_taken [65] False (sched spawner_kernel)" by (simp add: name_taken_def spawn_name_free)
  ultimately have "spawn_from_image demo_board (image_args ?rq [65] [] []) spawner_kernel = Some (Inr None, k')"
    using k'(1) by (simp add: spawn_from_image_def image_args_def SpawnRequest_new_def SUPERVISOR_def hw_irqs_for_def child_args_def)
  moreover have "request_name (spawn_env 1) 0 ?rq spawner_kernel = Some (Some [65])"
    using spawn_env_name [of 1 1] by (simp add: request_name_def SpawnRequest_new_def)
  moreover have "request_peers (spawn_env 1) 0 ?rq spawner_kernel = Some []" "request_installs (spawn_env 1) 0 ?rq spawner_kernel = Inr []"
    by (simp_all add: request_peers_def request_installs_def SpawnRequest_new_def)
  moreover have "image_len ?rq = 1" by (simp add: SpawnRequest_new_def)
  ultimately have "dispatch (spawn_env 1) demo_board 0 SpawnImage 0x1000 128 0 spawner_kernel = Some (Return 0, k')"
    using spawner_authority spawn_env_request [of 1] d
    by (simp add: spawner_refused dispatch_def handle_spawn_image_def SPAWN_REQUEST_BYTES_def spawn_answer_def ret_def Let_def)
  then show ?thesis using k'(2) by blast
qed


end
