(* ===== verification/Stamps.thy ===== *)
theory Stamps
  imports Spawn_Props
begin

text \<open>
  What the kernel writes into a message about its origin: the sender's endpoint and, for a call on a delegated resource, the badge
  with the resource and the right used. \<open>says P r r'\<close> says that every message of \<open>r'\<close> was in \<open>r\<close> or satisfies \<open>P\<close>; the lemmas go
  through the handlers of the system calls.
\<close>

unbundle bit_operations_syntax

section \<open>New messages of an operation\<close>

definition says :: "(Message \<Rightarrow> bool) \<Rightarrow> Routing \<Rightarrow> Routing \<Rightarrow> bool" where
  "says P r r' \<longleftrightarrow> (routing_wf r \<longrightarrow> routing_wf r' \<and> (\<forall>m\<in>msgs r'. m \<in> msgs r \<or> P m))"

named_theorems says_elims "the new messages of an operation that returned"
named_theorems keeps_routing "operations that leave the routing table alone"

lemma says_refl [simp]: "says P r r" by (simp add: says_def)

lemma says_trans: "says P r0 r \<Longrightarrow> says P r r' \<Longrightarrow> says P r0 r'" unfolding says_def by blast

lemma says_shrink: "(routing_wf r \<Longrightarrow> routing_wf r' \<and> msgs r' \<subseteq> msgs r) \<Longrightarrow> says P r0 r \<Longrightarrow> says P r0 r'"
  unfolding says_def by blast

lemma says_table: "table r' = table r \<Longrightarrow> says P r0 r' = says P r0 r"
  by (simp add: says_def routing_wf_def msgs_def)

lemma says_enqueue [says_elims]:
  "routing_enqueue ep m g s r = (x, r') \<Longrightarrow> says P r0 r \<Longrightarrow> P m \<Longrightarrow> says P r0 r'"
  using routing_enqueue_msgs [of r ep m g s] routing_enqueue_wf [of r ep m g s] unfolding says_def by auto

lemma says_kernel_enqueue [says_elims]:
  "enqueue_from_kernel_blocking ep m s r = (x, r') \<Longrightarrow> says P r0 r \<Longrightarrow> P m \<Longrightarrow> says P r0 r'"
  using kernel_enqueue_msgs [of r ep m s] enqueue_from_kernel_blocking_wf [of r ep m s] unfolding says_def by auto

lemma says_interrupt_enqueue [says_elims]:
  "enqueue_from_interrupt ep m r = (x, r') \<Longrightarrow> says P r0 r \<Longrightarrow> P m \<Longrightarrow> says P r0 r'"
  using interrupt_enqueue_msgs [of r ep m] enqueue_from_interrupt_wf [of r ep m] unfolding says_def by auto

lemma says_dequeue [says_elims]: "routing_dequeue ep g s r = (x, r') \<Longrightarrow> says P r0 r \<Longrightarrow> says P r0 r'"
  using routing_dequeue_msgs [of r ep g s] routing_dequeue_wf [of r ep g s] by (intro says_shrink [of r r']) auto

lemma says_call_dequeue [says_elims]: "call_dequeue ep g t s r = (x, r') \<Longrightarrow> says P r0 r \<Longrightarrow> says P r0 r'"
  using call_dequeue_msgs [of r ep g t s] call_dequeue_wf [of r ep g t s] by (intro says_shrink [of r r']) auto

lemma says_kill_endpoint [says_elims]: "kill_endpoint ep r = Some (w, r') \<Longrightarrow> says P r0 r \<Longrightarrow> says P r0 r'"
  using kill_endpoint_msgs [of r ep w r'] kill_endpoint_wf [of r ep w r'] by (intro says_shrink [of r r']) auto

lemma says_drain [says_elims]:
  assumes "drain_call_waiters ep r = Some (ws, r')" "ep \<noteq> 0" "says P r0 r"
  shows "says P r0 r'"
proof -
  have "table r' = table r" using drain_call_waiters_total [OF assms(2), of r] assms(1) by auto
  then show ?thesis using assms(3) says_table by blast
qed

section \<open>Operations that leave the routing table alone\<close>

lemma keeps_simps [simp]:
  "routing (emit ops k) = routing k" "routing (wake cid j v k) = routing k" "routing (remove_cap cid i k) = routing k"
  "routing (clear_deadline cid k) = routing k" "routing (yield cid k) = routing k"
  "routing (wake_other cid i v w k) = routing k" "routing (snd (irq_unregister_endpoint ep k)) = routing k"
  "routing (fold (\<lambda>w. wake_other cid i v (Some w)) ws k) = routing k"
proof -
  have w: "routing (wake_other cid i v w k) = routing k" for w k by (simp add: wake_other_def wake_def split: option.split)
  then show "routing (wake_other cid i v w k) = routing k" .
  show "routing (fold (\<lambda>w. wake_other cid i v (Some w)) ws k) = routing k" by (induction ws arbitrary: k) (simp_all add: w)
qed (simp_all add: emit_def wake_def remove_cap_def clear_deadline_def yield_def irq_unregister_spec)

lemma keeps_ops [keeps_routing]:
  "block_current cid st k = Some (x, k') \<Longrightarrow> routing k' = routing k"
  "block_sender cid k = Some (out, k') \<Longrightarrow> routing k' = routing k"
  "block_receiver cid k = Some (out, k') \<Longrightarrow> routing k' = routing k"
  "leave_timed cid v k = Some (out, k') \<Longrightarrow> routing k' = routing k"
  "timed_wait cid d k = Some (out, k') \<Longrightarrow> routing k' = routing k"
  "write_user_bytes cid p bs k = (ok, k') \<Longrightarrow> routing k' = routing k"
  "copy_out cid p bs k = (ok, k') \<Longrightarrow> routing k' = routing k"
  "insert_cap cid c k = Inr (i, k') \<Longrightarrow> routing k' = routing k"
proof -
  have b: "routing k' = routing k" if "block_current cid st k = Some (x, k')" for k k' st x
    using that by (auto simp: block_current_def)
  have r: "routing k' = routing k" if "block_receiver cid k = Some (out, k')" for k k' out
    using that by (auto simp: block_receiver_def dest!: b split: Option.bind_splits)
  show "block_current cid st k = Some (x, k') \<Longrightarrow> routing k' = routing k" by (rule b)
  show "block_receiver cid k = Some (out, k') \<Longrightarrow> routing k' = routing k" by (rule r)
  show "block_sender cid k = Some (out, k') \<Longrightarrow> routing k' = routing k"
    by (auto simp: block_sender_def dest!: b split: Option.bind_splits)
  show "timed_wait cid d k = Some (out, k') \<Longrightarrow> routing k' = routing k"
    by (auto simp: timed_wait_def leave_timed_def ret_def Let_def dest!: r split: if_splits Option.bind_splits Outcome.splits)
qed (auto simp: leave_timed_def ret_def write_user_bytes_def copy_out_def insert_cap_def split: if_splits sum.splits)

lemma install_cap_keeps [simp]: "routing (install_cap cid c k) = routing k"
  by (simp add: install_cap_def split: sum.split prod.split bool.split)

lemma install_received_keeps [simp]: "routing (install_received_caps cid m k) = routing k"
proof -
  have "routing (fold (\<lambda>c k. case c of Some cap \<Rightarrow> install_cap cid cap k | None \<Rightarrow> k) cs k) = routing k" for cs
    by (induction cs arbitrary: k) (simp_all split: option.split)
  then show ?thesis by (simp add: install_received_caps_def)
qed

lemma deliver_received_keeps [keeps_routing]: "deliver_received cid p l m tx k = (v, k') \<Longrightarrow> routing k' = routing k"
  by (auto simp: deliver_received_def Let_def dest!: keeps_ops(7) split: option.splits prod.splits bool.splits)

lemma alloc_pages_keeps [keeps_routing]: "alloc_pages env va ps k = Some (out, k') \<Longrightarrow> routing k' = routing k"
  by (induction ps arbitrary: k) (fastforce simp: ret_def Let_def split: Option.bind_splits option.splits if_splits)+

section \<open>The calls that leave the routing table alone\<close>

lemma gated_slot_keeps: "gated_slot cid n r rid ops k = Some (out, k') \<Longrightarrow> routing k' = routing k"
  by (auto simp: gated_slot_def ret_def split: sum.splits)

lemma gated_keeps:
  "gated cid rid r k body = Some (out, k') \<Longrightarrow> (body = Some (out, k') \<Longrightarrow> routing k' = routing k) \<Longrightarrow> routing k' = routing k"
  by (auto simp: gated_def ret_def split: if_splits)

lemma plain_calls_keep:
  "handle_log env cid a p l k = Some (out, k') \<Longrightarrow> routing k' = routing k"
  "handle_print env cid a p l k = Some (out, k') \<Longrightarrow> routing k' = routing k"
  "handle_irq_unmask cid a k = Some (out, k') \<Longrightarrow> routing k' = routing k"
  "handle_take_pending_cap cid k = Some (out, k') \<Longrightarrow> routing k' = routing k"
  "handle_query_cap_rights cid a k = Some (out, k') \<Longrightarrow> routing k' = routing k"
  "handle_remove_cap cid a k = Some (out, k') \<Longrightarrow> routing k' = routing k"
  "handle_last_recv_badge cid k = Some (out, k') \<Longrightarrow> routing k' = routing k"
  "handle_try_console_read env cid a k = Some (out, k') \<Longrightarrow> routing k' = routing k"
  "handle_task_stat env cid a p l k = Some (out, k') \<Longrightarrow> routing k' = routing k"
  "handle_task_caps cid a p l k = Some (out, k') \<Longrightarrow> routing k' = routing k"
  by (auto simp: handle_log_def handle_print_def handle_irq_unmask_def handle_take_pending_cap_def
      handle_query_cap_rights_def handle_remove_cap_def handle_last_recv_badge_def handle_try_console_read_def
      handle_task_stat_def handle_task_caps_def Let_def ret_def
      split: sum.splits option.splits if_splits prod.splits dest!: keeps_routing)

lemma device_calls_keep:
  "handle_fire_irq cid a k = Some (out, k') \<Longrightarrow> routing k' = routing k"
  "handle_reboot cid k = Some (out, k') \<Longrightarrow> routing k' = routing k"
  "handle_device_power env cid a k = Some (out, k') \<Longrightarrow> routing k' = routing k"
  "handle_cpu_clock env cid a k = Some (out, k') \<Longrightarrow> routing k' = routing k"
  "handle_pci_cfg_read env cid a p k = Some (out, k') \<Longrightarrow> routing k' = routing k"
  "handle_net_frame_tx env cid a p k = Some (out, k') \<Longrightarrow> routing k' = routing k"
  "handle_net_frame_rx env cid a p k = Some (out, k') \<Longrightarrow> routing k' = routing k"
  "handle_net_info env cid a k = Some (out, k') \<Longrightarrow> routing k' = routing k"
  "handle_gpio env cid a p k = Some (out, k') \<Longrightarrow> routing k' = routing k"
  by (auto simp: handle_fire_irq_def handle_reboot_def handle_device_power_def handle_cpu_clock_def handle_pci_cfg_read_def
      handle_net_frame_tx_def handle_net_frame_rx_def handle_net_info_def handle_gpio_def Let_def ret_def
      split: option.splits if_splits prod.splits elim!: gated_keeps dest!: keeps_routing)

lemma disk_calls_keep:
  "handle_usb_disk_info env cid k = Some (out, k') \<Longrightarrow> routing k' = routing k"
  "handle_usb_disk_read env cid a p k = Some (out, k') \<Longrightarrow> routing k' = routing k"
  "handle_usb_disk_write env cid a p k = Some (out, k') \<Longrightarrow> routing k' = routing k"
  "handle_usb_disk_flush env cid k = Some (out, k') \<Longrightarrow> routing k' = routing k"
  "handle_power_off cid a p k = Some (out, k') \<Longrightarrow> routing k' = routing k"
  by (auto simp: handle_usb_disk_info_def handle_usb_disk_read_def handle_usb_disk_write_def handle_usb_disk_flush_def
      handle_power_off_def Let_def ret_def split: option.splits if_splits prod.splits elim!: gated_keeps dest!: keeps_routing)

lemma console_calls_keep:
  "handle_console_foreground cid a p k = Some (out, k') \<Longrightarrow> routing k' = routing k"
  "handle_console_echo cid a p k = Some (out, k') \<Longrightarrow> routing k' = routing k"
  "handle_console_boot_complete cid a k = Some (out, k') \<Longrightarrow> routing k' = routing k"
  "handle_signal_input_ready cid a k = Some (out, k') \<Longrightarrow> routing k' = routing k"
  "handle_console_push cid a p k = Some (out, k') \<Longrightarrow> routing k' = routing k"
  unfolding handle_console_foreground_def handle_console_echo_def handle_console_boot_complete_def
    handle_signal_input_ready_def handle_console_push_def
  by (erule gated_slot_keeps)+

lemma console_read_keeps [keeps_routing]: "console_read_pass env cid k = Some (out, k') \<Longrightarrow> routing k' = routing k"
  by (auto simp: console_read_pass_def Let_def ret_def
      split: option.splits if_splits Option.bind_splits Outcome.splits dest!: keeps_routing)

lemma sleep_keeps [keeps_routing]:
  "sleep_pass cid d k = Some (out, k') \<Longrightarrow> routing k' = routing k"
  "hires_wake cid k = Some (out, k') \<Longrightarrow> routing k' = routing k"
  by (auto simp: sleep_pass_def hires_wake_def ret_def split: if_splits Option.bind_splits Outcome.splits dest!: keeps_routing)

lemma waiting_calls_keep:
  "handle_console_read env cid a k = Some (out, k') \<Longrightarrow> routing k' = routing k"
  "handle_sleep env cid a k = Some (out, k') \<Longrightarrow> routing k' = routing k"
  "handle_park cid k = Some (out, k') \<Longrightarrow> routing k' = routing k"
  "handle_alloc_mem env cid a k = Some (out, k') \<Longrightarrow> routing k' = routing k"
  by (auto simp: handle_console_read_def handle_sleep_def handle_park_def handle_alloc_mem_def ret_def Let_def
      split: sum.splits if_splits prod.splits Armed.splits Option.bind_splits option.splits dest!: keeps_routing)

lemma inspect_keeps: "handle_inspect_kernel env cid a p l k = Some (out, k') \<Longrightarrow> routing k' = routing k"
proof -
  have "routing k' = routing k" if "inspect_boot env cid p l k = Some (out, k')"
    using that by (auto simp: inspect_boot_def Let_def ret_def split: if_splits prod.splits dest!: keeps_routing)
  then show "handle_inspect_kernel env cid a p l k = Some (out, k') \<Longrightarrow> routing k' = routing k"
    unfolding handle_inspect_kernel_def Let_def ret_def by (simp only: split: if_splits) auto
qed

lemma cap_calls_keep:
  "handle_acquire_send_cap env cid p l g k = Some (out, k') \<Longrightarrow> routing k' = routing k"
  "handle_derive_cap cid a k = Some (out, k') \<Longrightarrow> routing k' = routing k"
  "handle_resource_mint cid a p k = Some (out, k') \<Longrightarrow> routing k' = routing k"
  "handle_resource_revoke cid a k = Some (out, k') \<Longrightarrow> routing k' = routing k"
  by (auto simp: handle_acquire_send_cap_def handle_derive_cap_def handle_resource_mint_def handle_resource_revoke_def
      Let_def ret_def split: sum.splits if_splits prod.splits bool.splits Option.bind_splits option.splits dest!: keeps_routing)

section \<open>Who a message says it is from\<close>

text \<open>
  The stamp of a message that a call of core \<open>cid\<close> creates: from the caller's endpoint, or from the kernel; with no badge, or with
  the badge of a delegated resource on which the caller holds the right that the badge names.
\<close>

definition stamped :: "nat \<Rightarrow> Kernel \<Rightarrow> Message \<Rightarrow> bool" where
  "stamped cid k m \<longleftrightarrow>
    (sender_ep m = 0 \<or> current_task_endpoint cid (sched k) = Some (sender_ep m))
    \<and> (badge_id m = 0 \<and> badge_right m = 0
       \<or> is_delegated (badge_id m) \<and> (\<exists>i c. lookup_cap cid i (badge_right m) k = Inr c \<and> resource_id c = badge_id m))"

lemma new_stamped [says_elims]: "Message_new bs = Inr m \<Longrightarrow> stamped cid k m"
  by (auto simp: Message_new_def stamped_def split: if_splits)

lemma build_stamped [says_elims]: "build_message env cid p l k = Inr m \<Longrightarrow> stamped cid k m"
  by (auto simp: build_message_def Message_new_def stamped_def Let_def split: if_splits option.splits sum.splits)

lemma embed_stamped [simp]: "stamped cid k (embed_cap c m) = stamped cid k m"
  by (simp add: stamped_def embed_cap_def)

lemma badge_stamped [says_elims]:
  "build_message env cid p l k = Inr m \<Longrightarrow> lookup_cap cid i r k = Inr c \<Longrightarrow> is_delegated (resource_id c)
    \<Longrightarrow> stamped cid k (m\<lparr>badge_id := resource_id c, badge_right := r\<rparr>)"
  using build_stamped [of env cid p l k m] by (auto simp: stamped_def)

section \<open>The calls that send, receive and end\<close>

lemma enqueue_moving_says [says_elims]:
  "enqueue_moving cid ep m g n k = Some (out, k') \<Longrightarrow> P m \<Longrightarrow> says P (routing k) (routing k')"
  by (auto simp: enqueue_moving_def ret_def split: prod.splits sum.splits option.splits if_splits
      dest!: keeps_routing elim!: says_elims)

lemma send_says:
  "handle_send env cid n p l k = Some (out, k') \<Longrightarrow> says (stamped cid k) (routing k) (routing k')"
  "handle_try_send env cid n p l k = Some (out, k') \<Longrightarrow> says (stamped cid k) (routing k) (routing k')"
  "handle_send_with_cap env cid a p l k = Some (out, k') \<Longrightarrow> says (stamped cid k) (routing k) (routing k')"
  "handle_resource_invoke env cid a p l k = Some (out, k') \<Longrightarrow> says (stamped cid k) (routing k) (routing k')"
  by (auto simp: handle_send_def handle_try_send_def handle_send_with_cap_def handle_resource_invoke_def Let_def ret_def
      split: prod.splits sum.splits option.splits if_splits dest!: keeps_routing elim!: says_elims)

lemma recv_says:
  "handle_recv cid n p l k = Some (out, k') \<Longrightarrow> says P (routing k) (routing k')"
  "handle_try_recv cid n p l k = Some (out, k') \<Longrightarrow> says P (routing k) (routing k')"
  "handle_recv_timeout env cid n p t k = Some (out, k') \<Longrightarrow> says P (routing k) (routing k')"
  by (auto simp: handle_recv_def handle_try_recv_def handle_recv_timeout_def recv_pass_def recv_timeout_pass_def Let_def ret_def
      split: prod.splits sum.splits if_splits dest!: keeps_routing elim!: says_elims)

lemma call_pass_says:
  "call_pass cid c ep p n d k = Some (out, k') \<Longrightarrow> says P r0 (routing k) \<Longrightarrow> says P r0 (routing k')"
  by (auto simp: call_pass_def ret_def split: prod.splits sum.splits if_splits dest!: keeps_routing elim!: says_elims)

lemma do_call_says:
  "do_call env cid t rs v p l secs n k = Some (out, k') \<Longrightarrow> says (stamped cid k) (routing k) (routing k')"
  by (auto simp: do_call_def call_sent_def ret_def split: sum.splits if_splits Option.bind_splits Outcome.splits
      elim!: says_elims call_pass_says)

lemma call_says:
  "handle_call env cid a p l k = Some (out, k') \<Longrightarrow> says (stamped cid k) (routing k) (routing k')"
  "handle_call_deadline env cid a p l k = Some (out, k') \<Longrightarrow> says (stamped cid k) (routing k) (routing k')"
  unfolding handle_call_def handle_call_deadline_def by (erule do_call_says)+

lemma console_write_says:
  "handle_console_write env cid a p l k = Some (out, k') \<Longrightarrow> says (stamped cid k) (routing k) (routing k')"
  by (auto simp: handle_console_write_def deliver_to_console_service_def Let_def ret_def
      split: sum.splits option.splits if_splits prod.splits dest!: keeps_routing elim!: says_elims)

lemma says_clear_bank [simp]:
  "says P r0 (clear_call_await j r) = says P r0 r" "says P r0 (bank_mailbox_credit r) = says P r0 r"
  by (rule says_table, simp add: clear_call_await_def set_call_await_def bank_mailbox_credit_def)+

lemma kill_reply_says [says_elims]:
  "kill_reply_mailbox cid j k = Some k' \<Longrightarrow> says P r0 (routing k) \<Longrightarrow> says P r0 (routing k')"
  by (auto simp: kill_reply_mailbox_def Let_def split: option.splits Option.bind_splits if_splits elim!: says_elims)

lemma kill_primary_says [says_elims]:
  "kill_primary_endpoint cid j rep k = Some k' \<Longrightarrow> says P r0 (routing k) \<Longrightarrow> says P r0 (routing k')"
  unfolding kill_primary_endpoint_def Let_def case_prod_unfold
  by (auto simp: ep_from_u64_def split: option.splits Option.bind_splits if_splits elim!: says_elims)

lemma death_note_cases:
  "routing (send_death_note cid j cause k) = routing k
   \<or> (\<exists>ep m bs x. Message_new bs = Inr m \<and> enqueue_from_interrupt ep m (routing k) = (x, routing (send_death_note cid j cause k)))"
proof (cases "names_lookup (names_dir k) SUPERVISOR")
  case (Some ep)
  let ?bs = "death_note (sched k) (task_name (sched k) j) cause"
  show ?thesis
  proof (cases "Message_new ?bs")
    case (Inr m)
    obtain x r where x: "enqueue_from_interrupt ep m (routing k) = (x, r)" by fastforce
    then have "routing (send_death_note cid j cause k) = r"
      using Some Inr by (simp add: send_death_note_def split: Enqueue.split)
    then show ?thesis using Inr x by blast
  qed (use Some in \<open>simp add: send_death_note_def\<close>)
qed (simp add: send_death_note_def)

lemma kill_report_says:
  assumes "says (stamped c k0) r0 (routing k)"
  shows "says (stamped c k0) r0 (routing (kill_report cid j cause k))"
proof -
  have "says (stamped c k0) r0 (routing (send_death_note cid j cause k1))" if "routing k1 = routing k" for k1
    using death_note_cases [of cid j cause k1] says_interrupt_enqueue [OF _ assms] new_stamped that assms by metis
  then show ?thesis using assms by (simp add: kill_report_def Let_def)
qed

lemma kill_claim_keeps [keeps_routing]: "kill_claim j k = Some k' \<Longrightarrow> routing k' = routing k"
  by (auto simp: kill_claim_def split: if_splits)

lemma kill_task_says [says_elims]:
  "kill_task_by_slot look cid j cause k = Some k' \<Longrightarrow> says (stamped c k0) r0 (routing k) \<Longrightarrow> says (stamped c k0) r0 (routing k')"
  by (auto simp: kill_task_by_slot_def Let_def kill_quiesce_spec kill_release_spec split: option.splits Option.bind_splits if_splits
      intro!: kill_report_says dest!: keeps_routing elim!: says_elims)

lemma kill_loop_says:
  assumes "kill_by_name_loop look cid nm cause found k = Some y"
  shows "says (stamped c k0) (routing k) (routing (snd y))"
  using assms
proof (rule kill_by_name_loop.raw_induct [where P = "\<lambda>look cid nm cause found k y. says (stamped c k0) (routing k) (routing (snd y))",
    rotated])
  fix loop look cid nm cause found k y
  assume IH: "\<And>look cid nm cause found k y. loop look cid nm cause found k = Some y
      \<Longrightarrow> says (stamped c k0) (routing k) (routing (snd y))"
    and b: "(case find_task_by_name (sched k) nm of None \<Rightarrow> Some (found, k)
      | Some j \<Rightarrow> kill_task_by_slot look cid j cause k \<bind> loop look cid nm cause True) = Some y"
  show "says (stamped c k0) (routing k) (routing (snd y))"
  proof (cases "find_task_by_name (sched k) nm")
    case (Some j)
    then obtain k1 where k1: "kill_task_by_slot look cid j cause k = Some k1" "loop look cid nm cause True k1 = Some y"
      using b by (auto split: Option.bind_splits)
    show ?thesis using IH [OF k1(2)] kill_task_says [OF k1(1) says_refl] says_trans by blast
  qed (use b in auto)
qed

lemma end_says:
  "handle_kill env cid p l k = Some (out, k') \<Longrightarrow> says (stamped c k0) (routing k) (routing k')"
  "handle_exit env cid a k = Some (out, k') \<Longrightarrow> says (stamped c k0) (routing k) (routing k')"
proof -
  have "says (stamped c k0) (routing k) (routing k1)" if "kill_by_name look cid nm cause k = Some (ok, k1)" for look nm cause ok k1
    using kill_loop_says [of look cid nm cause False k "(ok, k1)" c k0] that by (simp add: kill_by_name_def)
  then show "handle_kill env cid p l k = Some (out, k') \<Longrightarrow> says (stamped c k0) (routing k) (routing k')"
    by (auto simp: handle_kill_def ret_def split: if_splits option.splits Option.bind_splits)
  show "handle_exit env cid a k = Some (out, k') \<Longrightarrow> says (stamped c k0) (routing k) (routing k')"
    by (auto simp: handle_exit_def split: Option.bind_splits dest: kill_task_says [OF _ says_refl])
qed

lemma spawn_says:
  assumes "handle_spawn_image env b cid p n i k = Some (out, k')" "names_wf (names_dir k)"
  shows "says P (routing k) (routing k')"
proof (cases "k' = k")
  case False
  then obtain a got k1 where k1: "spawn_from_image b a k = Some (got, k1)" and ans: "spawn_answer cid got k1 = Some (out, k')"
    using assms(1) by (auto simp: handle_spawn_image_def Let_def ret_def
        split: sum.splits option.splits if_splits Option.bind_splits)
  have "routing k' = routing k1"
    using ans by (auto simp: spawn_answer_def ret_def split: sum.splits option.splits Option.bind_splits dest!: keeps_routing)
  then show ?thesis using spawn_image_adds [OF k1 assms(2)] by (auto simp: adds_def says_def)
qed simp

lemmas dispatch_keeps =
  plain_calls_keep device_calls_keep disk_calls_keep console_calls_keep waiting_calls_keep inspect_keeps cap_calls_keep

lemmas dispatch_says = send_says recv_says call_says console_write_says end_says

lemma dispatch_stamps:
  assumes "dispatch env b cid n a0 a1 a2 k = Some (out, k')" "names_wf (names_dir k)"
  shows "says (stamped cid k) (routing k) (routing k')"
proof -
  have same: "says (stamped cid k) (routing k) (routing k')" if "routing k' = routing k" using that by simp
  show ?thesis
  proof (cases n)
    case Yield
    then show ?thesis using assms(1) by (auto simp: dispatch_def ret_def)
  qed (use assms in \<open>simp_all add: dispatch_def\<close>,
      (erule dispatch_says spawn_says [OF _ assms(2)] | (rule same, erule dispatch_keeps))+)
qed

text \<open>C6: Nobody can forge where a message comes from. Every message that a system call puts under way, be it queued or kept as a
  blocked sender's, names as its sender the endpoint of the caller, or nobody when the caller has no endpoint or the kernel
  itself speaks; and it has no badge, or the badge of a delegated resource with a right that the caller holds on it.\<close>

theorem messages_stamped:
  assumes "routing_wf (routing k)" "names_wf (names_dir k)" "dispatch env b cid n a0 a1 a2 k = Some (out, k')"
    and "m \<in> msgs (routing k')" "m \<notin> msgs (routing k)"
  shows "stamped cid k m"
  using dispatch_stamps [OF assms(3,2)] assms(1,4,5) by (auto simp: says_def)

theorem messages_stamped_witness:
  "\<exists>k' m. dispatch demo_env demo_board 0 Send 0 0 0 demo_kernel = Some (Return 0, k')
     \<and> m \<in> msgs (routing k') \<and> m \<notin> msgs (routing demo_kernel) \<and> stamped 0 demo_kernel m"
proof -
  let ?m = "\<lparr>payload = replicate MAX_MESSAGE_SIZE 0, payload_len = 0, caps = replicate 4 None, cap_count = 0,
    badge_id = 0, badge_right = 0, sender_ep = 100\<rparr>"
  have b: "build_message demo_env 0 0 0 demo_kernel = Inr ?m"
    by (simp add: build_message_def Message_new_def MAX_EMBEDDED_CAPS_def current_task_endpoint_def ep_from_u64_def)
  obtain r where r: "routing_enqueue 100 ?m (Generation 1) (Some 0) wit_routing = (Inr None, r)"
    using demo_enqueue by blast
  then have d: "dispatch demo_env demo_board 0 Send 0 0 0 demo_kernel = Some (Return 0, demo_kernel\<lparr>routing := r\<rparr>)"
    using demo_lookup(1) by (simp add: dispatch_def handle_send_def b demo_send_def ret_def)
  have "?m \<in> at_endpoint r 100" using enqueue_blocking_cases [OF wit_routing_wf r] by auto
  then have m: "?m \<in> msgs (routing (demo_kernel\<lparr>routing := r\<rparr>))"
    by (auto simp: at_endpoint_def msgs_def split: option.splits dest!: find_index_SomeD(1) nth_mem)
  have n: "?m \<notin> msgs (routing demo_kernel)"
    by (simp add: demo_no_msgs)
  have "names_wf (names_dir demo_kernel)" using wit_names_wf(1) by (simp add: demo_kernel_def wit_kernel_def)
  then show ?thesis using messages_stamped [OF _ _ d m n] d m n wit_routing_wf by auto
qed

end
