(* ===== verification/Spec2Isabelle.thy ===== *)
theory Spec2Isabelle
  imports Frame_Init Handshake Reply_Wait Spawn_Demo Stamps
begin

text \<open>
  Verification of the kernel of GodspeedOS, a capability microkernel in Rust (\<open>kernel/src\<close>), and of the SDK's side of its spawn
  request (\<open>sdk/rust/src/service_context.rs\<close>).

  \<^bold>\<open>The program.\<close> Tasks reach everything through capabilities. A capability (\<open>capability/\<close>) names a resource, the rights on it,
  and the resource's generation when it was minted; the global resource table holds each resource's present generation, so
  bumping it revokes every capability at once. An endpoint (\<open>ipc/\<close>) is a resource with a queue of 16 messages in the routing table;
  a message carries bytes, up to four capabilities, its sender's endpoint and the badge of a delegated resource. Delegated
  resources are identifiers that a service mints for its own objects. The scheduler (\<open>task/scheduler.rs\<close>) has a flat table of tasks and a
  current task per core. A system call (\<open>syscall/dispatch.rs\<close>) looks up its capabilities, acts on these tables, and may block.
  Ending a task tears down its endpoints, capabilities, name, interrupt routes and delegated resources, wakes whoever waited
  for it, and waits for other cores to let go of it. Starting one (\<open>task/mod.rs\<close>) builds all of that from a request.

  \<^bold>\<open>Conventions.\<close> A panic of the kernel is \<^const>\<open>None\<close>; a Rust \<open>Result\<close> is a sum with the error on the left; integers are
  words of their width where they can wrap, and identifiers and indices are natural numbers. A handler takes the kernel's state and
  returns an outcome (the value returned, blocked, or going round again) with the new state. A loop that blocks is one pass and what it does when it is
  resumed. What the code under \<open>arch/\<close> answers is an argument: the record \<open>Env\<close> for the system calls (user memory, devices,
  timers) and \<open>Board\<close> for spawning (the bus, the loader, the mappings); what is asked of it is a trace in the state. An operation
  that runs under a lock is one step.

  \<^bold>\<open>Theories and sources.\<close>
  \<^item> \<open>Prelude\<close>, \<open>Interfaces\<close>, \<open>Bytes\<close>: types, scans of fixed tables, byte encodings, and the contracts: a bounded queue, a pool of
    identifiers, a directory, a system with an invariant. Each is interpreted on the kernel's own tables where they are defined.
  \<^item> \<open>Capability\<close>, \<open>Cap_Table\<close>, \<open>Delegated\<close>: \<open>capability/rights.rs\<close>, \<open>generation.rs\<close>, \<open>cap.rs\<close>, \<open>table.rs\<close>, \<open>mod.rs\<close>,
    \<open>delegated.rs\<close> and the assertion of \<open>invariants/assertions.rs\<close>. A lookup accepts exactly a held, current, sufficient capability;
    revocation is final; identifiers that are used again cannot be reached by old capabilities.
  \<^item> \<open>Endpoint_Ids\<close>, \<open>Message_Queue\<close>, \<open>Names\<close>, \<open>Routing\<close>, \<open>Routing_Props\<close>: \<open>ipc/\<close>. The ring buffer is a bounded queue; the directory
    gives back what was registered; the routing table keeps its invariant along all runs; the outcomes of sending,
    receiving, calling and of an endpoint's death.
  \<^item> \<open>Frame_Alloc\<close>, \<open>Frame_Alloc_Props\<close>, \<open>Frame_Init\<close>: \<open>memory/allocator.rs\<close>. What boot leaves free, single and contiguous
    allocation, and that withdrawn frames never come back.
  \<^item> \<open>Task_State\<close>, \<open>Task_Table\<close>, \<open>Sched\<close>, \<open>Sched_Props\<close>, \<open>Handshake\<close>: \<open>task/state.rs\<close> and \<open>task/scheduler.rs\<close>. Fairness of the choice
    of the next task, no lost wake-up, timed wakes, memory budgets, and the lock-free handshake between a switch and a kill as an
    interleaving relation.
  \<^item> \<open>Kernel_State\<close>, \<open>Kill\<close>, \<open>Kill_Props\<close>, \<open>Kill_Total\<close>: the whole state, \<open>interrupt/route.rs\<close>, and ending a task phase by phase. It does not
    panic while generations have room, severs the task, wakes everyone, and by name ends with no such task alive.
  \<^item> \<open>Syscall\<close>, \<open>Syscall_Ops\<close>, \<open>Spawn\<close>, \<open>Dispatch\<close>: every handler of \<open>syscall/dispatch.rs\<close>, the spawn path of \<open>task/mod.rs\<close>,
    and the dispatcher of all 52 calls. \<open>Spawn_Abi\<close>: the SDK's encodings of a spawn request.
  \<^item> \<open>Cap_Flow\<close>, \<open>Cap_Calls\<close>, \<open>Authority\<close>: how capabilities move through every operation; along all runs authority only shrinks
    unless it is minted, and the tables stay typed.
  \<^item> \<open>Syscall_Props\<close>, \<open>Stamps\<close>: an unauthorised call changes nothing; a capability moves with its message; a message's sender and
    badge cannot be forged.
  \<^item> \<open>Spawn_Props\<close>, \<open>Spawn_Demo\<close>: a bound on the authority that a spawn adds; the kernel reads back what the SDK wrote; a name that
    panics the kernel.
  \<^item> \<open>Reply_Wait\<close>: two ways in which waiting for a reply goes wrong. \<open>Demo\<close>: the concrete kernel that the examples run on.

  \<^bold>\<open>Bounds.\<close> Table sizes are the source's constants. No loop has fuel: recursion is structural or has a measure, and the two loops that are
  partial functions (waking the callers of a dead replier, killing by name) are proved to end, by the number of tasks that
  still wait and of live tasks of the name. The killer's wait for another core reads a list of samples and is proved to end within
  five windows. Generations are 32 bits wide; a bump that would wrap panics, and that
  killing by name ends is proved where each live task of the name has room for three more bumps.

  \<^bold>\<open>Not modelled.\<close> Page tables, the ELF loader, context switching, device drivers and the ports (\<open>arch/\<close>, \<open>loader.rs\<close>), core start-up and
  the spin lock (\<open>smp/\<close>), boot order, console and log output: they are hardware access, and reach the tables above only through the modelled
  operations. A fault on a user address that passed its range check is outside the model. Counters and log lines that only feed
  diagnostics are left out. User-space services, the rest of the SDK and the host tools are not part of the kernel.
\<close>

end
